(* ===== verification/Prelude.thy ===== *)
theory Prelude
  imports Main "HOL-Library.AList" "HOL-Library.Char_ord" "HOL-Library.List_Lexorder"
begin

text \<open>
  Shared vocabulary of the development.

  \<^item> \<open>'v umap\<close> models \<open>std::unordered_map<std::string, V>\<close>: an association list whose order
    stands for the unspecified iteration order of the container. Lookup is \<open>map_of\<close>,
    \<open>operator[]\<close> assignment is \<open>AList.update\<close>, \<open>erase\<close> is \<open>AList.delete\<close>.
  \<^item> \<open>'v omap\<close> models \<open>std::map<std::string, V>\<close>: an association list kept strictly sorted by
    key by \<open>oput\<close>, so that a loop over the list visits the keys in the order of the container.
  \<^item> \<open>std::set<T>\<close> is a HOL set; a loop over it is a loop over \<open>sorted_list_of_set\<close>.
  \<^item> A C++ function that may throw returns a value of a sum type: \<open>Inl\<close> is the exception.

  The order on strings is the lexicographic order of \<open>List_Lexorder\<close> over the order of
  \<open>Char_ord\<close>, which is \<open>std::char_traits<char>::compare\<close>.
\<close>

named_theorems wf_intros "preservation lemmas of the well-formedness invariants"
named_theorems frame_simps "fields that an operation leaves unchanged"

type_synonym 'v umap = "(string \<times> 'v) list"
type_synonym 'v omap = "(string \<times> 'v) list"

abbreviation keys :: "('k \<times> 'v) list \<Rightarrow> 'k set" where
  "keys m \<equiv> set (map fst m)"

abbreviation distinct_keys :: "('k \<times> 'v) list \<Rightarrow> bool" where
  "distinct_keys m \<equiv> distinct (map fst m)"


section \<open>Results\<close>

definition rbind :: "'e + 'a \<Rightarrow> ('a \<Rightarrow> 'e + 'b) \<Rightarrow> 'e + 'b" where
  "rbind r f = (case r of Inl e \<Rightarrow> Inl e | Inr a \<Rightarrow> f a)"

lemma rbind_simps [simp]:
  "rbind (Inl e) f = Inl e"
  "rbind (Inr a) f = f a"
  by (simp_all add: rbind_def)

lemma rbind_eq_Inr [simp]: "rbind r f = Inr b \<longleftrightarrow> (\<exists>a. r = Inr a \<and> f a = Inr b)"
  by (cases r) simp_all

lemma rbind_eq_Inl: "rbind r f = Inl e \<longleftrightarrow> r = Inl e \<or> (\<exists>a. r = Inr a \<and> f a = Inl e)"
  by (cases r) simp_all

lemma rbind_cong [fundef_cong]:
  "r = r' \<Longrightarrow> (\<And>a. r' = Inr a \<Longrightarrow> f a = g a) \<Longrightarrow> rbind r f = rbind r' g"
  by (cases r') simp_all


section \<open>Association lists as maps\<close>

lemma map_of_update [simp]: "map_of (AList.update k v m) = (map_of m)(k \<mapsto> v)"
  by (rule update_conv')

lemma map_of_delete [simp]: "map_of (AList.delete k m) = (map_of m)(k := None)"
  by (rule delete_conv')

lemma keys_update [simp]: "fst ` set (AList.update k v m) = insert k (fst ` set m)"
  using dom_update[of k v m] by (simp add: dom_map_of_conv_image_fst [symmetric])

lemma keys_delete [simp]: "fst ` set (AList.delete k m) = fst ` set m - {k}"
  by (simp add: dom_map_of_conv_image_fst [symmetric] map_of_delete del: map_of_delete)
     (auto simp: dom_map_of_conv_image_fst [symmetric] dom_def split: if_splits)

lemma map_of_map_value:
  "map_of (map (\<lambda>(k, v). (k, f k v)) m) k = map_option (f k) (map_of m k)"
  by (induction m) auto

lemma map_of_filter_value:
  "distinct_keys m \<Longrightarrow>
   map_of (filter (\<lambda>(k, v). P k v) m) k
     = (case map_of m k of None \<Rightarrow> None | Some v \<Rightarrow> if P k v then Some v else None)"
proof (induction m)
  case (Cons kv m)
  obtain k0 v0 where kv: "kv = (k0, v0)" by (cases kv)
  have "k0 \<notin> fst ` set m" using Cons.prems kv by simp
  then have none: "map_of m k0 = None" "map_of (filter (\<lambda>(k, v). P k v) m) k0 = None"
    by (auto simp: map_of_eq_None_iff)
  show ?case using Cons none kv by auto
qed simp

lemma map_of_filter_key: "map_of (filter (\<lambda>kv. P (fst kv)) m) k = (if P k then map_of m k else None)"
  by (induction m) auto

lemma distinct_keys_filter: "distinct_keys m \<Longrightarrow> distinct_keys (filter P m)"
  by (induction m) auto

lemma in_set_map_of: "distinct_keys m \<Longrightarrow> (k, v) \<in> set m \<longleftrightarrow> map_of m k = Some v"
  by (auto dest: map_of_SomeD)


section \<open>Ordered association lists\<close>

fun oput :: "string \<Rightarrow> 'v \<Rightarrow> 'v omap \<Rightarrow> 'v omap" where
  "oput k v [] = [(k, v)]"
| "oput k v ((k', v') # m) =
     (if k < k' then (k, v) # (k', v') # m
      else if k = k' then (k, v) # m
      else (k', v') # oput k v m)"

definition oerase :: "string \<Rightarrow> 'v omap \<Rightarrow> 'v omap" where
  "oerase k m = filter (\<lambda>kv. fst kv \<noteq> k) m"

abbreviation omap_ok :: "'v omap \<Rightarrow> bool" where
  "omap_ok m \<equiv> sorted_wrt (<) (map fst m)"

lemma keys_oput [simp]: "fst ` set (oput k v m) = insert k (fst ` set m)"
  by (induction k v m rule: oput.induct) auto

lemma omap_ok_oput: "omap_ok m \<Longrightarrow> omap_ok (oput k v m)"
  by (induction k v m rule: oput.induct) (auto simp: less_le_not_le dest: order.strict_trans)

lemma omap_ok_oerase: "omap_ok m \<Longrightarrow> omap_ok (oerase k m)"
  by (induction m) (auto simp: oerase_def)

lemma omap_ok_distinct: "omap_ok m \<Longrightarrow> distinct_keys m"
  using strict_sorted_iff by blast

lemma map_of_oput: "omap_ok m \<Longrightarrow> map_of (oput k v m) = (map_of m)(k \<mapsto> v)"
proof (induction k v m rule: oput.induct)
  case (2 k v k' v' m)
  then show ?case by (auto simp: fun_eq_iff)
qed simp

lemma map_of_oerase: "map_of (oerase k m) = (map_of m)(k := None)"
  by (induction m) (auto simp: oerase_def fun_eq_iff)

lemma omap_eqI:
  assumes "omap_ok m" "omap_ok n" "map_of m = map_of n"
  shows "m = n"
  using assms
proof (induction m arbitrary: n)
  case Nil
  then show ?case by simp
next
  case (Cons kv m)
  obtain k v where kv: "kv = (k, v)" by (cases kv)
  obtain k' v' n' where n: "n = (k', v') # n'"
    using Cons.prems(3) by (metis empty_eq_map_of_iff list.exhaust list.simps(3) prod.exhaust)
  have low: "map_of m k = None" "map_of n' k' = None"
    using Cons.prems(1,2) kv n by (auto simp: map_of_eq_None_iff)
  have eq: "map_of (kv # m) x = map_of n x" for x
    using Cons.prems(3) by (rule fun_cong)
  have k: "k = k'"
  proof (rule ccontr)
    assume ne: "k \<noteq> k'"
    have "map_of n' k = Some v" "map_of m k' = Some v'"
      using eq[of k] eq[of k'] ne kv n by auto
    then have "k \<in> fst ` set n'" "k' \<in> fst ` set m"
      by (force dest: map_of_SomeD)+
    then show False using Cons.prems(1,2) kv n by (auto dest: less_asym)
  qed
  have v: "v = v'" using eq[of k] kv n k by simp
  have rest: "map_of m = map_of n'"
  proof
    fix x show "map_of m x = map_of n' x"
      using eq[of x] low kv n k by (cases "x = k") auto
  qed
  show ?case using Cons.IH[OF _ _ rest] Cons.prems(1,2) kv n k v by simp
qed


section \<open>Weighted sums over association lists\<close>

text \<open>
  \<open>amount f m\<close> adds \<open>f\<close> over the values of an association list; reference counts are such sums.
\<close>

definition amount :: "('v \<Rightarrow> nat) \<Rightarrow> ('k \<times> 'v) list \<Rightarrow> nat" where
  "amount f m = (\<Sum>kv\<leftarrow>m. f (snd kv))"

abbreviation weight_at :: "('v \<Rightarrow> nat) \<Rightarrow> ('k \<times> 'v) list \<Rightarrow> 'k \<Rightarrow> nat" where
  "weight_at f m k \<equiv> (case map_of m k of None \<Rightarrow> 0 | Some v \<Rightarrow> f v)"

lemma amount_simps [simp]: "amount f [] = 0" "amount f (kv # m) = f (snd kv) + amount f m"
  by (simp_all add: amount_def)

lemma amount_update:
  "distinct_keys m \<Longrightarrow> amount f (AList.update k v m) + weight_at f m k = amount f m + f v"
proof (induction m)
  case (Cons kv m)
  then show ?case by (cases kv) auto
qed simp

lemma amount_delete:
  "distinct_keys m \<Longrightarrow> amount f (AList.delete k m) + weight_at f m k = amount f m"
proof (induction m)
  case (Cons kv m)
  obtain k0 v0 where kv: "kv = (k0, v0)" by (cases kv)
  show ?case
  proof (cases "k0 = k")
    case True
    then have "AList.delete k m = m" "map_of m k = None"
      using Cons.prems kv by (auto simp: delete_idem map_of_eq_None_iff)
    with True kv show ?thesis by simp
  next
    case False
    with Cons kv show ?thesis by simp
  qed
qed simp

lemma amount_pos_iff:
  "0 < amount f m \<longleftrightarrow> (\<exists>k v. (k, v) \<in> set m \<and> 0 < f v)"
  by (induction m) (auto, force)

lemma amount_ge: "(k, v) \<in> set m \<Longrightarrow> f v \<le> amount f m"
  by (induction m) auto

end
