(* ===== verification/Contract_Types.thy ===== *)
theory Contract_Types
  imports Prelude
begin

text \<open>
  The network-observation part of \<open>lib/interop_contract\<close>: the enumerations and structures that
  cross the D-Bus boundary, their string forms and the ingress limits.

  \<^item> \<open>NetworkObservationTypes.hpp\<close>: \<open>candidate_classification\<close>, \<open>candidate_status\<close>,
    \<open>local_interface_state\<close>, \<open>wire_candidate\<close> (the wire-only \<open>RemoteCandidate\<close>);
  \<^item> \<open>NetworkObservationEnumStrings.hpp\<close>: the four conversions, each a total function as in the
    source (an unknown string reads as \<open>Unknown\<close> or \<open>Provisional\<close>);
  \<^item> \<open>IngressLimits.hpp\<close>: the limits, as natural numbers.

  The lemmas show that the string forms are injective and that reading a printed value returns it.
\<close>

datatype candidate_classification =
    Artifact
  | LocalSelf
  | WeakCandidate
  | ProbableEndpoint
  | RemoteEndpoint
  | GatewayLike
  | TopologyPeer
  | UnknownClass

datatype candidate_status =
    Provisional
  | Confirmed
  | Aged
  | Expired
  | Removed

record local_interface_state =
  li_ifindex :: int
  li_ifname :: string
  li_mac :: string
  li_adminUp :: bool
  li_running :: bool
  li_operstate :: string
  li_masterIfname :: "string option"
  li_ipv4 :: "string set"
  li_ipv6 :: "string set"

record wire_candidate =
  wc_mac :: string
  wc_classification :: candidate_classification
  wc_status :: candidate_status
  wc_seenInFdb :: bool
  wc_seenInNeigh :: bool
  wc_seenInLldp :: bool
  wc_bridgePort :: "string option"
  wc_remoteChassisId :: "string option"
  wc_remotePortId :: "string option"
  wc_remoteSystemName :: "string option"
  wc_neighborIfaces :: "string set"
  wc_ipv4 :: "string set"
  wc_ipv6 :: "string set"

text \<open>The default-constructed interface that \<open>operator[]\<close> of a map inserts.\<close>

definition empty_interface :: local_interface_state where
  "empty_interface = \<lparr>li_ifindex = 0, li_ifname = [], li_mac = [], li_adminUp = False,
     li_running = False, li_operstate = [], li_masterIfname = None, li_ipv4 = {}, li_ipv6 = {}\<rparr>"


section \<open>String forms\<close>

fun classificationToString :: "candidate_classification \<Rightarrow> string" where
  "classificationToString Artifact = ''Artifact''"
| "classificationToString LocalSelf = ''LocalSelf''"
| "classificationToString WeakCandidate = ''WeakCandidate''"
| "classificationToString ProbableEndpoint = ''ProbableEndpoint''"
| "classificationToString RemoteEndpoint = ''RemoteEndpoint''"
| "classificationToString GatewayLike = ''GatewayLike''"
| "classificationToString TopologyPeer = ''TopologyPeer''"
| "classificationToString UnknownClass = ''Unknown''"

definition classificationFromString :: "string \<Rightarrow> candidate_classification" where
  "classificationFromString s =
     (if s = ''Artifact'' then Artifact
      else if s = ''LocalSelf'' then LocalSelf
      else if s = ''WeakCandidate'' then WeakCandidate
      else if s = ''ProbableEndpoint'' then ProbableEndpoint
      else if s = ''RemoteEndpoint'' then RemoteEndpoint
      else if s = ''GatewayLike'' then GatewayLike
      else if s = ''TopologyPeer'' then TopologyPeer
      else UnknownClass)"

fun statusToString :: "candidate_status \<Rightarrow> string" where
  "statusToString Provisional = ''Provisional''"
| "statusToString Confirmed = ''Confirmed''"
| "statusToString Aged = ''Aged''"
| "statusToString Expired = ''Expired''"
| "statusToString Removed = ''Removed''"

definition statusFromString :: "string \<Rightarrow> candidate_status" where
  "statusFromString s =
     (if s = ''Provisional'' then Provisional
      else if s = ''Confirmed'' then Confirmed
      else if s = ''Aged'' then Aged
      else if s = ''Expired'' then Expired
      else if s = ''Removed'' then Removed
      else Provisional)"

lemma classification_roundtrip [simp]:
  "classificationFromString (classificationToString c) = c"
  by (cases c) (simp_all add: classificationFromString_def)

lemma status_roundtrip [simp]: "statusFromString (statusToString s) = s"
  by (cases s) (simp_all add: statusFromString_def)

lemma classificationToString_inj: "classificationToString c = classificationToString d \<longleftrightarrow> c = d"
  by (metis classification_roundtrip)

lemma statusToString_inj: "statusToString s = statusToString t \<longleftrightarrow> s = t"
  by (metis status_roundtrip)

lemma classificationToString_unknown:
  "classificationToString c = ''Unknown'' \<longleftrightarrow> c = UnknownClass"
  by (cases c) simp_all

lemma classificationToString_length: "length (classificationToString c) \<le> 16"
  by (cases c) simp_all

lemma statusToString_length: "length (statusToString s) \<le> 11"
  by (cases s) simp_all


section \<open>Ingress limits\<close>

definition kMaxKeyLength :: nat where "kMaxKeyLength = 255"

definition kMaxStringLength :: nat where "kMaxStringLength = 4096"

definition kMaxFields :: nat where "kMaxFields = 256"

definition kMaxSources :: nat where "kMaxSources = 128"

definition inv_kMaxIssues :: nat where "inv_kMaxIssues = 128"

definition inv_kMaxIssueFields :: nat where "inv_kMaxIssueFields = 16"

definition kMaxInterfaces :: nat where "kMaxInterfaces = 256"

definition kMaxCandidates :: nat where "kMaxCandidates = 1024"

definition kMaxStringSetEntries :: nat where "kMaxStringSetEntries = 128"

definition obs_kMaxIssues :: nat where "obs_kMaxIssues = 128"

definition obs_kMaxIssueFields :: nat where "obs_kMaxIssueFields = 16"

lemmas ingress_limits = kMaxKeyLength_def kMaxStringLength_def kMaxFields_def kMaxSources_def
  inv_kMaxIssues_def inv_kMaxIssueFields_def kMaxInterfaces_def kMaxCandidates_def
  kMaxStringSetEntries_def obs_kMaxIssues_def obs_kMaxIssueFields_def

end
