(* ===== verification/Observation_Types.thy ===== *)
theory Observation_Types
  imports Contract_Types
begin

text \<open>
  The types of \<open>services/network-observation/core/public\<close>: observations, the internal candidate
  with its per-source evidence, the model configuration, model events and the policy and
  classifier interfaces. \<open>std::chrono\<close> time points and durations are integers counting
  nanoseconds; \<open>std::chrono::seconds\<close> values are compared after scaling by \<open>nanos_per_sec\<close>.
  The evidence keys carry the lexicographic orders that the source gives them, as instances of
  \<open>linorder\<close>. Address families are the Linux numbers.
\<close>

type_synonym time_point = int

definition nanos_per_sec :: int where "nanos_per_sec = 1000000000"

definition AF_INET :: int where "AF_INET = 2"

definition AF_INET6 :: int where "AF_INET6 = 10"

definition AF_BRIDGE :: int where "AF_BRIDGE = 7"


section \<open>Observations\<close>

datatype neighbor_reachability =
    ReachUnknown | Permanent | NoArp | Reachable | Stale | Probe | Delay | Incomplete | Failed

datatype fdb_entry_kind = FdbUnknown | Dynamic | Static | Local | ControlPlane

datatype observation_event = Present | RemovedObs

record link_observation =
  lo_observedAt :: time_point
  lo_ifindex :: int
  lo_ifname :: string
  lo_mac :: string
  lo_adminUp :: bool
  lo_running :: bool
  lo_operstate :: string
  lo_masterIfname :: "string option"
  lo_event :: observation_event

record address_observation =
  ao_observedAt :: time_point
  ao_ifname :: string
  ao_event :: observation_event
  ao_family :: int
  ao_cidr :: string

record neighbor_observation =
  no_observedAt :: time_point
  no_ifname :: string
  no_event :: observation_event
  no_family :: int
  no_mac :: string
  no_ip :: string
  no_reachability :: neighbor_reachability

record fdb_observation =
  fo_observedAt :: time_point
  fo_portIfname :: string
  fo_event :: observation_event
  fo_mac :: string
  fo_entryKind :: fdb_entry_kind

record lldp_observation =
  ll_observedAt :: time_point
  ll_localIfname :: string
  ll_event :: observation_event
  ll_remoteChassisId :: "string option"
  ll_remotePortId :: "string option"
  ll_remoteSystemName :: "string option"
  ll_keepalive :: bool


section \<open>Evidence keys and candidates\<close>

datatype neighbor_evidence_key =
  NeighborEvidenceKey (nek_ifname: string) (nek_family: int) (nek_ip: string)

datatype fdb_evidence_key = FdbEvidenceKey (fek_ifname: string) (fek_mac: string)

definition neighbor_key_less :: "neighbor_evidence_key \<Rightarrow> neighbor_evidence_key \<Rightarrow> bool" where
  "neighbor_key_less a b \<longleftrightarrow>
     (if nek_ifname a \<noteq> nek_ifname b then nek_ifname a < nek_ifname b
      else if nek_family a \<noteq> nek_family b then nek_family a < nek_family b
      else nek_ip a < nek_ip b)"

definition fdb_key_less :: "fdb_evidence_key \<Rightarrow> fdb_evidence_key \<Rightarrow> bool" where
  "fdb_key_less a b \<longleftrightarrow>
     (if fek_ifname a \<noteq> fek_ifname b then fek_ifname a < fek_ifname b else fek_mac a < fek_mac b)"

text \<open>The comparison operators order the keys totally, as the ordered containers that hold them need.\<close>

instantiation neighbor_evidence_key :: linorder
begin

definition less_neighbor_evidence_key :: "neighbor_evidence_key \<Rightarrow> neighbor_evidence_key \<Rightarrow> bool" where
  "less_neighbor_evidence_key = neighbor_key_less"

definition less_eq_neighbor_evidence_key :: "neighbor_evidence_key \<Rightarrow> neighbor_evidence_key \<Rightarrow> bool" where
  "less_eq_neighbor_evidence_key a b \<longleftrightarrow> a < b \<or> a = b"

instance
  by standard
    (auto simp: less_neighbor_evidence_key_def neighbor_key_less_def less_eq_neighbor_evidence_key_def
       split: if_splits, metis neighbor_evidence_key.expand linorder_neqE)

end

instantiation fdb_evidence_key :: linorder
begin

definition less_fdb_evidence_key :: "fdb_evidence_key \<Rightarrow> fdb_evidence_key \<Rightarrow> bool" where
  "less_fdb_evidence_key = fdb_key_less"

definition less_eq_fdb_evidence_key :: "fdb_evidence_key \<Rightarrow> fdb_evidence_key \<Rightarrow> bool" where
  "less_eq_fdb_evidence_key a b \<longleftrightarrow> a < b \<or> a = b"

instance
  by standard
    (auto simp: less_fdb_evidence_key_def fdb_key_less_def less_eq_fdb_evidence_key_def
       split: if_splits, metis fdb_evidence_key.expand linorder_neqE)

end

record candidate_score =
  cs_total :: int
  cs_reasons :: "string list"

record remote_candidate =
  rc_mac :: string
  rc_ipv4 :: "string set"
  rc_ipv6 :: "string set"
  rc_bridgePort :: "string option"
  rc_neighborIfaces :: "string set"
  rc_neighborEvidence :: "neighbor_evidence_key set"
  rc_fdbEvidence :: "fdb_evidence_key set"
  rc_seenInNeigh :: bool
  rc_seenInFdb :: bool
  rc_seenInLldp :: bool
  rc_remoteChassisId :: "string option"
  rc_remotePortId :: "string option"
  rc_remoteSystemName :: "string option"
  rc_firstSeen :: time_point
  rc_lastSeen :: time_point
  rc_score :: candidate_score
  rc_classification :: candidate_classification
  rc_status :: candidate_status

definition empty_score :: candidate_score where
  "empty_score = \<lparr>cs_total = 0, cs_reasons = []\<rparr>"

definition empty_candidate :: remote_candidate where
  "empty_candidate = \<lparr>rc_mac = [], rc_ipv4 = {}, rc_ipv6 = {}, rc_bridgePort = None,
     rc_neighborIfaces = {}, rc_neighborEvidence = {}, rc_fdbEvidence = {},
     rc_seenInNeigh = False, rc_seenInFdb = False, rc_seenInLldp = False,
     rc_remoteChassisId = None, rc_remotePortId = None, rc_remoteSystemName = None,
     rc_firstSeen = 0, rc_lastSeen = 0, rc_score = empty_score,
     rc_classification = UnknownClass, rc_status = Provisional\<rparr>"


section \<open>Configuration\<close>

record scoring_weights =
  sw_unicastMac :: int
  sw_ipv4 :: int
  sw_ipv6 :: int
  sw_neighbor :: int
  sw_fdb :: int
  sw_lldp :: int
  sw_temporalBonus :: int
  sw_agingPenalty :: int

record scoring_thresholds =
  st_probable :: int
  st_confirmed :: int
  st_topology :: int

datatype classifier_kind = RuleBased | Scoring

record classifier_config =
  cc_kind :: classifier_kind
  cc_weights :: scoring_weights
  cc_thresholds :: scoring_thresholds

definition default_weights :: scoring_weights where
  "default_weights = \<lparr>sw_unicastMac = 20, sw_ipv4 = 15, sw_ipv6 = 10, sw_neighbor = 15, sw_fdb = 25,
     sw_lldp = 40, sw_temporalBonus = 10, sw_agingPenalty = -15\<rparr>"

definition default_thresholds :: scoring_thresholds where
  "default_thresholds = \<lparr>st_probable = 25, st_confirmed = 50, st_topology = 80\<rparr>"

definition default_classifier_config :: classifier_config where
  "default_classifier_config =
     \<lparr>cc_kind = RuleBased, cc_weights = default_weights, cc_thresholds = default_thresholds\<rparr>"

text \<open>
  \<open>IInterfacePolicy\<close> is a record of its four predicates; \<open>ICandidateClassifier\<close> is its
  \<open>classify\<close> function.
\<close>

record interface_policy =
  ip_includeInLocalState :: "string \<Rightarrow> bool"
  ip_allowRemoteNeighborEvidence :: "string \<Rightarrow> bool"
  ip_allowRemoteFdbEvidence :: "string \<Rightarrow> bool"
  ip_allowLldpEvidence :: "string \<Rightarrow> bool"

type_synonym classifier = "remote_candidate \<Rightarrow> candidate_classification"

record model_config =
  mc_skipNullMac :: bool
  mc_skipLoopbackInterface :: bool
  mc_skipMulticastIPv4 :: bool
  mc_skipMulticastIPv6 :: bool
  mc_skipMulticastMac :: bool
  mc_skipIeeeReservedMac :: bool
  mc_emitDeviceIfIpOnly :: bool
  mc_candidateAgeout :: int
  mc_candidateExpire :: int
  mc_interfacePolicy :: "interface_policy option"
  mc_classifierConfig :: classifier_config

definition default_model_config :: model_config where
  "default_model_config = \<lparr>mc_skipNullMac = True, mc_skipLoopbackInterface = True,
     mc_skipMulticastIPv4 = True, mc_skipMulticastIPv6 = True, mc_skipMulticastMac = True,
     mc_skipIeeeReservedMac = True, mc_emitDeviceIfIpOnly = False, mc_candidateAgeout = 60,
     mc_candidateExpire = 300, mc_interfacePolicy = None,
     mc_classifierConfig = default_classifier_config\<rparr>"


section \<open>Model events\<close>

datatype model_event_kind =
    LocalInterfaceChanged
  | LocalInterfaceRemoved
  | LocalAddressChanged
  | CandidateAdded
  | CandidateUpdated
  | CandidateConfirmed
  | CandidateAged
  | CandidateExpired
  | CandidateRemoved
  | ClassificationChanged

record model_event =
  me_kind :: model_event_kind
  me_timestamp :: time_point
  me_ifname :: "string option"
  me_mac :: "string option"


section \<open>Health of the runtime\<close>

record runtime_health =
  rh_running :: bool
  rh_lldpAvailable :: bool

end
