(* ===== verification/Classifier.thy ===== *)
theory Classifier
  imports Observation_Types
begin

text \<open>
  \<open>core/classifier\<close>: the two bundled classifiers and their factory. The locale
  \<open>bundled_classifier\<close> states the contract that \<open>ICandidateClassifier.h\<close> gives them (LLDP evidence
  means \<open>TopologyPeer\<close>) together with what the engine relies on: the result depends on the
  evidence only, and is never one of the engine-owned classes \<open>LocalSelf\<close> and \<open>Artifact\<close>.
  Scores are integers: the configured weights are far below the range of \<open>int\<close>.
\<close>

definition rule_based_classify :: classifier where
  "rule_based_classify c =
     (if rc_seenInLldp c then TopologyPeer
      else if rc_seenInFdb c \<and> rc_ipv4 c \<noteq> {} then RemoteEndpoint
      else if rc_seenInFdb c \<and> rc_ipv6 c \<noteq> {} then RemoteEndpoint
      else if rc_seenInFdb c then RemoteEndpoint
      else if (rc_ipv4 c \<noteq> {} \<or> rc_ipv6 c \<noteq> {}) \<and> rc_seenInNeigh c then RemoteEndpoint
      else if rc_seenInNeigh c then WeakCandidate
      else UnknownClass)"

definition computeScore :: "scoring_weights \<Rightarrow> remote_candidate \<Rightarrow> int" where
  "computeScore w c =
     (let s0 = (0::int);
          s1 = (if rc_seenInFdb c then s0 + sw_fdb w else s0);
          s2 = (if rc_seenInNeigh c then s1 + sw_neighbor w else s1);
          s3 = (if rc_seenInLldp c then s2 + sw_lldp w else s2);
          s4 = (if rc_ipv4 c \<noteq> {} then s3 + sw_ipv4 w else s3);
          s5 = (if rc_ipv6 c \<noteq> {} then s4 + sw_ipv6 w else s4)
      in s5)"

definition scoreToClass :: "scoring_thresholds \<Rightarrow> int \<Rightarrow> candidate_classification" where
  "scoreToClass t score =
     (if score \<ge> st_topology t then TopologyPeer
      else if score \<ge> st_confirmed t then RemoteEndpoint
      else if score \<ge> st_probable t then ProbableEndpoint
      else WeakCandidate)"

definition scoring_classify :: "scoring_weights \<Rightarrow> scoring_thresholds \<Rightarrow> classifier" where
  "scoring_classify w t c =
     (if rc_seenInLldp c then TopologyPeer else scoreToClass t (computeScore w c))"

definition createClassifier :: "classifier_config \<Rightarrow> classifier" where
  "createClassifier cfg =
     (case cc_kind cfg of
        Scoring \<Rightarrow> scoring_classify (cc_weights cfg) (cc_thresholds cfg)
      | RuleBased \<Rightarrow> rule_based_classify)"


section \<open>The contract of a bundled classifier\<close>

locale bundled_classifier =
  fixes classify :: classifier
  assumes lldp_topology: "rc_seenInLldp c \<Longrightarrow> classify c = TopologyPeer"
    and evidence_only: "classify (c\<lparr>rc_classification := k, rc_status := s\<rparr>) = classify c"
    and not_engine_owned: "classify c \<notin> {LocalSelf, Artifact}"
begin

lemma reclassify_stable: "classify (c\<lparr>rc_classification := classify c\<rparr>) = classify c"
  using evidence_only[where c = c and k = "classify c" and s = "rc_status c"] by simp

lemma evidence_only_status: "classify (c\<lparr>rc_status := s\<rparr>) = classify c"
  using evidence_only[where c = c and k = "rc_classification c" and s = s] by simp

end

interpretation rule_based: bundled_classifier rule_based_classify
  by unfold_locales (simp_all add: rule_based_classify_def)

lemma computeScore_evidence [simp]:
  "computeScore w (c\<lparr>rc_classification := k, rc_status := s\<rparr>) = computeScore w c"
  by (simp add: computeScore_def)

lemma scoreToClass_range:
  "scoreToClass t n \<in> {TopologyPeer, RemoteEndpoint, ProbableEndpoint, WeakCandidate}"
  unfolding scoreToClass_def by simp

interpretation scoring: bundled_classifier "scoring_classify w t" for w t
proof unfold_locales
  fix c k s
  show "rc_seenInLldp c \<Longrightarrow> scoring_classify w t c = TopologyPeer"
    by (simp add: scoring_classify_def)
  show "scoring_classify w t (c\<lparr>rc_classification := k, rc_status := s\<rparr>) = scoring_classify w t c"
    by (simp add: scoring_classify_def)
  show "scoring_classify w t c \<notin> {LocalSelf, Artifact}"
    using scoreToClass_range[of t "computeScore w c"] by (auto simp: scoring_classify_def)
qed

lemma createClassifier_cases:
  "createClassifier cfg = rule_based_classify
   \<or> createClassifier cfg = scoring_classify (cc_weights cfg) (cc_thresholds cfg)"
  by (cases "cc_kind cfg") (simp_all add: createClassifier_def)

interpretation created: bundled_classifier "createClassifier cfg" for cfg
  using createClassifier_cases[of cfg] rule_based.bundled_classifier_axioms
    scoring.bundled_classifier_axioms[of "cc_weights cfg" "cc_thresholds cfg"] by auto


section \<open>Reference forms\<close>

text \<open>The seven branches of the rule-based classifier amount to four cases.\<close>

lemma rule_based_reference:
  "rule_based_classify c =
     (if rc_seenInLldp c then TopologyPeer
      else if rc_seenInFdb c \<or> (rc_seenInNeigh c \<and> rc_ipv4 c \<union> rc_ipv6 c \<noteq> {}) then RemoteEndpoint
      else if rc_seenInNeigh c then WeakCandidate
      else UnknownClass)"
  by (auto simp: rule_based_classify_def)

definition class_rank :: "candidate_classification \<Rightarrow> nat" where
  "class_rank k = (case k of
      UnknownClass \<Rightarrow> 0 | Artifact \<Rightarrow> 0 | LocalSelf \<Rightarrow> 0 | WeakCandidate \<Rightarrow> 1
    | ProbableEndpoint \<Rightarrow> 2 | RemoteEndpoint \<Rightarrow> 3 | GatewayLike \<Rightarrow> 3 | TopologyPeer \<Rightarrow> 4)"

definition more_evidence :: "remote_candidate \<Rightarrow> remote_candidate \<Rightarrow> bool" where
  "more_evidence c d \<longleftrightarrow>
     (rc_seenInFdb c \<longrightarrow> rc_seenInFdb d) \<and> (rc_seenInNeigh c \<longrightarrow> rc_seenInNeigh d) \<and>
     (rc_seenInLldp c \<longrightarrow> rc_seenInLldp d) \<and>
     rc_ipv4 c \<subseteq> rc_ipv4 d \<and> rc_ipv6 c \<subseteq> rc_ipv6 d"

definition weights_nonneg :: "scoring_weights \<Rightarrow> bool" where
  "weights_nonneg w \<longleftrightarrow>
     0 \<le> sw_fdb w \<and> 0 \<le> sw_neighbor w \<and> 0 \<le> sw_lldp w \<and> 0 \<le> sw_ipv4 w \<and> 0 \<le> sw_ipv6 w"

definition score_term :: "bool \<Rightarrow> int \<Rightarrow> int" where
  "score_term b w = (if b then w else 0)"

lemma computeScore_sum:
  "computeScore w c = score_term (rc_seenInFdb c) (sw_fdb w) + score_term (rc_seenInNeigh c) (sw_neighbor w)
     + score_term (rc_seenInLldp c) (sw_lldp w) + score_term (rc_ipv4 c \<noteq> {}) (sw_ipv4 w)
     + score_term (rc_ipv6 c \<noteq> {}) (sw_ipv6 w)"
  by (simp add: computeScore_def score_term_def Let_def)

lemma score_term_mono: "(b \<Longrightarrow> b') \<Longrightarrow> 0 \<le> w \<Longrightarrow> score_term b w \<le> score_term b' w"
  by (auto simp: score_term_def)

lemma computeScore_mono:
  assumes "weights_nonneg w" "more_evidence c d"
  shows "computeScore w c \<le> computeScore w d"
  using assms unfolding computeScore_sum weights_nonneg_def more_evidence_def
  by (intro add_mono score_term_mono) auto

lemma scoreToClass_mono:
  "s \<le> s' \<Longrightarrow> class_rank (scoreToClass t s) \<le> class_rank (scoreToClass t s')"
  by (simp add: scoreToClass_def class_rank_def)

lemma rule_based_mono:
  "more_evidence c d \<Longrightarrow> class_rank (rule_based_classify c) \<le> class_rank (rule_based_classify d)"
  by (auto simp: rule_based_reference more_evidence_def class_rank_def)

lemma class_rank_le_topology: "class_rank k \<le> class_rank TopologyPeer"
  by (cases k) (simp_all add: class_rank_def)

lemma scoring_mono:
  assumes "weights_nonneg w" "more_evidence c d"
  shows "class_rank (scoring_classify w t c) \<le> class_rank (scoring_classify w t d)"
proof (cases "rc_seenInLldp d")
  case True
  then show ?thesis by (simp add: scoring_classify_def class_rank_le_topology)
next
  case False
  then have "\<not> rc_seenInLldp c" using assms(2) by (auto simp: more_evidence_def)
  with False show ?thesis
    by (simp add: scoring_classify_def scoreToClass_mono computeScore_mono assms)
qed

end
