(* ===== verification/Lldp_Identity.thy ===== *)
theory Lldp_Identity
  imports Observation_Types
begin

text \<open>
  \<open>core/LldpUtils.h\<close>: recognising, normalising and resolving MAC-like LLDP identities. The
  character classes are those of \<open>isxdigit\<close> and \<open>tolower\<close> in the C locale.

  The same three functions key the source-side cache (\<open>LldpNeighborCache\<close>) and the engine's
  candidate table; the lemmas show that the resolved key is canonical, so both sides agree.
\<close>

definition is_xdigit :: "char \<Rightarrow> bool" where
  "is_xdigit c \<longleftrightarrow>
     (let n = of_char c :: nat in (48 \<le> n \<and> n \<le> 57) \<or> (65 \<le> n \<and> n \<le> 70) \<or> (97 \<le> n \<and> n \<le> 102))"

definition to_lower :: "char \<Rightarrow> char" where
  "to_lower c = (let n = of_char c :: nat in if 65 \<le> n \<and> n \<le> 90 then char_of (n + 32) else c)"

definition isMacLike :: "string \<Rightarrow> bool" where
  "isMacLike s \<longleftrightarrow>
     (if length s \<noteq> 17 then False
      else list_all
        (\<lambda>i. if i = 2 \<or> i = 5 \<or> i = 8 \<or> i = 11 \<or> i = 14 then s ! i = CHR '':'' else is_xdigit (s ! i))
        [0..<17])"

definition normalizeMac :: "string \<Rightarrow> string" where
  "normalizeMac s = map to_lower s"

definition resolveLldpIdentity :: "string option \<Rightarrow> string option \<Rightarrow> string" where
  "resolveLldpIdentity remoteChassisId remotePortId =
     (case remoteChassisId of
        Some c \<Rightarrow> (if isMacLike c then normalizeMac c
                   else (case remotePortId of
                           Some p \<Rightarrow> (if isMacLike p then normalizeMac p else [])
                         | None \<Rightarrow> []))
      | None \<Rightarrow> (case remotePortId of
                    Some p \<Rightarrow> (if isMacLike p then normalizeMac p else [])
                  | None \<Rightarrow> []))"


section \<open>Characters\<close>

lemma of_char_to_lower:
  "(of_char (to_lower c) :: nat) =
     (let n = of_char c in if 65 \<le> n \<and> n \<le> 90 then n + 32 else n)"
  by (simp add: to_lower_def Let_def)

lemma to_lower_idem [simp]: "to_lower (to_lower c) = to_lower c"
proof -
  have "\<not> (65 \<le> (of_char (to_lower c) :: nat) \<and> (of_char (to_lower c) :: nat) \<le> 90)"
    unfolding of_char_to_lower Let_def by (cases "65 \<le> (of_char c :: nat) \<and> (of_char c :: nat) \<le> 90") auto
  then show ?thesis unfolding to_lower_def [of "to_lower c"] Let_def by auto
qed

lemma is_xdigit_to_lower [simp]: "is_xdigit (to_lower c) = is_xdigit c"
  unfolding is_xdigit_def of_char_to_lower Let_def by auto

lemma of_char_eq_iff: "(of_char c :: nat) = of_char d \<longleftrightarrow> c = d"
  by (metis char_of_char)

lemma to_lower_colon [simp]: "to_lower c = CHR '':'' \<longleftrightarrow> c = CHR '':''"
proof -
  have "(of_char (to_lower c) :: nat) = of_char CHR '':'' \<longleftrightarrow> (of_char c :: nat) = of_char CHR '':''"
    unfolding of_char_to_lower Let_def by auto
  then show ?thesis by (simp only: of_char_eq_iff)
qed


section \<open>The resolved key is canonical\<close>

lemma normalizeMac_idem [simp]: "normalizeMac (normalizeMac s) = normalizeMac s"
  by (simp add: normalizeMac_def)

lemma length_normalizeMac [simp]: "length (normalizeMac s) = length s"
  by (simp add: normalizeMac_def)

lemma isMacLike_normalizeMac [simp]: "isMacLike (normalizeMac s) = isMacLike s"
  by (simp add: isMacLike_def normalizeMac_def list_all_iff)

lemma isMacLike_nonempty: "isMacLike s \<Longrightarrow> s \<noteq> []"
  by (auto simp: isMacLike_def)

lemma normalizeMac_eq_Nil [simp]: "normalizeMac s = [] \<longleftrightarrow> s = []"
  by (simp add: normalizeMac_def)

lemma resolve_empty_iff:
  "resolveLldpIdentity ch po = [] \<longleftrightarrow>
     (\<forall>s. ch = Some s \<longrightarrow> \<not> isMacLike s) \<and> (\<forall>s. po = Some s \<longrightarrow> \<not> isMacLike s)"
  by (auto simp: resolveLldpIdentity_def isMacLike_nonempty split: option.splits)

lemma resolve_macLike:
  "resolveLldpIdentity ch po \<noteq> [] \<Longrightarrow>
     isMacLike (resolveLldpIdentity ch po) \<and>
     normalizeMac (resolveLldpIdentity ch po) = resolveLldpIdentity ch po"
  by (auto simp: resolveLldpIdentity_def split: option.splits if_splits)

lemma resolve_case_insensitive:
  "resolveLldpIdentity (map_option normalizeMac ch) (map_option normalizeMac po)
     = resolveLldpIdentity ch po"
  by (auto simp: resolveLldpIdentity_def split: option.splits)

lemma resolve_chassis:
  "isMacLike c \<Longrightarrow> resolveLldpIdentity (Some c) po = normalizeMac c"
  by (simp add: resolveLldpIdentity_def)

end
