(* ===== verification/Hard_Filter.thy ===== *)
theory Hard_Filter
  imports Lldp_Identity "HOL-Library.Word"
begin

text \<open>
  \<open>core/policy/DefaultInterfacePolicy.cpp\<close> and \<open>core/engine/HardFilter.cpp\<close>: which interfaces
  contribute, and which neighbour and FDB observations are artifacts.

  \<open>strtol16\<close> is \<open>std::strtol\<close> with base 16 on a C string (white space, sign, optional \<open>0x\<close>,
  digits), as a value and the number of characters consumed; the filter calls it on two
  characters, so no overflow arises. \<open>inet_pton\<close> is a parameter \<open>pton\<close>: it returns the address in
  host byte order (the value of \<open>ntohl(addr.s_addr)\<close>) when the text is an IPv4 address.
\<close>

section \<open>The default interface policy\<close>

definition starts_with :: "string \<Rightarrow> string \<Rightarrow> bool" where
  "starts_with s p \<longleftrightarrow> take (length p) s = p"

definition isExcluded :: "string \<Rightarrow> bool" where
  "isExcluded ifname =
     (if ifname = ''lo'' then True
      else if starts_with ifname ''can'' then True
      else if starts_with ifname ''sit'' then True
      else if starts_with ifname ''tun'' then True
      else if starts_with ifname ''tap'' then True
      else if starts_with ifname ''veth'' then True
      else if starts_with ifname ''docker'' then True
      else False)"

definition default_allowLldpEvidence :: "string \<Rightarrow> bool" where
  "default_allowLldpEvidence ifname =
     (if isExcluded ifname then False else if starts_with ifname ''br-'' then False else True)"

definition defaultInterfacePolicy :: interface_policy where
  "defaultInterfacePolicy =
     \<lparr>ip_includeInLocalState = (\<lambda>ifname. \<not> isExcluded ifname),
      ip_allowRemoteNeighborEvidence = (\<lambda>ifname. \<not> isExcluded ifname),
      ip_allowRemoteFdbEvidence = (\<lambda>ifname. \<not> isExcluded ifname),
      ip_allowLldpEvidence = default_allowLldpEvidence\<rparr>"


section \<open>C library functions the filter calls\<close>

definition c_str :: "string \<Rightarrow> string" where
  "c_str s = takeWhile (\<lambda>c. c \<noteq> CHR 0x00) s"

definition is_space :: "char \<Rightarrow> bool" where
  "is_space c \<longleftrightarrow> (let n = of_char c :: nat in n = 32 \<or> (9 \<le> n \<and> n \<le> 13))"

definition xdigit_value :: "char \<Rightarrow> int" where
  "xdigit_value c =
     (let n = of_char (to_lower c) :: nat in if n \<le> 57 then int n - 48 else int n - 87)"

definition hex_prefix_length :: "string \<Rightarrow> nat" where
  "hex_prefix_length s =
     (case s of
        z # x # d # _ \<Rightarrow> (if z = CHR ''0'' \<and> to_lower x = CHR ''x'' \<and> is_xdigit d then 2 else 0)
      | _ \<Rightarrow> 0)"

definition strtol16 :: "string \<Rightarrow> int \<times> nat" where
  "strtol16 s =
     (let ws = length (takeWhile is_space s);
          s1 = drop ws s;
          neg = (s1 \<noteq> [] \<and> hd s1 = CHR ''-'');
          sg = (if s1 \<noteq> [] \<and> (hd s1 = CHR ''-'' \<or> hd s1 = CHR ''+'') then 1 else 0);
          s2 = drop sg s1;
          pre = hex_prefix_length s2;
          ds = takeWhile is_xdigit (drop pre s2);
          v = foldl (\<lambda>acc c. acc * 16 + xdigit_value c) 0 ds
      in if ds = [] then (0, 0)
         else ((if neg then - v else v), ws + sg + pre + length ds))"


section \<open>The filter\<close>

definition isNullMac :: "string \<Rightarrow> bool" where
  "isNullMac mac \<longleftrightarrow> mac = ''00:00:00:00:00:00''"

definition isMulticastMac :: "string \<Rightarrow> bool" where
  "isMulticastMac mac =
     (if length mac < 2 then False
      else (let (firstOctet, consumed) = strtol16 (c_str (take 2 mac))
            in if consumed = 2 then odd firstOctet else False))"

definition isIeeeReservedMac :: "string \<Rightarrow> bool" where
  "isIeeeReservedMac mac = starts_with mac ''01:80:c2''"

definition isMulticastIPv4 :: "(string \<Rightarrow> 32 word option) \<Rightarrow> string \<Rightarrow> bool" where
  "isMulticastIPv4 pton ip =
     (case pton (c_str ip) of Some n \<Rightarrow> 0xE0000000 \<le> n \<and> n \<le> 0xEFFFFFFF | None \<Rightarrow> False)"

definition isMulticastIPv6 :: "string \<Rightarrow> bool" where
  "isMulticastIPv6 ip = starts_with ip ''ff''"

definition passes_neighbor ::
  "(string \<Rightarrow> 32 word option) \<Rightarrow> model_config \<Rightarrow> neighbor_observation \<Rightarrow> bool \<Rightarrow> bool \<Rightarrow> bool" where
  "passes_neighbor pton cfg obs isLocalMac isLocalIp =
     (if mc_skipNullMac cfg \<and> isNullMac (no_mac obs) then False
      else if mc_skipLoopbackInterface cfg \<and> no_ifname obs = ''lo'' then False
      else if mc_skipMulticastIPv4 cfg \<and> isMulticastIPv4 pton (no_ip obs) then False
      else if mc_skipMulticastIPv6 cfg \<and> isMulticastIPv6 (no_ip obs) then False
      else if mc_skipMulticastMac cfg \<and> isMulticastMac (no_mac obs) then False
      else if mc_skipIeeeReservedMac cfg \<and> isIeeeReservedMac (no_mac obs) then False
      else if isLocalMac then False
      else if isLocalIp then False
      else True)"

definition passes_fdb :: "model_config \<Rightarrow> fdb_observation \<Rightarrow> bool \<Rightarrow> bool" where
  "passes_fdb cfg obs isLocalMac =
     (if mc_skipNullMac cfg \<and> isNullMac (fo_mac obs) then False
      else if mc_skipMulticastMac cfg \<and> isMulticastMac (fo_mac obs) then False
      else if mc_skipIeeeReservedMac cfg \<and> isIeeeReservedMac (fo_mac obs) then False
      else if isLocalMac then False
      else if fo_entryKind obs = Local \<or> fo_entryKind obs = ControlPlane then False
      else True)"


section \<open>Facts about the filter\<close>

lemma passes_neighbor_not_local:
  "passes_neighbor pton cfg obs lm li \<Longrightarrow> \<not> lm \<and> \<not> li"
  by (auto simp: passes_neighbor_def split: if_splits)

lemma passes_fdb_not_local:
  "passes_fdb cfg obs lm \<Longrightarrow> \<not> lm \<and> fo_entryKind obs \<notin> {Local, ControlPlane}"
  by (auto simp: passes_fdb_def split: if_splits)

lemma is_xdigit_not_space: "is_xdigit c \<Longrightarrow> \<not> is_space c \<and> c \<noteq> CHR ''-'' \<and> c \<noteq> CHR ''+'' \<and> c \<noteq> CHR 0x00"
  by (auto simp: is_xdigit_def is_space_def Let_def)

text \<open>On two hexadecimal digits the test is the low bit of the second digit.\<close>

lemma isMulticastMac_hex:
  assumes "is_xdigit a" "is_xdigit b"
  shows "isMulticastMac (a # b # rest) = odd (xdigit_value b)"
proof -
  have "strtol16 [a, b] = (xdigit_value a * 16 + xdigit_value b, 2)"
    using assms is_xdigit_not_space[of a]
    by (simp add: strtol16_def hex_prefix_length_def Let_def)
  moreover have "c_str [a, b] = [a, b]"
    using assms is_xdigit_not_space by (auto simp: c_str_def)
  ultimately show ?thesis by (simp add: isMulticastMac_def)
qed

lemma isIeeeReserved_multicast: "isIeeeReservedMac mac \<Longrightarrow> isMulticastMac mac"
proof -
  assume "isIeeeReservedMac mac"
  then have "take (length ''01:80:c2'') mac = ''01:80:c2''"
    unfolding isIeeeReservedMac_def starts_with_def .
  then obtain rest where "mac = CHR ''0'' # CHR ''1'' # rest"
    by (metis append_Cons append_take_drop_id)
  then show ?thesis
    by (simp add: isMulticastMac_hex is_xdigit_def xdigit_value_def to_lower_def)
qed

lemma default_lldp_included:
  "default_allowLldpEvidence ifname \<Longrightarrow> \<not> isExcluded ifname"
  by (auto simp: default_allowLldpEvidence_def split: if_splits)

end
