(* ===== verification/Local_State.thy ===== *)
theory Local_State
  imports Observation_Types
begin

text \<open>
  \<open>core/engine/LocalStateTracker\<close>: the interfaces of the host and reference counts for the MAC and
  IP addresses they own. A method that returns \<open>bool\<close> and mutates the tracker is a function to the
  new tracker and the result. The range loops over an interface's address sets visit them in
  order. Reference counts are integers: they are bounded by the number of stored addresses.

  The two counters share one contract, the locale \<open>ref_counter\<close>, interpreted on the MAC and on the
  IP operations. The invariant \<open>tracker_ok\<close> says that every count is the number of owners in the
  interface table and that \<open>localMacs\<close> and \<open>localIps\<close> are exactly the counted addresses.
\<close>

definition extractIpFromCidr :: "string \<Rightarrow> string" where
  "extractIpFromCidr cidr =
     (if CHR ''/'' \<in> set cidr then takeWhile (\<lambda>c. c \<noteq> CHR ''/'') cidr else [])"

record local_network_snapshot =
  ls_interfaces :: "local_interface_state umap"
  ls_localMacs :: "string set"
  ls_localIps :: "string set"

record local_state_tracker =
  lt_snapshot :: local_network_snapshot
  lt_localMacRefcount :: "int umap"
  lt_localIpRefcount :: "int umap"

definition empty_snapshot :: local_network_snapshot where
  "empty_snapshot = \<lparr>ls_interfaces = [], ls_localMacs = {}, ls_localIps = {}\<rparr>"

definition new_tracker :: local_state_tracker where
  "new_tracker = \<lparr>lt_snapshot = empty_snapshot, lt_localMacRefcount = [], lt_localIpRefcount = []\<rparr>"

definition lookup_count :: "int umap \<Rightarrow> string \<Rightarrow> int" where
  "lookup_count m k = (case map_of m k of Some n \<Rightarrow> n | None \<Rightarrow> 0)"

definition incrementMac :: "string \<Rightarrow> local_state_tracker \<Rightarrow> local_state_tracker" where
  "incrementMac mac t =
     (if mac = [] then t
      else (let n = lookup_count (lt_localMacRefcount t) mac + 1;
                t1 = t\<lparr>lt_localMacRefcount := AList.update mac n (lt_localMacRefcount t)\<rparr>;
                s = lt_snapshot t1
            in if n = 1 then t1\<lparr>lt_snapshot := s\<lparr>ls_localMacs := insert mac (ls_localMacs s)\<rparr>\<rparr> else t1))"

definition decrementMac :: "string \<Rightarrow> local_state_tracker \<Rightarrow> local_state_tracker" where
  "decrementMac mac t =
     (if mac = [] then t
      else (case map_of (lt_localMacRefcount t) mac of
              None \<Rightarrow> t
            | Some n \<Rightarrow>
                (let s = lt_snapshot t
                 in if n - 1 = 0
                    then t\<lparr>lt_localMacRefcount := AList.delete mac (lt_localMacRefcount t),
                           lt_snapshot := s\<lparr>ls_localMacs := ls_localMacs s - {mac}\<rparr>\<rparr>
                    else t\<lparr>lt_localMacRefcount := AList.update mac (n - 1) (lt_localMacRefcount t)\<rparr>)))"

definition incrementIp :: "string \<Rightarrow> local_state_tracker \<Rightarrow> local_state_tracker" where
  "incrementIp ip t =
     (let n = lookup_count (lt_localIpRefcount t) ip + 1;
          t1 = t\<lparr>lt_localIpRefcount := AList.update ip n (lt_localIpRefcount t)\<rparr>;
          s = lt_snapshot t1
      in if n = 1 then t1\<lparr>lt_snapshot := s\<lparr>ls_localIps := insert ip (ls_localIps s)\<rparr>\<rparr> else t1)"

definition decrementIp :: "string \<Rightarrow> local_state_tracker \<Rightarrow> local_state_tracker" where
  "decrementIp ip t =
     (case map_of (lt_localIpRefcount t) ip of
        None \<Rightarrow> t
      | Some n \<Rightarrow>
          (let s = lt_snapshot t
           in if n - 1 = 0
              then t\<lparr>lt_localIpRefcount := AList.delete ip (lt_localIpRefcount t),
                     lt_snapshot := s\<lparr>ls_localIps := ls_localIps s - {ip}\<rparr>\<rparr>
              else t\<lparr>lt_localIpRefcount := AList.update ip (n - 1) (lt_localIpRefcount t)\<rparr>))"

definition decrementCidr :: "string \<Rightarrow> local_state_tracker \<Rightarrow> local_state_tracker" where
  "decrementCidr cidr t =
     (let ip = extractIpFromCidr cidr in if ip \<noteq> [] then decrementIp ip t else t)"

definition set_interfaces :: "local_interface_state umap \<Rightarrow> local_state_tracker \<Rightarrow> local_state_tracker" where
  "set_interfaces m t = t\<lparr>lt_snapshot := (lt_snapshot t)\<lparr>ls_interfaces := m\<rparr>\<rparr>"

abbreviation lt_interfaces :: "local_state_tracker \<Rightarrow> local_interface_state umap" where
  "lt_interfaces t \<equiv> ls_interfaces (lt_snapshot t)"

definition interface_or_default :: "string \<Rightarrow> local_state_tracker \<Rightarrow> local_interface_state" where
  "interface_or_default ifname t =
     (case map_of (lt_interfaces t) ifname of Some i \<Rightarrow> i | None \<Rightarrow> empty_interface)"

definition tracker_onLinkObservation ::
  "link_observation \<Rightarrow> local_state_tracker \<Rightarrow> local_state_tracker \<times> bool" where
  "tracker_onLinkObservation obs t =
     (if lo_event obs = RemovedObs then
        (case map_of (lt_interfaces t) (lo_ifname obs) of
           Some i \<Rightarrow>
             (let t1 = decrementMac (li_mac i) t;
                  t2 = fold decrementCidr (sorted_list_of_set (li_ipv4 i)) t1;
                  t3 = fold decrementCidr (sorted_list_of_set (li_ipv6 i)) t2
              in (set_interfaces (AList.delete (lo_ifname obs) (lt_interfaces t3)) t3, True))
         | None \<Rightarrow> (t, False))
      else
        (let iface = interface_or_default (lo_ifname obs) t;
             isNew = (li_ifname iface = []);
             oldMac = li_mac iface;
             iface1 = iface\<lparr>li_ifindex := lo_ifindex obs, li_ifname := lo_ifname obs,
                            li_adminUp := lo_adminUp obs, li_running := lo_running obs,
                            li_operstate := lo_operstate obs, li_masterIfname := lo_masterIfname obs\<rparr>;
             (iface2, t2) =
               (if isNew then (iface1\<lparr>li_mac := lo_mac obs\<rparr>, incrementMac (lo_mac obs) t)
                else if oldMac \<noteq> lo_mac obs then
                  (iface1\<lparr>li_mac := lo_mac obs\<rparr>, incrementMac (lo_mac obs) (decrementMac oldMac t))
                else (iface1, t))
         in (set_interfaces (AList.update (lo_ifname obs) iface2 (lt_interfaces t2)) t2,
             oldMac \<noteq> lo_mac obs)))"

definition tracker_onAddressObservation ::
  "address_observation \<Rightarrow> local_state_tracker \<Rightarrow> local_state_tracker \<times> bool" where
  "tracker_onAddressObservation obs t0 =
     (let iface = interface_or_default (ao_ifname obs) t0;
          t = set_interfaces (AList.update (ao_ifname obs) iface (lt_interfaces t0)) t0;
          store = (\<lambda>i. set_interfaces (AList.update (ao_ifname obs) i (lt_interfaces t)) t);
          ip = extractIpFromCidr (ao_cidr obs)
      in if ip = [] then (t, False)
         else if ao_event obs = Present then
           (if ao_family obs = AF_INET then
              (if ao_cidr obs \<notin> li_ipv4 iface
               then (incrementIp ip (store (iface\<lparr>li_ipv4 := insert (ao_cidr obs) (li_ipv4 iface)\<rparr>)), True)
               else (t, False))
            else
              (if ao_cidr obs \<notin> li_ipv6 iface
               then (incrementIp ip (store (iface\<lparr>li_ipv6 := insert (ao_cidr obs) (li_ipv6 iface)\<rparr>)), True)
               else (t, False)))
         else
           (if ao_family obs = AF_INET then
              (if ao_cidr obs \<in> li_ipv4 iface
               then (decrementIp ip (store (iface\<lparr>li_ipv4 := li_ipv4 iface - {ao_cidr obs}\<rparr>)), True)
               else (t, False))
            else
              (if ao_cidr obs \<in> li_ipv6 iface
               then (decrementIp ip (store (iface\<lparr>li_ipv6 := li_ipv6 iface - {ao_cidr obs}\<rparr>)), True)
               else (t, False))))"

definition isLocalMac :: "string \<Rightarrow> local_state_tracker \<Rightarrow> bool" where
  "isLocalMac mac t \<longleftrightarrow> mac \<in> ls_localMacs (lt_snapshot t)"

definition isLocalIp :: "string \<Rightarrow> local_state_tracker \<Rightarrow> bool" where
  "isLocalIp ip t \<longleftrightarrow> ip \<in> ls_localIps (lt_snapshot t)"

definition tracker_clear :: "local_state_tracker \<Rightarrow> local_state_tracker" where
  "tracker_clear t =
     t\<lparr>lt_snapshot := empty_snapshot, lt_localMacRefcount := [], lt_localIpRefcount := []\<rparr>"


section \<open>The contract shared by the two reference counters\<close>

locale ref_counter =
  fixes cnt :: "'t \<Rightarrow> string \<Rightarrow> int"
    and members :: "'t \<Rightarrow> string set"
    and inc :: "string \<Rightarrow> 't \<Rightarrow> 't"
    and dec :: "string \<Rightarrow> 't \<Rightarrow> 't"
    and counted :: "string \<Rightarrow> bool"
    and ok :: "'t \<Rightarrow> bool"
  assumes ok_inc: "ok t \<Longrightarrow> ok (inc k t)"
    and ok_dec: "ok t \<Longrightarrow> ok (dec k t)"
    and cnt_inc: "ok t \<Longrightarrow> cnt (inc k t) j = cnt t j + (if j = k \<and> counted k then 1 else 0)"
    and cnt_dec: "ok t \<Longrightarrow> cnt (dec k t) j = (if j = k then max 0 (cnt t j - 1) else cnt t j)"
    and members_cnt: "ok t \<Longrightarrow> j \<in> members t \<longleftrightarrow> 0 < cnt t j"
    and cnt_nonneg: "ok t \<Longrightarrow> 0 \<le> cnt t j"
begin

lemma ok_fold_dec: "ok t \<Longrightarrow> ok (fold dec ks t)"
  by (induction ks arbitrary: t) (simp_all add: ok_dec)

lemma cnt_fold_dec:
  "ok t \<Longrightarrow> cnt (fold dec ks t) j = max 0 (cnt t j - int (count_list ks j))"
proof (induction ks arbitrary: t)
  case Nil
  then show ?case using cnt_nonneg[of t j] by simp
next
  case (Cons k ks)
  then show ?case by (auto simp: ok_dec cnt_dec)
qed

lemma members_inc: "ok t \<Longrightarrow> counted k \<Longrightarrow> k \<in> members (inc k t)"
  using cnt_nonneg[of t k] by (simp add: members_cnt ok_inc cnt_inc)

lemma cnt_dec_inc: "ok t \<Longrightarrow> counted k \<Longrightarrow> cnt (dec k (inc k t)) j = cnt t j"
  using cnt_nonneg[of t k] by (auto simp: ok_inc cnt_inc cnt_dec)

end

definition counts_ok :: "int umap \<Rightarrow> string set \<Rightarrow> bool" where
  "counts_ok m s \<longleftrightarrow> distinct_keys m \<and> s = dom (map_of m) \<and> (\<forall>k n. map_of m k = Some n \<longrightarrow> 0 < n)"

definition mac_counts_ok :: "local_state_tracker \<Rightarrow> bool" where
  "mac_counts_ok t \<longleftrightarrow> counts_ok (lt_localMacRefcount t) (ls_localMacs (lt_snapshot t))
     \<and> [] \<notin> ls_localMacs (lt_snapshot t)"

definition ip_counts_ok :: "local_state_tracker \<Rightarrow> bool" where
  "ip_counts_ok t \<longleftrightarrow> counts_ok (lt_localIpRefcount t) (ls_localIps (lt_snapshot t))"

abbreviation mac_count :: "local_state_tracker \<Rightarrow> string \<Rightarrow> int" where
  "mac_count t \<equiv> lookup_count (lt_localMacRefcount t)"

abbreviation ip_count :: "local_state_tracker \<Rightarrow> string \<Rightarrow> int" where
  "ip_count t \<equiv> lookup_count (lt_localIpRefcount t)"

lemma lookup_count_update [simp]:
  "lookup_count (AList.update k n m) j = (if j = k then n else lookup_count m j)"
  by (simp add: lookup_count_def)

lemma lookup_count_delete [simp]:
  "lookup_count (AList.delete k m) j = (if j = k then 0 else lookup_count m j)"
  by (simp add: lookup_count_def)

lemma lookup_count_Some [simp]: "map_of m k = Some n \<Longrightarrow> lookup_count m k = n"
  by (simp add: lookup_count_def)

lemma lookup_count_None [simp]: "map_of m k = None \<Longrightarrow> lookup_count m k = 0"
  by (simp add: lookup_count_def)

lemma counts_ok_pos: "counts_ok m s \<Longrightarrow> k \<in> s \<longleftrightarrow> 0 < lookup_count m k"
  by (cases "map_of m k") (auto simp: counts_ok_def)

lemma counts_ok_nonneg: "counts_ok m s \<Longrightarrow> 0 \<le> lookup_count m k"
  by (cases "map_of m k") (auto simp: counts_ok_def intro: less_imp_le)

lemma counts_ok_update:
  "counts_ok m s \<Longrightarrow> 0 < n \<Longrightarrow> counts_ok (AList.update k n m) (insert k s)"
  by (simp add: counts_ok_def distinct_update)

lemma counts_ok_delete: "counts_ok m s \<Longrightarrow> counts_ok (AList.delete k m) (s - {k})"
  by (auto simp: counts_ok_def distinct_delete)

lemma counts_ok_update_old:
  assumes "counts_ok m s" "map_of m k = Some n" "0 < n'"
  shows "counts_ok (AList.update k n' m) s"
proof -
  have "insert k s = s" using assms(1,2) by (auto simp: counts_ok_def)
  with counts_ok_update[OF assms(1,3), of k] show ?thesis by simp
qed

lemma counts_ok_inc:
  assumes "counts_ok m s"
  shows "counts_ok (AList.update k (lookup_count m k + 1) m)
           (if lookup_count m k + 1 = 1 then insert k s else s)"
proof (cases "map_of m k")
  case None
  then show ?thesis using counts_ok_update[OF assms, of 1 k] by simp
next
  case (Some n)
  then have "0 < n" using assms by (simp add: counts_ok_def)
  with Some show ?thesis using counts_ok_update_old[OF assms Some, of "n + 1"] by simp
qed

lemma counts_ok_dec:
  assumes "counts_ok m s" "map_of m k = Some n" "n \<noteq> 1"
  shows "counts_ok (AList.update k (n - 1) m) s"
proof -
  have "0 < n" using assms(1,2) by (simp add: counts_ok_def)
  with assms(3) show ?thesis using counts_ok_update_old[OF assms(1,2), of "n - 1"] by simp
qed

interpretation mac_counter: ref_counter mac_count "\<lambda>t. ls_localMacs (lt_snapshot t)"
  incrementMac decrementMac "\<lambda>k. k \<noteq> []" mac_counts_ok
proof unfold_locales
  fix t k j
  assume ok: "mac_counts_ok t"
  then have c: "counts_ok (lt_localMacRefcount t) (ls_localMacs (lt_snapshot t))"
    and e: "[] \<notin> ls_localMacs (lt_snapshot t)"
    by (simp_all add: mac_counts_ok_def)
  show "mac_counts_ok (incrementMac k t)"
    using counts_ok_inc[OF c, of k] ok e
    by (auto simp: incrementMac_def mac_counts_ok_def Let_def)
  show "mac_counts_ok (decrementMac k t)"
    using counts_ok_dec[OF c, of k] counts_ok_delete[OF c, of k] ok e
    by (auto simp: decrementMac_def mac_counts_ok_def Let_def split: option.split)
  show "mac_count (incrementMac k t) j = mac_count t j + (if j = k \<and> k \<noteq> [] then 1 else 0)"
    by (simp add: incrementMac_def Let_def)
  have z: "mac_count t [] = 0"
    using e counts_ok_pos[OF c, of "[]"] counts_ok_nonneg[OF c, of "[]"] by simp
  show "mac_count (decrementMac k t) j = (if j = k then max 0 (mac_count t j - 1) else mac_count t j)"
    using z c by (auto simp: decrementMac_def Let_def counts_ok_def split: option.split)
  show "j \<in> ls_localMacs (lt_snapshot t) \<longleftrightarrow> 0 < mac_count t j"
    by (rule counts_ok_pos[OF c])
  show "0 \<le> mac_count t j" by (rule counts_ok_nonneg[OF c])
qed

interpretation ip_counter: ref_counter ip_count "\<lambda>t. ls_localIps (lt_snapshot t)"
  incrementIp decrementIp "\<lambda>_. True" ip_counts_ok
proof unfold_locales
  fix t k j
  assume "ip_counts_ok t"
  then have c: "counts_ok (lt_localIpRefcount t) (ls_localIps (lt_snapshot t))"
    by (simp add: ip_counts_ok_def)
  show "ip_counts_ok (incrementIp k t)"
    using counts_ok_inc[OF c, of k] by (auto simp: incrementIp_def ip_counts_ok_def Let_def)
  show "ip_counts_ok (decrementIp k t)"
    using counts_ok_dec[OF c, of k] counts_ok_delete[OF c, of k] c
    by (auto simp: decrementIp_def ip_counts_ok_def Let_def split: option.split)
  show "ip_count (incrementIp k t) j = ip_count t j + (if j = k \<and> True then 1 else 0)"
    by (simp add: incrementIp_def Let_def)
  show "ip_count (decrementIp k t) j = (if j = k then max 0 (ip_count t j - 1) else ip_count t j)"
    using c by (auto simp: decrementIp_def Let_def counts_ok_def split: option.split)
  show "j \<in> ls_localIps (lt_snapshot t) \<longleftrightarrow> 0 < ip_count t j"
    by (rule counts_ok_pos[OF c])
  show "0 \<le> ip_count t j" by (rule counts_ok_nonneg[OF c])
qed


section \<open>Frame facts\<close>

lemma mac_ops_frame [frame_simps]:
  "lt_interfaces (incrementMac k t) = lt_interfaces t"
  "lt_interfaces (decrementMac k t) = lt_interfaces t"
  "lt_localIpRefcount (incrementMac k t) = lt_localIpRefcount t"
  "lt_localIpRefcount (decrementMac k t) = lt_localIpRefcount t"
  "ls_localIps (lt_snapshot (incrementMac k t)) = ls_localIps (lt_snapshot t)"
  "ls_localIps (lt_snapshot (decrementMac k t)) = ls_localIps (lt_snapshot t)"
  by (simp_all add: incrementMac_def decrementMac_def Let_def split: option.split)

lemma ip_ops_frame [frame_simps]:
  "lt_interfaces (incrementIp k t) = lt_interfaces t"
  "lt_interfaces (decrementIp k t) = lt_interfaces t"
  "lt_localMacRefcount (incrementIp k t) = lt_localMacRefcount t"
  "lt_localMacRefcount (decrementIp k t) = lt_localMacRefcount t"
  "ls_localMacs (lt_snapshot (incrementIp k t)) = ls_localMacs (lt_snapshot t)"
  "ls_localMacs (lt_snapshot (decrementIp k t)) = ls_localMacs (lt_snapshot t)"
  by (simp_all add: incrementIp_def decrementIp_def Let_def split: option.split)

lemma set_interfaces_frame [frame_simps]:
  "lt_interfaces (set_interfaces m t) = m"
  "lt_localMacRefcount (set_interfaces m t) = lt_localMacRefcount t"
  "lt_localIpRefcount (set_interfaces m t) = lt_localIpRefcount t"
  "ls_localMacs (lt_snapshot (set_interfaces m t)) = ls_localMacs (lt_snapshot t)"
  "ls_localIps (lt_snapshot (set_interfaces m t)) = ls_localIps (lt_snapshot t)"
  by (simp_all add: set_interfaces_def)

lemma counts_ok_frame [frame_simps]:
  "ip_counts_ok (incrementMac k t) = ip_counts_ok t"
  "ip_counts_ok (decrementMac k t) = ip_counts_ok t"
  "mac_counts_ok (incrementIp k t) = mac_counts_ok t"
  "mac_counts_ok (decrementIp k t) = mac_counts_ok t"
  "mac_counts_ok (set_interfaces m t) = mac_counts_ok t"
  "ip_counts_ok (set_interfaces m t) = ip_counts_ok t"
  by (simp_all add: ip_counts_ok_def mac_counts_ok_def frame_simps)


section \<open>The invariant: counts are owners\<close>

definition cidrs_with :: "string \<Rightarrow> string set \<Rightarrow> nat" where
  "cidrs_with ip S = card {c \<in> S. extractIpFromCidr c = ip}"

definition mac_weight :: "string \<Rightarrow> local_interface_state \<Rightarrow> nat" where
  "mac_weight m i = (if li_mac i = m then 1 else 0)"

definition ip_weight :: "string \<Rightarrow> local_interface_state \<Rightarrow> nat" where
  "ip_weight ip i = cidrs_with ip (li_ipv4 i) + cidrs_with ip (li_ipv6 i)"

definition interface_ok :: "string \<Rightarrow> local_interface_state \<Rightarrow> bool" where
  "interface_ok k i \<longleftrightarrow>
     finite (li_ipv4 i) \<and> finite (li_ipv6 i) \<and>
     (\<forall>c \<in> li_ipv4 i \<union> li_ipv6 i. extractIpFromCidr c \<noteq> []) \<and>
     (li_ifname i = k \<or> (li_ifname i = [] \<and> li_mac i = []))"

definition interfaces_ok :: "local_interface_state umap \<Rightarrow> bool" where
  "interfaces_ok m \<longleftrightarrow> distinct_keys m \<and> (\<forall>k i. map_of m k = Some i \<longrightarrow> interface_ok k i)
     \<and> (\<forall>i. map_of m [] = Some i \<longrightarrow> li_mac i = [])"

definition tracker_ok :: "local_state_tracker \<Rightarrow> bool" where
  "tracker_ok t \<longleftrightarrow>
     interfaces_ok (lt_interfaces t) \<and> mac_counts_ok t \<and> ip_counts_ok t \<and>
     (\<forall>m. m \<noteq> [] \<longrightarrow> mac_count t m = int (amount (mac_weight m) (lt_interfaces t))) \<and>
     (\<forall>ip. ip_count t ip = int (amount (ip_weight ip) (lt_interfaces t)))"

lemma tracker_okI:
  assumes "interfaces_ok (lt_interfaces t)" "mac_counts_ok t" "ip_counts_ok t"
    "\<And>m. m \<noteq> [] \<Longrightarrow> mac_count t m = int (amount (mac_weight m) (lt_interfaces t))"
    "\<And>ip. ip_count t ip = int (amount (ip_weight ip) (lt_interfaces t))"
  shows "tracker_ok t"
  using assms by (simp add: tracker_ok_def)

lemma tracker_okD:
  assumes "tracker_ok t"
  shows "interfaces_ok (lt_interfaces t)" "mac_counts_ok t" "ip_counts_ok t"
    "m \<noteq> [] \<Longrightarrow> mac_count t m = int (amount (mac_weight m) (lt_interfaces t))"
    "ip_count t ip = int (amount (ip_weight ip) (lt_interfaces t))"
  using assms by (simp_all add: tracker_ok_def)

lemma interfaces_okD:
  assumes "interfaces_ok m"
  shows "distinct_keys m" "map_of m k = Some i \<Longrightarrow> interface_ok k i"
  using assms by (simp_all add: interfaces_ok_def)

lemma interfaces_ok_update:
  assumes "interfaces_ok m" "interface_ok k i" "k = [] \<Longrightarrow> li_mac i = []"
  shows "interfaces_ok (AList.update k i m)"
  using assms by (auto simp: interfaces_ok_def distinct_update)

lemma interfaces_ok_delete: "interfaces_ok m \<Longrightarrow> interfaces_ok (AList.delete k m)"
  by (auto simp: interfaces_ok_def distinct_delete)

lemma interface_ok_default: "interface_ok k empty_interface"
  by (simp add: interface_ok_def empty_interface_def)

lemma interface_or_default_ok:
  "interfaces_ok (lt_interfaces t) \<Longrightarrow> interface_ok k (interface_or_default k t)"
  by (auto simp: interface_or_default_def interfaces_ok_def interface_ok_default split: option.split)

lemma weights_default [simp]:
  "m \<noteq> [] \<Longrightarrow> mac_weight m empty_interface = 0" "ip_weight ip empty_interface = 0"
  by (simp_all add: mac_weight_def ip_weight_def cidrs_with_def empty_interface_def)

text \<open>Storing an interface changes each count by the difference of the two weights.\<close>

lemma amount_store:
  assumes "interfaces_ok (lt_interfaces t)" "f empty_interface = 0"
  shows "amount f (AList.update k i (lt_interfaces t)) + f (interface_or_default k t)
         = amount f (lt_interfaces t) + f i"
  using amount_update[of "lt_interfaces t" f k i] interfaces_okD(1)[OF assms(1)] assms(2)
  by (cases "map_of (lt_interfaces t) k") (simp_all add: interface_or_default_def)

lemma amount_erase:
  assumes "interfaces_ok (lt_interfaces t)" "map_of (lt_interfaces t) k = Some i"
  shows "amount f (AList.delete k (lt_interfaces t)) + f i = amount f (lt_interfaces t)"
  using amount_delete[of "lt_interfaces t" f k] interfaces_okD(1)[OF assms(1)] assms(2) by simp

lemma cidrs_with_insert:
  "finite S \<Longrightarrow> c \<notin> S \<Longrightarrow>
   cidrs_with ip (insert c S) = cidrs_with ip S + (if extractIpFromCidr c = ip then 1 else 0)"
proof -
  assume S: "finite S" "c \<notin> S"
  have "{x \<in> insert c S. extractIpFromCidr x = ip} =
    (if extractIpFromCidr c = ip then insert c {x \<in> S. extractIpFromCidr x = ip}
     else {x \<in> S. extractIpFromCidr x = ip})" by auto
  then show ?thesis using S by (simp add: cidrs_with_def)
qed

lemma cidrs_with_remove:
  "finite S \<Longrightarrow> c \<in> S \<Longrightarrow>
   cidrs_with ip (S - {c}) + (if extractIpFromCidr c = ip then 1 else 0) = cidrs_with ip S"
  using cidrs_with_insert[of "S - {c}" c ip] by (simp add: insert_absorb)

lemma count_list_cidrs:
  "finite S \<Longrightarrow> count_list (map extractIpFromCidr (sorted_list_of_set S)) ip = cidrs_with ip S"
proof -
  assume f: "finite S"
  have "count_list (map extractIpFromCidr (sorted_list_of_set S)) ip
      = length (filter (\<lambda>c. extractIpFromCidr c = ip) (sorted_list_of_set S))"
    by (simp add: count_list_eq_length_filter filter_map o_def eq_commute)
  also have "\<dots> = card (set (filter (\<lambda>c. extractIpFromCidr c = ip) (sorted_list_of_set S)))"
    using distinct_card[of "filter (\<lambda>c. extractIpFromCidr c = ip) (sorted_list_of_set S)"] by simp
  finally show ?thesis using f by (simp add: cidrs_with_def)
qed

lemma fold_decrementCidr:
  "\<forall>c \<in> set cs. extractIpFromCidr c \<noteq> [] \<Longrightarrow>
   fold decrementCidr cs t = fold decrementIp (map extractIpFromCidr cs) t"
  by (induction cs arbitrary: t) (simp_all add: decrementCidr_def Let_def)

lemma fold_decrementIp_frame [frame_simps]:
  "lt_interfaces (fold decrementIp ks t) = lt_interfaces t"
  "lt_localMacRefcount (fold decrementIp ks t) = lt_localMacRefcount t"
  "mac_counts_ok (fold decrementIp ks t) = mac_counts_ok t"
  by (induction ks arbitrary: t) (simp_all add: frame_simps)


section \<open>Every operation keeps the invariant\<close>

lemma new_tracker_ok: "tracker_ok new_tracker"
  by (simp add: tracker_ok_def new_tracker_def empty_snapshot_def interfaces_ok_def mac_counts_ok_def
      ip_counts_ok_def counts_ok_def lookup_count_def)

lemma tracker_clear_new: "tracker_clear t = new_tracker"
  by (simp add: tracker_clear_def new_tracker_def)

lemma mac_owner_counted:
  assumes "tracker_ok t" "map_of (lt_interfaces t) k = Some i" "li_mac i \<noteq> []"
  shows "1 \<le> mac_count t (li_mac i)"
proof -
  have "1 \<le> amount (mac_weight (li_mac i)) (lt_interfaces t)"
    using amount_ge[OF map_of_SomeD[OF assms(2)], of "mac_weight (li_mac i)"]
    by (simp add: mac_weight_def)
  then show ?thesis using tracker_okD(4)[OF assms(1,3)] by simp
qed

text \<open>Erasing an interface after releasing the MAC and all addresses it owns.\<close>

lemma erase_interface_ok:
  assumes ok: "tracker_ok t" and i: "map_of (lt_interfaces t) k = Some i"
    and t3: "t3 = fold decrementIp (ips4 @ ips6) (decrementMac (li_mac i) t)"
    and ips: "\<And>ip. count_list (ips4 @ ips6) ip = ip_weight ip i"
  shows "tracker_ok (set_interfaces (AList.delete k (lt_interfaces t3)) t3)"
proof (rule tracker_okI)
  note D = tracker_okD[OF ok]
  have same: "lt_interfaces t3 = lt_interfaces t" by (simp add: t3 frame_simps)
  let ?t = "set_interfaces (AList.delete k (lt_interfaces t3)) t3"
  show "interfaces_ok (lt_interfaces ?t)"
    using D(1) by (simp add: frame_simps same interfaces_ok_delete)
  show "mac_counts_ok ?t" by (simp add: t3 frame_simps mac_counter.ok_dec D(2) del: fold_append)
  have ok1: "ip_counts_ok (decrementMac (li_mac i) t)" by (simp add: frame_simps D(3))
  then show "ip_counts_ok ?t"
    by (simp add: t3 frame_simps ip_counter.ok_fold_dec del: fold_append)
  show "mac_count ?t m = int (amount (mac_weight m) (lt_interfaces ?t))" if m: "m \<noteq> []" for m
  proof -
    have am: "amount (mac_weight m) (AList.delete k (lt_interfaces t)) + mac_weight m i
        = amount (mac_weight m) (lt_interfaces t)" by (rule amount_erase[OF D(1) i])
    have "mac_count ?t m = mac_count (decrementMac (li_mac i) t) m"
      by (simp add: t3 frame_simps del: fold_append)
    also have "\<dots> = mac_count t m - int (mac_weight m i)"
      using mac_owner_counted[OF ok i] m by (auto simp: mac_counter.cnt_dec D(2) mac_weight_def)
    finally show ?thesis using am D(4)[OF m] by (simp add: frame_simps same)
  qed
  show "ip_count ?t ip = int (amount (ip_weight ip) (lt_interfaces ?t))" for ip
  proof -
    have am: "amount (ip_weight ip) (AList.delete k (lt_interfaces t)) + ip_weight ip i
        = amount (ip_weight ip) (lt_interfaces t)" by (rule amount_erase[OF D(1) i])
    have "ip_count ?t ip = max 0 (ip_count t ip - int (ip_weight ip i))"
      using ip_counter.cnt_fold_dec[OF ok1, of "ips4 @ ips6" ip] ips
      by (simp add: t3 frame_simps del: fold_append count_list_append)
    then show ?thesis using am D(5)[of ip] by (simp add: frame_simps same)
  qed
qed

text \<open>Storing an interface after the counters have been moved by the difference of the weights.\<close>

lemma store_interface_ok:
  assumes ok: "tracker_ok t" and t2: "lt_interfaces t2 = lt_interfaces t" "mac_counts_ok t2" "ip_counts_ok t2"
    and i: "interface_ok k i" "k = [] \<Longrightarrow> li_mac i = []"
    and mac: "\<And>m. m \<noteq> [] \<Longrightarrow>
        mac_count t2 m + int (mac_weight m (interface_or_default k t)) = mac_count t m + int (mac_weight m i)"
    and ip: "\<And>a. ip_count t2 a + int (ip_weight a (interface_or_default k t)) = ip_count t a + int (ip_weight a i)"
  shows "tracker_ok (set_interfaces (AList.update k i (lt_interfaces t2)) t2)"
proof (rule tracker_okI)
  note D = tracker_okD[OF ok]
  let ?t = "set_interfaces (AList.update k i (lt_interfaces t2)) t2"
  show "interfaces_ok (lt_interfaces ?t)"
    using D(1) i by (simp add: frame_simps t2 interfaces_ok_update)
  show "mac_counts_ok ?t" "ip_counts_ok ?t" by (simp_all add: frame_simps t2)
  show "mac_count ?t m = int (amount (mac_weight m) (lt_interfaces ?t))" if m: "m \<noteq> []" for m
    using amount_store[OF D(1), of "mac_weight m" k i] mac[OF m] D(4)[OF m] m
    by (simp add: frame_simps t2)
  show "ip_count ?t a = int (amount (ip_weight a) (lt_interfaces ?t))" for a
    using amount_store[OF D(1), of "ip_weight a" k i] ip[of a] D(5)[of a]
    by (simp add: frame_simps t2)
qed

lemma link_removed_ok:
  assumes ok: "tracker_ok t" and ev: "lo_event obs = RemovedObs"
  shows "tracker_ok (fst (tracker_onLinkObservation obs t))"
proof (cases "map_of (lt_interfaces t) (lo_ifname obs)")
  case None
  then show ?thesis using ok ev by (simp add: tracker_onLinkObservation_def)
next
  case (Some i)
  have io: "interface_ok (lo_ifname obs) i"
    by (rule interfaces_okD(2)[OF tracker_okD(1)[OF ok] Some])
  let ?l4 = "map extractIpFromCidr (sorted_list_of_set (li_ipv4 i))"
  let ?l6 = "map extractIpFromCidr (sorted_list_of_set (li_ipv6 i))"
  let ?t3 = "fold decrementIp (?l4 @ ?l6) (decrementMac (li_mac i) t)"
  have "fst (tracker_onLinkObservation obs t)
      = set_interfaces (AList.delete (lo_ifname obs) (lt_interfaces ?t3)) ?t3"
    using ev Some io
    by (simp add: tracker_onLinkObservation_def Let_def fold_decrementCidr interface_ok_def)
  moreover have "count_list (?l4 @ ?l6) ip = ip_weight ip i" for ip
    using io by (simp add: count_list_cidrs ip_weight_def interface_ok_def)
  ultimately show ?thesis using erase_interface_ok[OF ok Some refl, of ?l4 ?l6] by simp
qed

lemma interface_or_default_known:
  "li_ifname (interface_or_default k t) \<noteq> [] \<Longrightarrow>
   map_of (lt_interfaces t) k = Some (interface_or_default k t)"
  by (simp add: interface_or_default_def empty_interface_def split: option.splits)

definition link_stored :: "link_observation \<Rightarrow> local_interface_state \<Rightarrow> local_interface_state" where
  "link_stored obs i = i\<lparr>li_ifindex := lo_ifindex obs, li_ifname := lo_ifname obs,
     li_adminUp := lo_adminUp obs, li_running := lo_running obs, li_operstate := lo_operstate obs,
     li_masterIfname := lo_masterIfname obs, li_mac := lo_mac obs\<rparr>"

lemma link_stored_same_mac:
  "li_mac i = lo_mac obs \<Longrightarrow>
   link_stored obs i = i\<lparr>li_ifindex := lo_ifindex obs, li_ifname := lo_ifname obs,
     li_adminUp := lo_adminUp obs, li_running := lo_running obs, li_operstate := lo_operstate obs,
     li_masterIfname := lo_masterIfname obs\<rparr>"
  by (cases i) (simp add: link_stored_def)

definition link_counted :: "link_observation \<Rightarrow> local_state_tracker \<Rightarrow> local_state_tracker" where
  "link_counted obs t =
     (let i = interface_or_default (lo_ifname obs) t
      in if li_ifname i = [] then incrementMac (lo_mac obs) t
         else if li_mac i \<noteq> lo_mac obs then incrementMac (lo_mac obs) (decrementMac (li_mac i) t)
         else t)"

text \<open>The present branch stores the observed fields and moves the MAC counters.\<close>

lemma link_present_unfold:
  assumes "lo_event obs = Present"
  shows "tracker_onLinkObservation obs t =
    (set_interfaces (AList.update (lo_ifname obs) (link_stored obs (interface_or_default (lo_ifname obs) t))
        (lt_interfaces (link_counted obs t))) (link_counted obs t),
     li_mac (interface_or_default (lo_ifname obs) t) \<noteq> lo_mac obs)"
proof (cases "li_ifname (interface_or_default (lo_ifname obs) t) \<noteq> []
              \<and> li_mac (interface_or_default (lo_ifname obs) t) = lo_mac obs")
  case True
  then show ?thesis using assms
    by (simp add: tracker_onLinkObservation_def link_stored_same_mac link_counted_def)
next
  case False
  then show ?thesis using assms
    by (auto simp: tracker_onLinkObservation_def link_stored_def link_counted_def Let_def)
qed

lemma link_counted_frame [frame_simps]:
  "lt_interfaces (link_counted obs t) = lt_interfaces t"
  "ip_counts_ok (link_counted obs t) = ip_counts_ok t"
  "lt_localIpRefcount (link_counted obs t) = lt_localIpRefcount t"
  by (simp_all add: link_counted_def frame_simps Let_def)

lemma link_counted_ok: "mac_counts_ok t \<Longrightarrow> mac_counts_ok (link_counted obs t)"
  by (simp add: link_counted_def mac_counter.ok_inc mac_counter.ok_dec Let_def)

lemma link_counted_mac:
  assumes ok: "tracker_ok t" and n: "lo_ifname obs \<noteq> []" and m: "m \<noteq> []"
    and i: "i = interface_or_default (lo_ifname obs) t"
  shows "mac_count (link_counted obs t) m + int (mac_weight m i)
       = mac_count t m + int (mac_weight m (link_stored obs i))"
proof -
  note D = tracker_okD[OF ok]
  have io: "interface_ok (lo_ifname obs) i"
    unfolding i by (rule interface_or_default_ok[OF D(1)])
  have w: "mac_weight m (link_stored obs i) = (if lo_mac obs = m then 1 else 0)"
    by (simp add: mac_weight_def link_stored_def)
  show ?thesis
  proof (cases "li_ifname i = []")
    case True
    then have "li_mac i = []" using io n by (auto simp: interface_ok_def)
    then have "mac_weight m i = 0" using m by (simp add: mac_weight_def)
    then show ?thesis
      using True m w by (auto simp: link_counted_def i [symmetric] mac_counter.cnt_inc D(2))
  next
    case False
    then have known: "map_of (lt_interfaces t) (lo_ifname obs) = Some i"
      using interface_or_default_known i by simp
    have pos: "li_mac i = m \<Longrightarrow> 1 \<le> mac_count t m" using mac_owner_counted[OF ok known] m by simp
    show ?thesis
      using False m w pos
      by (auto simp: link_counted_def i [symmetric] mac_counter.cnt_inc mac_counter.cnt_dec
          mac_counter.ok_dec D(2) mac_weight_def Let_def)
  qed
qed

lemma ip_weight_link_stored [simp]: "ip_weight a (link_stored obs i) = ip_weight a i"
  by (simp add: ip_weight_def link_stored_def)

lemma link_stored_ok: "interface_ok k i \<Longrightarrow> k = lo_ifname obs \<Longrightarrow> interface_ok k (link_stored obs i)"
  by (simp add: interface_ok_def link_stored_def)

lemma link_present_ok:
  assumes ok: "tracker_ok t" and ev: "lo_event obs = Present" and n: "lo_ifname obs \<noteq> []"
  shows "tracker_ok (fst (tracker_onLinkObservation obs t))"
proof -
  note D = tracker_okD[OF ok]
  let ?i = "interface_or_default (lo_ifname obs) t"
  have "tracker_ok (set_interfaces (AList.update (lo_ifname obs) (link_stored obs ?i)
          (lt_interfaces (link_counted obs t))) (link_counted obs t))"
  proof (rule store_interface_ok[OF ok])
    show "interface_ok (lo_ifname obs) (link_stored obs ?i)"
      using interface_or_default_ok[OF D(1)] link_stored_ok by blast
  qed (use n link_counted_mac[OF ok n] in \<open>simp_all add: frame_simps D link_counted_ok\<close>)
  then show ?thesis by (simp add: link_present_unfold[OF ev])
qed

lemma tracker_onLinkObservation_ok [wf_intros]:
  "tracker_ok t \<Longrightarrow> lo_ifname obs \<noteq> [] \<Longrightarrow> tracker_ok (fst (tracker_onLinkObservation obs t))"
  using link_present_ok link_removed_ok by (cases "lo_event obs") auto

text \<open>Address observations.\<close>

lemma interface_or_default_store [simp]:
  "interface_or_default k (set_interfaces (AList.update k i m) t) = i"
  by (simp add: interface_or_default_def set_interfaces_def)

lemma ip_ops_set_interfaces:
  "incrementIp ip (set_interfaces m t) = set_interfaces m (incrementIp ip t)"
  "decrementIp ip (set_interfaces m t) = set_interfaces m (decrementIp ip t)"
  by (simp_all add: incrementIp_def decrementIp_def set_interfaces_def Let_def split: option.split)

lemma interface_or_default_noname:
  "interfaces_ok (lt_interfaces t) \<Longrightarrow> k = [] \<Longrightarrow> li_mac (interface_or_default k t) = []"
  by (auto simp: interfaces_ok_def interface_or_default_def empty_interface_def split: option.split)

lemma touch_interface_ok:
  assumes "tracker_ok t"
  shows "tracker_ok (set_interfaces (AList.update k (interface_or_default k t) (lt_interfaces t)) t)"
proof (rule store_interface_ok[OF assms, where ?t2.0 = t])
  note D = tracker_okD[OF assms]
  show "interface_ok k (interface_or_default k t)" by (rule interface_or_default_ok[OF D(1)])
  show "k = [] \<Longrightarrow> li_mac (interface_or_default k t) = []" by (rule interface_or_default_noname[OF D(1)])
qed (use tracker_okD[OF assms] in \<open>simp_all only:\<close>)

lemma store_increment_ok:
  assumes ok: "tracker_ok t" and i: "interface_ok k i" "k = [] \<Longrightarrow> li_mac i = []"
    and mac: "\<And>m. mac_weight m i = mac_weight m (interface_or_default k t)"
    and ip: "\<And>a. ip_weight a i = ip_weight a (interface_or_default k t) + (if a = ip then 1 else 0)"
  shows "tracker_ok (incrementIp ip (set_interfaces (AList.update k i (lt_interfaces t)) t))"
proof -
  note D = tracker_okD[OF ok]
  have "tracker_ok (set_interfaces (AList.update k i (lt_interfaces (incrementIp ip t))) (incrementIp ip t))"
    using i mac ip by (intro store_interface_ok[OF ok])
      (simp_all add: frame_simps ip_counter.ok_inc ip_counter.cnt_inc D)
  then show ?thesis by (simp add: ip_ops_set_interfaces frame_simps)
qed

lemma store_decrement_ok:
  assumes ok: "tracker_ok t" and i: "interface_ok k i" "k = [] \<Longrightarrow> li_mac i = []"
    and known: "map_of (lt_interfaces t) k = Some j"
    and mac: "\<And>m. mac_weight m i = mac_weight m j"
    and ip: "\<And>a. ip_weight a i + (if a = ip then 1 else 0) = ip_weight a j"
  shows "tracker_ok (decrementIp ip (set_interfaces (AList.update k i (lt_interfaces t)) t))"
proof -
  note D = tracker_okD[OF ok]
  have j: "interface_or_default k t = j" by (simp add: interface_or_default_def known)
  have "1 \<le> ip_weight ip j" using ip[of ip] by simp
  then have "1 \<le> amount (ip_weight ip) (lt_interfaces t)"
    using amount_ge[OF map_of_SomeD[OF known], of "ip_weight ip"] by simp
  then have pos: "1 \<le> ip_count t ip" using D(5)[of ip] by simp
  have ipz: "int (ip_weight a j) = int (ip_weight a i) + (if a = ip then 1 else 0)" for a
    using ip[of a] by (auto split: if_splits)
  have "tracker_ok (set_interfaces (AList.update k i (lt_interfaces (decrementIp ip t))) (decrementIp ip t))"
  proof (rule store_interface_ok[OF ok])
    show "ip_count (decrementIp ip t) a + int (ip_weight a (interface_or_default k t))
        = ip_count t a + int (ip_weight a i)" for a
      using pos ipz[of a] j by (simp add: ip_counter.cnt_dec D)
  qed (use i mac in \<open>simp_all add: frame_simps ip_counter.ok_dec D j\<close>)
  then show ?thesis by (simp add: ip_ops_set_interfaces frame_simps)
qed

lemma address_stored_ok:
  assumes "interface_ok k i" "extractIpFromCidr c \<noteq> []"
  shows "interface_ok k (i\<lparr>li_ipv4 := insert c (li_ipv4 i)\<rparr>)" "interface_ok k (i\<lparr>li_ipv6 := insert c (li_ipv6 i)\<rparr>)"
    "interface_ok k (i\<lparr>li_ipv4 := li_ipv4 i - {c}\<rparr>)" "interface_ok k (i\<lparr>li_ipv6 := li_ipv6 i - {c}\<rparr>)"
  using assms by (auto simp: interface_ok_def)

lemma address_weights [simp]:
  "mac_weight m (i\<lparr>li_ipv4 := S\<rparr>) = mac_weight m i" "mac_weight m (i\<lparr>li_ipv6 := S\<rparr>) = mac_weight m i"
  "ip_weight a (i\<lparr>li_ipv4 := S\<rparr>) = cidrs_with a S + cidrs_with a (li_ipv6 i)"
  "ip_weight a (i\<lparr>li_ipv6 := S\<rparr>) = cidrs_with a (li_ipv4 i) + cidrs_with a S"
  by (simp_all add: mac_weight_def ip_weight_def)

lemma tracker_onAddressObservation_ok [wf_intros]:
  assumes ok0: "tracker_ok t0"
  shows "tracker_ok (fst (tracker_onAddressObservation obs t0))"
proof -
  let ?k = "ao_ifname obs" and ?c = "ao_cidr obs" and ?ip = "extractIpFromCidr (ao_cidr obs)"
  define i where "i = interface_or_default ?k t0"
  define t where "t = set_interfaces (AList.update ?k i (lt_interfaces t0)) t0"
  note D0 = tracker_okD[OF ok0]
  have ok: "tracker_ok t" unfolding t_def i_def by (rule touch_interface_ok[OF ok0])
  have io: "interface_ok ?k i" unfolding i_def by (rule interface_or_default_ok[OF D0(1)])
  have nn: "?k = [] \<Longrightarrow> li_mac i = []" unfolding i_def by (rule interface_or_default_noname[OF D0(1)])
  have fin: "finite (li_ipv4 i)" "finite (li_ipv6 i)" using io by (simp_all add: interface_ok_def)
  have same: "interface_or_default ?k t = i" "map_of (lt_interfaces t) ?k = Some i"
    by (simp_all add: t_def frame_simps)
  note st = address_stored_ok[OF io]
  note rm = cidrs_with_remove[OF fin(1), of ?c] cidrs_with_remove[OF fin(2), of ?c]
  let ?put = "\<lambda>j. set_interfaces (AList.update ?k j (lt_interfaces t)) t"
  have inc4: "tracker_ok (incrementIp ?ip (?put (i\<lparr>li_ipv4 := insert ?c (li_ipv4 i)\<rparr>)))"
    if "?ip \<noteq> []" "?c \<notin> li_ipv4 i"
    by (rule store_increment_ok[OF ok st(1)[OF that(1)]])
      (use that nn in \<open>simp_all add: same cidrs_with_insert[OF fin(1)] ip_weight_def\<close>)
  have inc6: "tracker_ok (incrementIp ?ip (?put (i\<lparr>li_ipv6 := insert ?c (li_ipv6 i)\<rparr>)))"
    if "?ip \<noteq> []" "?c \<notin> li_ipv6 i"
    by (rule store_increment_ok[OF ok st(2)[OF that(1)]])
      (use that nn in \<open>simp_all add: same cidrs_with_insert[OF fin(2)] ip_weight_def\<close>)
  have dec4: "tracker_ok (decrementIp ?ip (?put (i\<lparr>li_ipv4 := li_ipv4 i - {?c}\<rparr>)))"
    if "?ip \<noteq> []" "?c \<in> li_ipv4 i"
    by (rule store_decrement_ok[OF ok st(3)[OF that(1)] _ same(2)])
      (use that nn rm(1)[OF that(2)] in \<open>simp_all add: ip_weight_def eq_commute[of ?ip]\<close>)
  have dec6: "tracker_ok (decrementIp ?ip (?put (i\<lparr>li_ipv6 := li_ipv6 i - {?c}\<rparr>)))"
    if "?ip \<noteq> []" "?c \<in> li_ipv6 i"
    by (rule store_decrement_ok[OF ok st(4)[OF that(1)] _ same(2)])
      (use that nn rm(2)[OF that(2)] in \<open>simp_all add: ip_weight_def eq_commute[of ?ip]\<close>)
  show ?thesis
    unfolding tracker_onAddressObservation_def Let_def i_def [symmetric] t_def [symmetric]
    using ok inc4 inc6 dec4 dec6 by simp
qed

text \<open>What the counts mean for the two queries the engine asks.\<close>

lemma isLocalMac_iff:
  assumes "tracker_ok t" "m \<noteq> []"
  shows "isLocalMac m t \<longleftrightarrow> (\<exists>k i. map_of (lt_interfaces t) k = Some i \<and> li_mac i = m)"
proof -
  note D = tracker_okD[OF assms(1)]
  have "isLocalMac m t \<longleftrightarrow> 0 < amount (mac_weight m) (lt_interfaces t)"
    by (simp add: isLocalMac_def mac_counter.members_cnt[OF D(2)] D(4)[OF assms(2)])
  also have "\<dots> \<longleftrightarrow> (\<exists>k i. map_of (lt_interfaces t) k = Some i \<and> li_mac i = m)"
    unfolding amount_pos_iff in_set_map_of[OF interfaces_okD(1)[OF D(1)]]
    by (auto simp: mac_weight_def)
  finally show ?thesis .
qed

lemma cidrs_with_pos: "finite S \<Longrightarrow> 0 < cidrs_with a S \<longleftrightarrow> (\<exists>c \<in> S. extractIpFromCidr c = a)"
  by (auto simp: cidrs_with_def card_gt_0_iff)

lemma isLocalIp_iff:
  assumes "tracker_ok t"
  shows "isLocalIp a t \<longleftrightarrow>
    (\<exists>k i. map_of (lt_interfaces t) k = Some i \<and>
           (\<exists>c \<in> li_ipv4 i \<union> li_ipv6 i. extractIpFromCidr c = a))"
proof -
  note D = tracker_okD[OF assms]
  have w: "0 < ip_weight a i \<longleftrightarrow> (\<exists>c \<in> li_ipv4 i \<union> li_ipv6 i. extractIpFromCidr c = a)"
    if "map_of (lt_interfaces t) k = Some i" for k i
    using interfaces_okD(2)[OF D(1) that] cidrs_with_pos[of "li_ipv4 i" a] cidrs_with_pos[of "li_ipv6 i" a]
    by (auto simp: ip_weight_def interface_ok_def)
  have "isLocalIp a t \<longleftrightarrow> 0 < amount (ip_weight a) (lt_interfaces t)"
    by (simp add: isLocalIp_def ip_counter.members_cnt[OF D(3)] D(5)[of a])
  also have "\<dots> \<longleftrightarrow> (\<exists>k i. map_of (lt_interfaces t) k = Some i \<and> 0 < ip_weight a i)"
    by (simp add: amount_pos_iff in_set_map_of[OF interfaces_okD(1)[OF D(1)]])
  finally show ?thesis using w by blast
qed

end
