(* ===== verification/Engine.thy ===== *)
theory Engine
  imports Classifier Hard_Filter Local_State
begin

text \<open>
  \<open>core/engine/ObservationModelEngine\<close>: the observation model. Every public method runs under
  \<open>mutex_\<close> and delivers the events it collected after releasing it; a method is here a function from
  the engine to the new engine and the list of events handed to the sink, in order (none when no
  sink is registered). The readings of \<open>steady_clock::now()\<close> are arguments: \<open>tc\<close> for the creation
  time of a candidate, \<open>td\<close> for the delivery of pending events. The loops over \<open>candidates_\<close> visit
  the association list, whose order is arbitrary; pending events are sets, as in the source, so the
  order never shows.
\<close>

datatype model_phase = Initializing | Live

record engine =
  en_config :: model_config
  en_sink :: bool
  en_phase :: model_phase
  en_interfacePolicy :: interface_policy
  en_classifier :: classifier
  en_localState :: local_state_tracker
  en_candidates :: "remote_candidate umap"

record pending_events =
  pe_changed :: "string set"
  pe_removed :: "string set"

definition no_pending :: pending_events where
  "no_pending = \<lparr>pe_changed = {}, pe_removed = {}\<rparr>"

definition pe_record :: "string \<Rightarrow> bool \<Rightarrow> bool \<Rightarrow> pending_events \<Rightarrow> pending_events" where
  "pe_record mac wasPublishable nowPublishable p =
     (if nowPublishable then p\<lparr>pe_changed := insert mac (pe_changed p)\<rparr>
      else if wasPublishable then p\<lparr>pe_removed := insert mac (pe_removed p)\<rparr>
      else p)"

definition pe_recordErased :: "string \<Rightarrow> bool \<Rightarrow> pending_events \<Rightarrow> pending_events" where
  "pe_recordErased mac wasPublishable p =
     (if wasPublishable then p\<lparr>pe_removed := insert mac (pe_removed p)\<rparr> else p)"

definition candidate_event :: "model_event_kind \<Rightarrow> time_point \<Rightarrow> string \<Rightarrow> model_event" where
  "candidate_event kind now mac =
     \<lparr>me_kind = kind, me_timestamp = now, me_ifname = None, me_mac = Some mac\<rparr>"

definition deliverPending :: "bool \<Rightarrow> time_point \<Rightarrow> pending_events \<Rightarrow> model_event list" where
  "deliverPending sink now p =
     (if \<not> sink then []
      else map (candidate_event CandidateUpdated now) (sorted_list_of_set (pe_changed p))
         @ map (candidate_event CandidateRemoved now) (sorted_list_of_set (pe_removed p)))"

definition isConfirmedWorthy :: "candidate_classification \<Rightarrow> bool" where
  "isConfirmedWorthy cls =
     (case cls of RemoteEndpoint \<Rightarrow> True | GatewayLike \<Rightarrow> True | TopologyPeer \<Rightarrow> True | _ \<Rightarrow> False)"

definition hasNoEvidence :: "remote_candidate \<Rightarrow> bool" where
  "hasNoEvidence c \<longleftrightarrow>
     \<not> rc_seenInNeigh c \<and> \<not> rc_seenInFdb c \<and> \<not> rc_seenInLldp c \<and>
     rc_ipv4 c = {} \<and> rc_ipv6 c = {} \<and> rc_bridgePort c = None"

definition isPublishable :: "remote_candidate \<Rightarrow> bool" where
  "isPublishable c =
     (if rc_status c \<noteq> Confirmed \<and> rc_status c \<noteq> Aged then False
      else (case rc_classification c of
              Artifact \<Rightarrow> False | LocalSelf \<Rightarrow> False | UnknownClass \<Rightarrow> False | _ \<Rightarrow> True))"

definition new_engine :: "model_config \<Rightarrow> engine" where
  "new_engine config =
     \<lparr>en_config = config\<lparr>mc_interfacePolicy := None\<rparr>,
      en_sink = False,
      en_phase = Initializing,
      en_interfacePolicy = (case mc_interfacePolicy config of
                              Some p \<Rightarrow> p | None \<Rightarrow> defaultInterfacePolicy),
      en_classifier = createClassifier (mc_classifierConfig config),
      en_localState = new_tracker,
      en_candidates = []\<rparr>"

definition setEventSink :: "bool \<Rightarrow> engine \<Rightarrow> engine" where
  "setEventSink sink e = e\<lparr>en_sink := sink\<rparr>"


section \<open>Internals\<close>

definition updateClassification :: "engine \<Rightarrow> remote_candidate \<Rightarrow> remote_candidate" where
  "updateClassification e c = c\<lparr>rc_classification := en_classifier e c\<rparr>"

definition reconcileStatusLocked ::
  "model_phase \<Rightarrow> observation_event \<Rightarrow> remote_candidate \<Rightarrow> remote_candidate" where
  "reconcileStatusLocked phase event c =
     (let c1 = (if event = Present then
                  (if rc_status c = Aged \<or> rc_status c = Expired then c\<lparr>rc_status := Confirmed\<rparr>
                   else if rc_status c = Removed then c\<lparr>rc_status := Provisional\<rparr>
                   else c)
                else c)
      in if phase = Initializing then
           (if rc_status c1 \<noteq> Removed then c1\<lparr>rc_status := Provisional\<rparr> else c1)
         else if rc_status c1 = Provisional \<and> isConfirmedWorthy (rc_classification c1) then
           c1\<lparr>rc_status := Confirmed\<rparr>
         else c1)"

definition getOrCreateCandidate :: "time_point \<Rightarrow> string \<Rightarrow> engine \<Rightarrow> remote_candidate" where
  "getOrCreateCandidate tc mac e =
     (case map_of (en_candidates e) mac of
        Some c \<Rightarrow> c
      | None \<Rightarrow> empty_candidate\<lparr>rc_mac := mac, rc_firstSeen := tc\<rparr>)"

definition mark_local_self :: "remote_candidate \<Rightarrow> remote_candidate" where
  "mark_local_self c = c\<lparr>rc_classification := LocalSelf, rc_status := Removed\<rparr>"

definition reconcileByKey :: "string \<Rightarrow> engine \<Rightarrow> engine" where
  "reconcileByKey mac e =
     (case map_of (en_candidates e) mac of
        Some c \<Rightarrow> (if isLocalMac mac (en_localState e)
                   then e\<lparr>en_candidates := AList.update mac (mark_local_self c) (en_candidates e)\<rparr>
                   else e)
      | None \<Rightarrow> e)"

definition reconcileAffectedByLocalMac :: "string \<Rightarrow> engine \<Rightarrow> engine" where
  "reconcileAffectedByLocalMac mac e = reconcileByKey mac e"

definition reconcileAffectedByLocalIp :: "string \<Rightarrow> engine \<Rightarrow> engine" where
  "reconcileAffectedByLocalIp ip e =
     e\<lparr>en_candidates :=
        map (\<lambda>(mac, c). (mac, if ip \<in> rc_ipv4 c \<or> ip \<in> rc_ipv6 c then mark_local_self c else c))
            (en_candidates e)\<rparr>"

text \<open>
  The tail shared by the three remote-candidate handlers: a candidate left without evidence is
  erased, otherwise it is reclassified and its status reconciled.
\<close>

definition settle_candidate ::
  "string \<Rightarrow> observation_event \<Rightarrow> bool \<Rightarrow> remote_candidate \<Rightarrow> engine \<Rightarrow> engine \<times> pending_events" where
  "settle_candidate mac event wasPublishable c e =
     (if hasNoEvidence c then
        (e\<lparr>en_candidates := AList.delete mac (en_candidates e)\<rparr>,
         pe_recordErased mac wasPublishable no_pending)
      else
        (let c' = reconcileStatusLocked (en_phase e) event (updateClassification e c)
         in (e\<lparr>en_candidates := AList.update mac c' (en_candidates e)\<rparr>,
             pe_record mac wasPublishable (isPublishable c') no_pending)))"


section \<open>Local observations\<close>

definition engine_onLinkObservation ::
  "time_point \<Rightarrow> link_observation \<Rightarrow> engine \<Rightarrow> engine \<times> model_event list" where
  "engine_onLinkObservation td obs e =
     (if \<not> ip_includeInLocalState (en_interfacePolicy e) (lo_ifname obs) then (e, [])
      else
        (let (ls, macChanged) = tracker_onLinkObservation obs (en_localState e);
             event = \<lparr>me_kind = (if lo_event obs = RemovedObs then LocalInterfaceRemoved
                                 else LocalInterfaceChanged),
                      me_timestamp = lo_observedAt obs,
                      me_ifname = Some (lo_ifname obs), me_mac = None\<rparr>;
             e1 = e\<lparr>en_localState := ls\<rparr>;
             wasPublishable = (case map_of (en_candidates e1) (lo_mac obs) of
                                 Some c \<Rightarrow> isPublishable c | None \<Rightarrow> False);
             (e2, pending) =
               (if macChanged then
                  (reconcileAffectedByLocalMac (lo_mac obs) e1,
                   if wasPublishable then no_pending\<lparr>pe_removed := {lo_mac obs}\<rparr> else no_pending)
                else (e1, no_pending))
         in (e2, if en_sink e then event # deliverPending True td pending else [])))"

definition engine_onAddressObservation ::
  "time_point \<Rightarrow> address_observation \<Rightarrow> engine \<Rightarrow> engine \<times> model_event list" where
  "engine_onAddressObservation td obs e =
     (if \<not> ip_includeInLocalState (en_interfacePolicy e) (ao_ifname obs) then (e, [])
      else
        (let e1 = e\<lparr>en_localState := fst (tracker_onAddressObservation obs (en_localState e))\<rparr>;
             ip = extractIpFromCidr (ao_cidr obs)
         in if ip = [] then (e1, [])
            else
              (let event = \<lparr>me_kind = LocalAddressChanged, me_timestamp = ao_observedAt obs,
                            me_ifname = Some (ao_ifname obs), me_mac = None\<rparr>;
                   (e2, pending) =
                     (if ao_event obs = Present then
                        (reconcileAffectedByLocalIp ip e1,
                         no_pending\<lparr>pe_removed :=
                           set (map fst (filter
                             (\<lambda>(mac, c). (ip \<in> rc_ipv4 c \<or> ip \<in> rc_ipv6 c) \<and> isPublishable c)
                             (en_candidates e1)))\<rparr>)
                      else (e1, no_pending))
               in (e2, if en_sink e then event # deliverPending True td pending else []))))"


section \<open>Remote-candidate observations\<close>

definition apply_neighbor :: "neighbor_observation \<Rightarrow> remote_candidate \<Rightarrow> remote_candidate" where
  "apply_neighbor obs c =
     (let nkey = NeighborEvidenceKey (no_ifname obs) (no_family obs) (no_ip obs);
          c1 = (if no_event obs = Present then
                  (let c0 = c\<lparr>rc_neighborEvidence := insert nkey (rc_neighborEvidence c),
                              rc_neighborIfaces := insert (no_ifname obs) (rc_neighborIfaces c),
                              rc_lastSeen := no_observedAt obs\<rparr>
                   in if no_family obs = AF_INET then c0\<lparr>rc_ipv4 := insert (no_ip obs) (rc_ipv4 c0)\<rparr>
                      else c0\<lparr>rc_ipv6 := insert (no_ip obs) (rc_ipv6 c0)\<rparr>)
                else
                  (let c0 = c\<lparr>rc_neighborEvidence := rc_neighborEvidence c - {nkey},
                              rc_neighborIfaces := rc_neighborIfaces c - {no_ifname obs}\<rparr>
                   in if no_family obs = AF_INET then c0\<lparr>rc_ipv4 := rc_ipv4 c0 - {no_ip obs}\<rparr>
                      else c0\<lparr>rc_ipv6 := rc_ipv6 c0 - {no_ip obs}\<rparr>))
      in c1\<lparr>rc_seenInNeigh := (rc_neighborEvidence c1 \<noteq> {})\<rparr>)"

definition engine_onNeighborObservation ::
  "(string \<Rightarrow> 32 word option) \<Rightarrow> time_point \<Rightarrow> time_point \<Rightarrow> neighbor_observation \<Rightarrow> engine
     \<Rightarrow> engine \<times> model_event list" where
  "engine_onNeighborObservation pton tc td obs e =
     (if \<not> ip_allowRemoteNeighborEvidence (en_interfacePolicy e) (no_ifname obs) then (e, [])
      else if \<not> passes_neighbor pton (en_config e) obs
                (isLocalMac (no_mac obs) (en_localState e)) (isLocalIp (no_ip obs) (en_localState e))
      then (e, [])
      else
        (let c = getOrCreateCandidate tc (no_mac obs) e;
             wasPublishable = isPublishable c;
             (e2, pending) =
               settle_candidate (no_mac obs) (no_event obs) wasPublishable (apply_neighbor obs c) e
         in (e2, deliverPending (en_sink e) td pending)))"

definition apply_fdb :: "fdb_observation \<Rightarrow> remote_candidate \<Rightarrow> remote_candidate" where
  "apply_fdb obs c =
     (let fkey = FdbEvidenceKey (fo_portIfname obs) (fo_mac obs);
          c1 = (if fo_event obs = Present then
                  c\<lparr>rc_fdbEvidence := insert fkey (rc_fdbEvidence c),
                    rc_bridgePort := Some (fo_portIfname obs),
                    rc_lastSeen := fo_observedAt obs\<rparr>
                else
                  (let c0 = c\<lparr>rc_fdbEvidence := rc_fdbEvidence c - {fkey}\<rparr>
                   in if rc_bridgePort c0 = Some (fo_portIfname obs)
                      then c0\<lparr>rc_bridgePort := None\<rparr> else c0))
      in c1\<lparr>rc_seenInFdb := (rc_fdbEvidence c1 \<noteq> {})\<rparr>)"

definition engine_onFdbObservation ::
  "time_point \<Rightarrow> time_point \<Rightarrow> fdb_observation \<Rightarrow> engine \<Rightarrow> engine \<times> model_event list" where
  "engine_onFdbObservation tc td obs e =
     (if \<not> ip_allowRemoteFdbEvidence (en_interfacePolicy e) (fo_portIfname obs) then (e, [])
      else if \<not> passes_fdb (en_config e) obs (isLocalMac (fo_mac obs) (en_localState e)) then (e, [])
      else
        (let c = getOrCreateCandidate tc (fo_mac obs) e;
             wasPublishable = isPublishable c;
             (e2, pending) =
               settle_candidate (fo_mac obs) (fo_event obs) wasPublishable (apply_fdb obs c) e
         in (e2, deliverPending (en_sink e) td pending)))"

definition apply_lldp :: "lldp_observation \<Rightarrow> remote_candidate \<Rightarrow> remote_candidate" where
  "apply_lldp obs c =
     (if ll_event obs = Present then
        c\<lparr>rc_seenInLldp := True,
          rc_remoteChassisId := ll_remoteChassisId obs,
          rc_remotePortId := ll_remotePortId obs,
          rc_remoteSystemName := ll_remoteSystemName obs,
          rc_lastSeen := ll_observedAt obs,
          rc_neighborIfaces := insert (ll_localIfname obs) (rc_neighborIfaces c)\<rparr>
      else
        c\<lparr>rc_seenInLldp := False,
          rc_remoteChassisId := None,
          rc_remotePortId := None,
          rc_remoteSystemName := None,
          rc_neighborIfaces := rc_neighborIfaces c - {ll_localIfname obs}\<rparr>)"

text \<open>A keepalive refreshes a known candidate; it records an event only on a real change.\<close>

definition settle_keepalive ::
  "string \<Rightarrow> bool \<Rightarrow> remote_candidate \<Rightarrow> engine \<Rightarrow> engine \<times> pending_events" where
  "settle_keepalive mac wasPublishable c e =
     (if hasNoEvidence c then
        (e\<lparr>en_candidates := AList.delete mac (en_candidates e)\<rparr>,
         pe_recordErased mac wasPublishable no_pending)
      else
        (let oldStatus = rc_status c;
             oldClassification = rc_classification c;
             c1 = updateClassification e c;
             c2 = (if rc_status c1 = Aged \<or> rc_status c1 = Expired then c1\<lparr>rc_status := Confirmed\<rparr> else c1)
         in (e\<lparr>en_candidates := AList.update mac c2 (en_candidates e)\<rparr>,
             if rc_status c2 \<noteq> oldStatus \<or> rc_classification c2 \<noteq> oldClassification
             then pe_record mac wasPublishable (isPublishable c2) no_pending else no_pending)))"

definition keepalive_dropped :: "lldp_observation \<Rightarrow> string \<Rightarrow> engine \<Rightarrow> bool" where
  "keepalive_dropped obs key e \<longleftrightarrow>
     ll_keepalive obs \<and>
     (ll_event obs \<noteq> Present \<or>
      (case map_of (en_candidates e) key of None \<Rightarrow> True | Some c \<Rightarrow> rc_status c = Removed))"

definition engine_onLldpObservation ::
  "time_point \<Rightarrow> time_point \<Rightarrow> lldp_observation \<Rightarrow> engine \<Rightarrow> engine \<times> model_event list" where
  "engine_onLldpObservation tc td obs e =
     (if \<not> ip_allowLldpEvidence (en_interfacePolicy e) (ll_localIfname obs) then (e, [])
      else
        (let candidateKey = resolveLldpIdentity (ll_remoteChassisId obs) (ll_remotePortId obs)
         in if candidateKey = [] then (e, [])
            else if keepalive_dropped obs candidateKey e then (e, [])
            else
              (let c = getOrCreateCandidate tc candidateKey e;
                   wasPublishable = isPublishable c;
                   c1 = apply_lldp obs c;
                   (e2, pending) =
                     (if ll_keepalive obs then settle_keepalive candidateKey wasPublishable c1 e
                      else settle_candidate candidateKey (ll_event obs) wasPublishable c1 e)
               in (e2, deliverPending (en_sink e) td pending))))"


section \<open>Queries\<close>

definition localSnapshot :: "engine \<Rightarrow> local_network_snapshot" where
  "localSnapshot e = lt_snapshot (en_localState e)"

definition remoteCandidates :: "engine \<Rightarrow> remote_candidate list" where
  "remoteCandidates e = filter isPublishable (map snd (en_candidates e))"

definition findCandidateByMac :: "string \<Rightarrow> engine \<Rightarrow> remote_candidate option" where
  "findCandidateByMac mac e =
     (case map_of (en_candidates e) mac of
        Some c \<Rightarrow> (if isPublishable c then Some c else None) | None \<Rightarrow> None)"


section \<open>Aging and lifecycle\<close>

definition age_candidate :: "model_config \<Rightarrow> time_point \<Rightarrow> remote_candidate \<Rightarrow> remote_candidate" where
  "age_candidate cfg now c =
     (if rc_status c = Removed \<or> rc_status c = Provisional then c
      else (let elapsed = now - rc_lastSeen c
            in if elapsed > mc_candidateExpire cfg * nanos_per_sec then c\<lparr>rc_status := Expired\<rparr>
               else if elapsed > mc_candidateAgeout cfg * nanos_per_sec then c\<lparr>rc_status := Aged\<rparr>
               else c))"

fun age_loop ::
  "model_config \<Rightarrow> time_point \<Rightarrow> remote_candidate umap \<Rightarrow> pending_events
     \<Rightarrow> remote_candidate umap \<times> pending_events" where
  "age_loop cfg now [] p = ([], p)"
| "age_loop cfg now ((mac, c) # m) p =
     (let oldStatus = rc_status c;
          wasPublishable = isPublishable c;
          c' = age_candidate cfg now c;
          p1 = (if rc_status c' = oldStatus then p else pe_record mac wasPublishable (isPublishable c') p);
          (m', p2) = age_loop cfg now m p1
      in ((mac, c') # m', p2))"

definition engine_age :: "time_point \<Rightarrow> time_point \<Rightarrow> engine \<Rightarrow> engine \<times> model_event list" where
  "engine_age td now e =
     (let (m, pending) = age_loop (en_config e) now (en_candidates e) no_pending
      in (e\<lparr>en_candidates := m\<rparr>, deliverPending (en_sink e) td pending))"

definition restart_candidate :: "remote_candidate \<Rightarrow> remote_candidate" where
  "restart_candidate c =
     c\<lparr>rc_neighborEvidence := {}, rc_fdbEvidence := {},
       rc_seenInNeigh := False, rc_seenInFdb := False, rc_seenInLldp := False,
       rc_ipv4 := {}, rc_ipv6 := {}, rc_bridgePort := None, rc_neighborIfaces := {},
       rc_remoteChassisId := None, rc_remotePortId := None, rc_remoteSystemName := None,
       rc_classification := UnknownClass, rc_status := Provisional, rc_score := empty_score\<rparr>"

fun restart_loop ::
  "remote_candidate umap \<Rightarrow> pending_events \<Rightarrow> remote_candidate umap \<times> pending_events" where
  "restart_loop [] p = ([], p)"
| "restart_loop ((mac, c) # m) p =
     (let p1 = pe_recordErased mac (isPublishable c) p;
          (m', p2) = restart_loop m p1
      in ((mac, restart_candidate c) # m', p2))"

definition prepareForRestart :: "time_point \<Rightarrow> engine \<Rightarrow> engine \<times> model_event list" where
  "prepareForRestart td e =
     (let e1 = e\<lparr>en_phase := Initializing, en_localState := tracker_clear (en_localState e)\<rparr>;
          (m, pending) = restart_loop (en_candidates e1) no_pending
      in (e1\<lparr>en_candidates := m\<rparr>, deliverPending (en_sink e) td pending))"

fun markLive_loop ::
  "engine \<Rightarrow> remote_candidate umap \<Rightarrow> pending_events \<Rightarrow> remote_candidate umap \<times> pending_events" where
  "markLive_loop e [] p = ([], p)"
| "markLive_loop e ((mac, c) # m) p =
     (if rc_status c \<noteq> Provisional then
        (let (m', p') = markLive_loop e m p in ((mac, c) # m', p'))
      else
        (let c1 = updateClassification e c
         in if isConfirmedWorthy (rc_classification c1) then
              (let (m', p') = markLive_loop e m (p\<lparr>pe_changed := insert mac (pe_changed p)\<rparr>)
               in ((mac, c1\<lparr>rc_status := Confirmed\<rparr>) # m', p'))
            else markLive_loop e m p))"

definition markLive :: "time_point \<Rightarrow> engine \<Rightarrow> engine \<times> model_event list" where
  "markLive td e =
     (let e1 = e\<lparr>en_phase := Live\<rparr>;
          (m, pending) = markLive_loop e1 (en_candidates e1) no_pending
      in (e1\<lparr>en_candidates := m\<rparr>, deliverPending (en_sink e) td pending))"


section \<open>Runtime configuration\<close>

definition setInterfacePolicy :: "interface_policy \<Rightarrow> engine \<Rightarrow> engine" where
  "setInterfacePolicy policy e = e\<lparr>en_interfacePolicy := policy\<rparr>"

definition setClassifier :: "classifier \<Rightarrow> engine \<Rightarrow> engine" where
  "setClassifier classifier e =
     (let e1 = e\<lparr>en_classifier := classifier\<rparr>
      in e1\<lparr>en_candidates := map (\<lambda>(mac, c). (mac, updateClassification e1 c)) (en_candidates e1)\<rparr>)"


section \<open>One call of the model interface\<close>

datatype engine_op =
    OpLink link_observation
  | OpAddress address_observation
  | OpNeighbor neighbor_observation
  | OpFdb fdb_observation
  | OpLldp lldp_observation
  | OpAge time_point
  | OpPrepareForRestart
  | OpMarkLive
  | OpSetEventSink bool
  | OpSetInterfacePolicy interface_policy
  | OpSetClassifier classifier

fun engine_step ::
  "(string \<Rightarrow> 32 word option) \<Rightarrow> time_point \<Rightarrow> time_point \<Rightarrow> engine_op \<Rightarrow> engine
     \<Rightarrow> engine \<times> model_event list" where
  "engine_step pton tc td (OpLink obs) e = engine_onLinkObservation td obs e"
| "engine_step pton tc td (OpAddress obs) e = engine_onAddressObservation td obs e"
| "engine_step pton tc td (OpNeighbor obs) e = engine_onNeighborObservation pton tc td obs e"
| "engine_step pton tc td (OpFdb obs) e = engine_onFdbObservation tc td obs e"
| "engine_step pton tc td (OpLldp obs) e = engine_onLldpObservation tc td obs e"
| "engine_step pton tc td (OpAge now) e = engine_age td now e"
| "engine_step pton tc td OpPrepareForRestart e = prepareForRestart td e"
| "engine_step pton tc td OpMarkLive e = markLive td e"
| "engine_step pton tc td (OpSetEventSink s) e = (setEventSink s e, [])"
| "engine_step pton tc td (OpSetInterfacePolicy p) e = (setInterfacePolicy p e, [])"
| "engine_step pton tc td (OpSetClassifier k) e = (setClassifier k e, [])"

end
