(* ===== verification/Engine_Invariant.thy ===== *)
theory Engine_Invariant
  imports Engine
begin

text \<open>
  The well-formedness invariant of the observation model and its preservation by every call of the
  interface. \<open>cand_ok\<close> ties the redundant fields of a candidate together (the \<open>seenIn\<close> flags are
  exactly the non-emptiness of the evidence sets, each address is backed by an evidence key, the
  LLDP identifiers resolve to the key the candidate is stored under); \<open>entry_ok\<close> adds what the
  phase and the status say of each other; \<open>engine_ok\<close> adds the local-state tracker's invariant.
  \<open>engine_reachable\<close> is the set of states a sequence of calls can produce.
\<close>

definition cand_ok :: "string \<Rightarrow> remote_candidate \<Rightarrow> bool" where
  "cand_ok k c \<longleftrightarrow>
     rc_mac c = k \<and>
     finite (rc_neighborEvidence c) \<and> finite (rc_fdbEvidence c) \<and> finite (rc_neighborIfaces c) \<and>
     finite (rc_ipv4 c) \<and> finite (rc_ipv6 c) \<and>
     (rc_seenInNeigh c \<longleftrightarrow> rc_neighborEvidence c \<noteq> {}) \<and>
     (rc_seenInFdb c \<longleftrightarrow> rc_fdbEvidence c \<noteq> {}) \<and>
     (\<forall>a \<in> rc_ipv4 c. \<exists>ifn. NeighborEvidenceKey ifn AF_INET a \<in> rc_neighborEvidence c) \<and>
     (\<forall>a \<in> rc_ipv6 c. \<exists>ifn f. f \<noteq> AF_INET \<and> NeighborEvidenceKey ifn f a \<in> rc_neighborEvidence c) \<and>
     (\<forall>f \<in> rc_fdbEvidence c. fek_mac f = k) \<and>
     (\<forall>p. rc_bridgePort c = Some p \<longrightarrow> FdbEvidenceKey p k \<in> rc_fdbEvidence c) \<and>
     (if rc_seenInLldp c then resolveLldpIdentity (rc_remoteChassisId c) (rc_remotePortId c) = k
      else rc_remoteChassisId c = None \<and> rc_remotePortId c = None \<and> rc_remoteSystemName c = None)"

definition entry_ok :: "model_phase \<Rightarrow> string \<Rightarrow> remote_candidate \<Rightarrow> bool" where
  "entry_ok phase k c \<longleftrightarrow>
     cand_ok k c \<and>
     (phase = Initializing \<longrightarrow> rc_status c = Provisional \<or> rc_status c = Removed) \<and>
     (rc_status c \<noteq> Provisional \<and> rc_status c \<noteq> Removed \<longrightarrow> \<not> hasNoEvidence c)"

definition cands_ok :: "model_phase \<Rightarrow> remote_candidate umap \<Rightarrow> bool" where
  "cands_ok phase m \<longleftrightarrow> distinct_keys m \<and> (\<forall>k c. map_of m k = Some c \<longrightarrow> entry_ok phase k c)"

text \<open>A classifier that never promotes a candidate without evidence.\<close>

definition needs_evidence :: "classifier \<Rightarrow> bool" where
  "needs_evidence cl \<longleftrightarrow> (\<forall>c. hasNoEvidence c \<longrightarrow> \<not> isConfirmedWorthy (cl c))"

definition engine_ok :: "engine \<Rightarrow> bool" where
  "engine_ok e \<longleftrightarrow>
     cands_ok (en_phase e) (en_candidates e) \<and> tracker_ok (en_localState e) \<and>
     needs_evidence (en_classifier e)"

lemma cands_okD:
  "cands_ok ph m \<Longrightarrow> distinct_keys m"
  "cands_ok ph m \<Longrightarrow> map_of m k = Some c \<Longrightarrow> entry_ok ph k c"
  by (auto simp: cands_ok_def)

lemma entry_okD: "entry_ok ph k c \<Longrightarrow> cand_ok k c"
  by (simp add: entry_ok_def)


section \<open>Bundled classifiers need evidence\<close>

lemma rule_based_needs_evidence: "needs_evidence rule_based_classify"
  by (simp add: needs_evidence_def hasNoEvidence_def rule_based_classify_def isConfirmedWorthy_def)

lemma scoring_needs_evidence:
  "0 < st_confirmed t \<Longrightarrow> 0 < st_topology t \<Longrightarrow> needs_evidence (scoring_classify w t)"
  by (auto simp: needs_evidence_def hasNoEvidence_def scoring_classify_def computeScore_def
      scoreToClass_def isConfirmedWorthy_def)

lemma created_needs_evidence:
  "0 < st_confirmed (cc_thresholds cfg) \<Longrightarrow> 0 < st_topology (cc_thresholds cfg) \<Longrightarrow>
   needs_evidence (createClassifier cfg)"
  using createClassifier_cases[of cfg] rule_based_needs_evidence scoring_needs_evidence by metis


section \<open>Candidates\<close>

lemma cand_ok_status_class [simp]:
  "cand_ok k (c\<lparr>rc_status := s\<rparr>) = cand_ok k c"
  "cand_ok k (c\<lparr>rc_classification := x\<rparr>) = cand_ok k c"
  "hasNoEvidence (c\<lparr>rc_status := s\<rparr>) = hasNoEvidence c"
  "hasNoEvidence (c\<lparr>rc_classification := x\<rparr>) = hasNoEvidence c"
  by (simp_all add: cand_ok_def hasNoEvidence_def)

lemma updateClassification_frame [simp]:
  "cand_ok k (updateClassification e c) = cand_ok k c"
  "hasNoEvidence (updateClassification e c) = hasNoEvidence c"
  "rc_status (updateClassification e c) = rc_status c"
  "rc_classification (updateClassification e c) = en_classifier e c"
  by (simp_all add: updateClassification_def)

lemma reconcile_frame [simp]:
  "cand_ok k (reconcileStatusLocked ph ev c) = cand_ok k c"
  "hasNoEvidence (reconcileStatusLocked ph ev c) = hasNoEvidence c"
  "rc_classification (reconcileStatusLocked ph ev c) = rc_classification c"
  by (simp_all add: reconcileStatusLocked_def Let_def)

lemma reconcile_fields [simp]:
  "rc_lastSeen (reconcileStatusLocked ph ev (updateClassification e c)) = rc_lastSeen c"
  "rc_remoteChassisId (reconcileStatusLocked ph ev (updateClassification e c)) = rc_remoteChassisId c"
  "rc_remotePortId (reconcileStatusLocked ph ev (updateClassification e c)) = rc_remotePortId c"
  "rc_seenInLldp (reconcileStatusLocked ph ev (updateClassification e c)) = rc_seenInLldp c"
  by (simp_all add: reconcileStatusLocked_def updateClassification_def Let_def)

lemma reconcile_initializing:
  "rc_status (reconcileStatusLocked Initializing ev c) \<in> {Provisional, Removed}"
  by (simp add: reconcileStatusLocked_def Let_def)

lemma mark_local_self_frame [simp]:
  "cand_ok k (mark_local_self c) = cand_ok k c"
  "rc_status (mark_local_self c) = Removed"
  "isPublishable (mark_local_self c) = False"
  by (simp_all add: mark_local_self_def isPublishable_def)

lemma created_candidate_ok: "cand_ok k (empty_candidate\<lparr>rc_mac := k, rc_firstSeen := t\<rparr>)"
  by (simp add: cand_ok_def empty_candidate_def)

lemma getOrCreate_ok: "cands_ok ph (en_candidates e) \<Longrightarrow> cand_ok k (getOrCreateCandidate tc k e)"
  by (auto simp: getOrCreateCandidate_def created_candidate_ok cands_ok_def entry_ok_def
      split: option.splits)

lemma getOrCreate_Provisional:
  "map_of (en_candidates e) k = None \<Longrightarrow> rc_status (getOrCreateCandidate tc k e) = Provisional"
  by (simp add: getOrCreateCandidate_def empty_candidate_def)

lemma apply_neighbor_ok: "cand_ok k c \<Longrightarrow> cand_ok k (apply_neighbor obs c)"
  unfolding cand_ok_def apply_neighbor_def
  by (cases "no_event obs = Present"; cases "no_family obs = AF_INET") (simp_all add: Let_def, blast+)

lemma apply_fdb_ok: "cand_ok k c \<Longrightarrow> k = fo_mac obs \<Longrightarrow> cand_ok k (apply_fdb obs c)"
  unfolding cand_ok_def apply_fdb_def
  by (cases "fo_event obs = Present") (auto simp: Let_def)

lemma apply_lldp_ok:
  "cand_ok k c \<Longrightarrow> k = resolveLldpIdentity (ll_remoteChassisId obs) (ll_remotePortId obs) \<Longrightarrow>
   cand_ok k (apply_lldp obs c)"
  by (simp add: cand_ok_def apply_lldp_def)

text \<open>Under the invariant the three \<open>seenIn\<close> flags alone decide whether evidence remains.\<close>

lemma hasNoEvidence_flags:
  "cand_ok k c \<Longrightarrow>
   hasNoEvidence c \<longleftrightarrow> \<not> rc_seenInNeigh c \<and> \<not> rc_seenInFdb c \<and> \<not> rc_seenInLldp c"
  by (cases "rc_bridgePort c") (auto simp: cand_ok_def hasNoEvidence_def)


section \<open>Candidate maps\<close>

lemma cands_ok_update:
  "cands_ok ph m \<Longrightarrow> entry_ok ph k c \<Longrightarrow> cands_ok ph (AList.update k c m)"
  by (simp add: cands_ok_def distinct_update)

lemma cands_ok_delete: "cands_ok ph m \<Longrightarrow> cands_ok ph (AList.delete k m)"
  by (auto simp: cands_ok_def distinct_delete)

lemma cands_ok_map:
  assumes "cands_ok ph m" "\<And>k c. map_of m k = Some c \<Longrightarrow> entry_ok ph' k (f k c)"
  shows "cands_ok ph' (map (\<lambda>(k, c). (k, f k c)) m)"
proof -
  have "map fst (map (\<lambda>(k, c). (k, f k c)) m) = map fst m" by (induction m) auto
  then have "distinct_keys (map (\<lambda>(k, c). (k, f k c)) m)"
    using cands_okD(1)[OF assms(1)] by (simp only:)
  then show ?thesis unfolding cands_ok_def map_of_map_value using assms(2) by blast
qed

lemma settle_entry_ok:
  "cand_ok k c \<Longrightarrow> \<not> hasNoEvidence c \<Longrightarrow>
   entry_ok ph k (reconcileStatusLocked ph ev (updateClassification e c))"
  using reconcile_initializing[of ev "updateClassification e c"] by (cases ph) (auto simp: entry_ok_def)

lemma settle_candidate_ok:
  assumes "engine_ok e" "cand_ok k c"
  shows "engine_ok (fst (settle_candidate k ev w c e))"
  using assms
  by (auto simp: engine_ok_def settle_candidate_def Let_def
      intro!: cands_ok_update cands_ok_delete settle_entry_ok)

lemma settle_keepalive_ok:
  assumes "engine_ok e" "cand_ok k c"
    "en_phase e = Initializing \<Longrightarrow> rc_status c \<in> {Provisional, Removed}"
  shows "engine_ok (fst (settle_keepalive k w c e))"
  using assms
  by (auto simp: engine_ok_def settle_keepalive_def Let_def entry_ok_def
      intro!: cands_ok_update cands_ok_delete)


section \<open>The loops\<close>

lemma age_loop_map:
  "fst (age_loop cfg now m p) = map (\<lambda>(k, c). (k, age_candidate cfg now c)) m"
  by (induction cfg now m p rule: age_loop.induct) (simp_all add: Let_def case_prod_beta)

lemma restart_loop_map: "fst (restart_loop m p) = map (\<lambda>(k, c). (k, restart_candidate c)) m"
  by (induction m p rule: restart_loop.induct) (simp_all add: Let_def case_prod_beta)

text \<open>What \<open>markLive\<close> leaves of one entry.\<close>

definition promote :: "engine \<Rightarrow> remote_candidate \<Rightarrow> remote_candidate option" where
  "promote e c =
     (if rc_status c \<noteq> Provisional then Some c
      else if isConfirmedWorthy (en_classifier e c)
      then Some ((updateClassification e c)\<lparr>rc_status := Confirmed\<rparr>) else None)"

lemma markLive_loop_map_filter:
  "fst (markLive_loop e m p)
     = List.map_filter (\<lambda>(k, c). map_option (Pair k) (promote e c)) m"
  by (induction e m p rule: markLive_loop.induct)
     (simp_all add: promote_def List.map_filter_simps split_def Let_def)

lemma keys_map_filter_subset:
  "fst ` set (List.map_filter (\<lambda>(k, c). map_option (Pair k) (f c)) m) \<subseteq> fst ` set m"
  by (induction m) (auto simp: List.map_filter_simps split: option.splits)

lemma distinct_keys_map_filter:
  "distinct_keys m \<Longrightarrow> distinct_keys (List.map_filter (\<lambda>(k, c). map_option (Pair k) (f c)) m)"
proof (induction m)
  case (Cons kv m)
  then have "fst kv \<notin> fst ` set (List.map_filter (\<lambda>(k, c). map_option (Pair k) (f c)) m)"
    using keys_map_filter_subset[of f m] by auto
  then show ?case using Cons
    by (cases kv; cases "f (snd kv)") (auto simp: List.map_filter_simps)
qed (simp add: List.map_filter_simps)

lemma map_of_map_filter:
  "distinct_keys m \<Longrightarrow>
   map_of (List.map_filter (\<lambda>(k, c). map_option (Pair k) (f c)) m) k = Option.bind (map_of m k) f"
proof (induction m)
  case (Cons kv m)
  obtain k0 c0 where kv: "kv = (k0, c0)" by (cases kv)
  then have "map_of (List.map_filter (\<lambda>(k, c). map_option (Pair k) (f c)) m) k0 = None"
    using Cons.prems keys_map_filter_subset[of f m] by (auto simp: map_of_eq_None_iff)
  then show ?case using Cons kv by (auto simp: List.map_filter_simps split: option.splits)
qed (simp add: List.map_filter_simps)

lemma markLive_state:
  "fst (markLive td e) =
     e\<lparr>en_phase := Live,
       en_candidates := List.map_filter (\<lambda>(k, c). map_option (Pair k) (promote e c)) (en_candidates e)\<rparr>"
proof -
  have "promote (e\<lparr>en_phase := Live\<rparr>) = promote e"
    by (auto simp: promote_def updateClassification_def)
  then show ?thesis
    using markLive_loop_map_filter[of "e\<lparr>en_phase := Live\<rparr>" "en_candidates e" no_pending]
    by (auto simp: markLive_def Let_def split: prod.split)
qed

lemma engine_age_state:
  "fst (engine_age td now e) =
     e\<lparr>en_candidates := map (\<lambda>(k, c). (k, age_candidate (en_config e) now c)) (en_candidates e)\<rparr>"
  using age_loop_map[of "en_config e" now "en_candidates e" no_pending]
  by (auto simp: engine_age_def split: prod.split)

lemma prepareForRestart_state:
  "fst (prepareForRestart td e) =
     e\<lparr>en_phase := Initializing, en_localState := new_tracker,
       en_candidates := map (\<lambda>(k, c). (k, restart_candidate c)) (en_candidates e)\<rparr>"
  using restart_loop_map[of "en_candidates e" no_pending]
  by (auto simp: prepareForRestart_def Let_def tracker_clear_new split: prod.split)

lemma markLive_map_of:
  "distinct_keys (en_candidates e) \<Longrightarrow>
   map_of (en_candidates (fst (markLive td e))) k = Option.bind (map_of (en_candidates e) k) (promote e)"
  by (simp add: markLive_state map_of_map_filter)


section \<open>Preservation by each call\<close>

lemma new_engine_ok:
  "needs_evidence (createClassifier (mc_classifierConfig cfg)) \<Longrightarrow> engine_ok (new_engine cfg)"
  by (simp add: engine_ok_def new_engine_def cands_ok_def new_tracker_ok)

lemma mark_local_self_entry: "cand_ok k c \<Longrightarrow> entry_ok ph k (mark_local_self c)"
  by (simp add: entry_ok_def)

lemma reconcileByKey_ok [wf_intros]: "engine_ok e \<Longrightarrow> engine_ok (reconcileByKey mac e)"
  by (auto simp: engine_ok_def reconcileByKey_def split: option.splits
      intro!: cands_ok_update mark_local_self_entry dest: cands_okD entry_okD)

lemma reconcileByIp_ok [wf_intros]:
  assumes "engine_ok e" shows "engine_ok (reconcileAffectedByLocalIp ip e)"
proof -
  have c: "cands_ok (en_phase e) (en_candidates e)" using assms by (simp add: engine_ok_def)
  have "entry_ok (en_phase e) k c" "entry_ok (en_phase e) k (mark_local_self c)"
    if "map_of (en_candidates e) k = Some c" for k c
    using cands_okD(2)[OF c that] mark_local_self_entry[OF entry_okD] by blast+
  then show ?thesis
    using assms unfolding engine_ok_def reconcileAffectedByLocalIp_def
    by (auto intro!: cands_ok_map[OF c])
qed

lemma engine_ok_localState:
  "engine_ok e \<Longrightarrow> tracker_ok ls \<Longrightarrow> engine_ok (e\<lparr>en_localState := ls\<rparr>)"
  by (simp add: engine_ok_def)

lemma onLink_ok [wf_intros]:
  assumes "engine_ok e" "lo_ifname obs \<noteq> []"
  shows "engine_ok (fst (engine_onLinkObservation td obs e))"
proof -
  have "tracker_ok (fst (tracker_onLinkObservation obs (en_localState e)))"
    using assms by (simp add: engine_ok_def tracker_onLinkObservation_ok)
  then show ?thesis using assms(1)
    by (auto simp: engine_onLinkObservation_def reconcileAffectedByLocalMac_def Let_def split_def
        intro: wf_intros engine_ok_localState)
qed

lemma onAddress_ok [wf_intros]:
  assumes "engine_ok e" shows "engine_ok (fst (engine_onAddressObservation td obs e))"
proof -
  have "tracker_ok (fst (tracker_onAddressObservation obs (en_localState e)))"
    using assms by (simp add: engine_ok_def tracker_onAddressObservation_ok)
  then show ?thesis using assms
    by (auto simp: engine_onAddressObservation_def Let_def split_def
        intro: wf_intros engine_ok_localState)
qed

lemma engine_ok_cands: "engine_ok e \<Longrightarrow> cands_ok (en_phase e) (en_candidates e)"
  by (simp add: engine_ok_def)

lemma onNeighbor_ok [wf_intros]:
  "engine_ok e \<Longrightarrow> engine_ok (fst (engine_onNeighborObservation pton tc td obs e))"
  by (simp add: engine_onNeighborObservation_def Let_def split_def settle_candidate_ok
      apply_neighbor_ok getOrCreate_ok[OF engine_ok_cands])

lemma onFdb_ok [wf_intros]:
  "engine_ok e \<Longrightarrow> engine_ok (fst (engine_onFdbObservation tc td obs e))"
  by (simp add: engine_onFdbObservation_def Let_def split_def settle_candidate_ok
      apply_fdb_ok getOrCreate_ok[OF engine_ok_cands])

lemma getOrCreate_initializing:
  "engine_ok e \<Longrightarrow> en_phase e = Initializing \<Longrightarrow>
   rc_status (getOrCreateCandidate tc k e) \<in> {Provisional, Removed}"
  by (auto simp: engine_ok_def cands_ok_def entry_ok_def getOrCreateCandidate_def empty_candidate_def
      split: option.splits)

lemma apply_lldp_status [simp]: "rc_status (apply_lldp obs c) = rc_status c"
  by (simp add: apply_lldp_def)

lemma onLldp_ok [wf_intros]:
  assumes "engine_ok e" shows "engine_ok (fst (engine_onLldpObservation tc td obs e))"
proof -
  let ?k = "resolveLldpIdentity (ll_remoteChassisId obs) (ll_remotePortId obs)"
  have "cand_ok ?k (apply_lldp obs (getOrCreateCandidate tc ?k e))"
    by (simp add: apply_lldp_ok getOrCreate_ok[OF engine_ok_cands[OF assms]])
  then show ?thesis
    using settle_candidate_ok[OF assms] settle_keepalive_ok[OF assms] getOrCreate_initializing[OF assms] assms
    by (auto simp: engine_onLldpObservation_def Let_def split_def)
qed

lemma age_candidate_frame:
  "cand_ok k (age_candidate cfg now c) = cand_ok k c"
  "hasNoEvidence (age_candidate cfg now c) = hasNoEvidence c"
  "rc_status c \<in> {Provisional, Removed} \<Longrightarrow> age_candidate cfg now c = c"
  by (auto simp: age_candidate_def Let_def)

lemma age_entry_ok: "entry_ok ph k c \<Longrightarrow> entry_ok ph k (age_candidate cfg now c)"
  by (cases "rc_status c \<in> {Provisional, Removed}") (auto simp: entry_ok_def age_candidate_frame)

lemma age_ok [wf_intros]: "engine_ok e \<Longrightarrow> engine_ok (fst (engine_age td now e))"
  by (auto simp: engine_ok_def engine_age_state intro!: cands_ok_map age_entry_ok cands_okD(2))

lemma restart_entry_ok: "cand_ok k c \<Longrightarrow> entry_ok ph k (restart_candidate c)"
  by (simp add: entry_ok_def cand_ok_def restart_candidate_def)

lemma prepareForRestart_ok [wf_intros]: "engine_ok e \<Longrightarrow> engine_ok (fst (prepareForRestart td e))"
  by (auto simp: engine_ok_def prepareForRestart_state new_tracker_ok
      intro!: cands_ok_map restart_entry_ok entry_okD cands_okD(2))

lemma promote_entry_ok:
  "entry_ok ph k c \<Longrightarrow> needs_evidence (en_classifier e) \<Longrightarrow> promote e c = Some d \<Longrightarrow> entry_ok Live k d"
  by (auto simp: entry_ok_def promote_def needs_evidence_def split: if_splits)

lemma markLive_fields [frame_simps]:
  "en_phase (fst (markLive td e)) = Live"
  "en_localState (fst (markLive td e)) = en_localState e"
  "en_classifier (fst (markLive td e)) = en_classifier e"
  by (simp_all add: markLive_state)

lemma markLive_distinct:
  "distinct_keys (en_candidates e) \<Longrightarrow> distinct_keys (en_candidates (fst (markLive td e)))"
  by (simp add: markLive_state distinct_keys_map_filter)

lemma markLive_ok [wf_intros]:
  assumes "engine_ok e" shows "engine_ok (fst (markLive td e))"
proof -
  have c: "cands_ok (en_phase e) (en_candidates e)" and n: "needs_evidence (en_classifier e)"
    using assms by (simp_all add: engine_ok_def)
  have "cands_ok Live (en_candidates (fst (markLive td e)))"
    unfolding cands_ok_def markLive_map_of[OF cands_okD(1)[OF c]]
    using markLive_distinct[OF cands_okD(1)[OF c]] promote_entry_ok[OF cands_okD(2)[OF c] n]
    by (auto simp: bind_eq_Some_conv)
  then show ?thesis using assms by (simp add: engine_ok_def frame_simps)
qed

lemma setClassifier_ok [wf_intros]:
  "engine_ok e \<Longrightarrow> needs_evidence cl \<Longrightarrow> engine_ok (setClassifier cl e)"
  by (auto simp: engine_ok_def setClassifier_def Let_def entry_ok_def
      intro!: cands_ok_map dest: cands_okD)


section \<open>Reachable states\<close>

text \<open>
  The two conditions on a call: a link observation names its interface, and an installed classifier
  does not promote a candidate without evidence.
\<close>

fun op_admissible :: "engine_op \<Rightarrow> bool" where
  "op_admissible (OpLink obs) \<longleftrightarrow> lo_ifname obs \<noteq> []"
| "op_admissible (OpSetClassifier cl) \<longleftrightarrow> needs_evidence cl"
| "op_admissible _ \<longleftrightarrow> True"

text \<open>
  The states reached by admissible calls; \<open>C\<close> restricts the calls further, depending on the state
  they are made in (no restriction is \<open>any_call\<close>).
\<close>

definition any_call :: "engine_op \<Rightarrow> engine \<Rightarrow> bool" where
  "any_call op e = True"

inductive engine_reachable ::
  "(engine_op \<Rightarrow> engine \<Rightarrow> bool) \<Rightarrow> (string \<Rightarrow> 32 word option) \<Rightarrow> model_config \<Rightarrow> engine \<Rightarrow> bool"
  for C pton cfg where
  start: "needs_evidence (createClassifier (mc_classifierConfig cfg)) \<Longrightarrow>
          engine_reachable C pton cfg (new_engine cfg)"
| step: "engine_reachable C pton cfg e \<Longrightarrow> op_admissible op \<Longrightarrow> C op e \<Longrightarrow>
         engine_reachable C pton cfg (fst (engine_step pton tc td op e))"

lemma engine_step_ok:
  "engine_ok e \<Longrightarrow> op_admissible op \<Longrightarrow> engine_ok (fst (engine_step pton tc td op e))"
  by (cases op) (simp_all add: wf_intros, simp_all add: engine_ok_def setEventSink_def setInterfacePolicy_def)

lemma engine_reachable_ok: "engine_reachable C pton cfg e \<Longrightarrow> engine_ok e"
  by (induction rule: engine_reachable.induct) (simp_all add: new_engine_ok engine_step_ok)

end
