(* ===== verification/Event_Sourcing.thy ===== *)
theory Event_Sourcing
  imports Main
begin

text \<open>
  Runs of operations that deliver events, and the contract of a component whose events tell its
  clients the state: the events of each operation carry the view of the state before to the view of
  the state after. The contract lifts to runs.
\<close>

fun run :: "('op \<Rightarrow> 's \<Rightarrow> 's \<times> 'ev list) \<Rightarrow> 'op list \<Rightarrow> 's \<Rightarrow> 's \<times> 'ev list" where
  "run step [] s = (s, [])"
| "run step (op # ops) s =
     (let (s1, evs) = step op s; (s2, evs2) = run step ops s1 in (s2, evs @ evs2))"

fun run_adm :: "('op \<Rightarrow> 's \<Rightarrow> bool) \<Rightarrow> ('op \<Rightarrow> 's \<Rightarrow> 's \<times> 'ev list) \<Rightarrow> 'op list \<Rightarrow> 's \<Rightarrow> bool" where
  "run_adm adm step [] s \<longleftrightarrow> True"
| "run_adm adm step (op # ops) s \<longleftrightarrow> adm op s \<and> run_adm adm step ops (fst (step op s))"

locale event_sourced =
  fixes ok :: "'s \<Rightarrow> bool"
    and view :: "'s \<Rightarrow> 'v"
    and ap :: "'ev \<Rightarrow> 'v \<Rightarrow> 'v"
    and adm :: "'op \<Rightarrow> 's \<Rightarrow> bool"
    and step :: "'op \<Rightarrow> 's \<Rightarrow> 's \<times> 'ev list"
  assumes step_ok: "ok s \<Longrightarrow> adm op s \<Longrightarrow> ok (fst (step op s))"
    and step_view: "ok s \<Longrightarrow> adm op s \<Longrightarrow> fold ap (snd (step op s)) (view s) = view (fst (step op s))"
begin

lemma run_view:
  "ok s \<Longrightarrow> run_adm adm step ops s \<Longrightarrow>
   ok (fst (run step ops s)) \<and> fold ap (snd (run step ops s)) (view s) = view (fst (run step ops s))"
proof (induction ops arbitrary: s)
  case (Cons op ops)
  obtain s1 evs where s: "step op s = (s1, evs)" by (cases "step op s")
  with Cons.prems step_ok[of s op] step_view[of s op] have "ok s1" "fold ap evs (view s) = view s1" by auto
  with Cons s show ?case by (simp add: case_prod_beta)
qed simp

end


section \<open>Announcements and re-reading\<close>

text \<open>
  The other way to follow a component: an operation announces only keys, and a client reads an
  announced key when the announcement reaches it, from the state as it is then. The state, the
  announcements on their way and what the client holds change by operations and by deliveries.
\<close>

datatype 'op link_op = LinkStep 'op | LinkDeliver

type_synonym ('s, 'k, 'v) link = "'s \<times> 'k list \<times> ('k \<Rightarrow> 'v option)"

fun link_step ::
  "('op \<Rightarrow> 's \<Rightarrow> 's \<times> 'k list) \<Rightarrow> ('s \<Rightarrow> 'k \<Rightarrow> 'v option) \<Rightarrow> 'op link_op \<Rightarrow> ('s, 'k, 'v) link \<Rightarrow> ('s, 'k, 'v) link" where
  "link_step step read (LinkStep op) (s, wire, client) = (let (s', ks) = step op s in (s', wire @ ks, client))"
| "link_step step read LinkDeliver (s, wire, client) =
     (case wire of [] \<Rightarrow> (s, [], client) | k # ks \<Rightarrow> (s, ks, client(k := read s k)))"

fun link_adm :: "('op \<Rightarrow> bool) \<Rightarrow> 'op link_op \<Rightarrow> bool" where
  "link_adm adm (LinkStep op) \<longleftrightarrow> adm op"
| "link_adm adm LinkDeliver \<longleftrightarrow> True"

locale announced_view =
  fixes ok :: "'s \<Rightarrow> bool"
    and adm :: "'op \<Rightarrow> bool"
    and step :: "'op \<Rightarrow> 's \<Rightarrow> 's \<times> 'k list"
    and key :: "'k \<Rightarrow> bool"
    and view :: "'s \<Rightarrow> 'k \<Rightarrow> 'v option"
    and read :: "'s \<Rightarrow> 'k \<Rightarrow> 'v option"
  assumes announced_ok: "ok s \<Longrightarrow> adm op \<Longrightarrow> ok (fst (step op s))"
    and announced_key: "ok s \<Longrightarrow> adm op \<Longrightarrow> k \<in> set (snd (step op s)) \<Longrightarrow> key k"
    and announced_all: "ok s \<Longrightarrow> adm op \<Longrightarrow> k \<notin> set (snd (step op s)) \<Longrightarrow> view (fst (step op s)) k = view s k"
    and read_view: "ok s \<Longrightarrow> key k \<Longrightarrow> read s k = view s k"
begin

definition in_sync :: "('s, 'k, 'v) link \<Rightarrow> bool" where
  "in_sync l \<longleftrightarrow> (case l of (s, wire, client) \<Rightarrow>
     ok s \<and> (\<forall>k \<in> set wire. key k) \<and> (\<forall>k. k \<notin> set wire \<longrightarrow> client k = view s k))"

lemma in_sync_step: "in_sync l \<Longrightarrow> link_adm adm op \<Longrightarrow> in_sync (link_step step read op l)"
proof (cases l)
  case (fields s wire client)
  assume "in_sync l" "link_adm adm op"
  then show ?thesis
  proof (cases op)
    case (LinkStep o')
    then show ?thesis
      using \<open>in_sync l\<close> \<open>link_adm adm op\<close> fields announced_ok[of s o'] announced_key[of s o'] announced_all[of s o']
      by (cases "step o' s") (auto simp: in_sync_def)
  next
    case LinkDeliver
    then show ?thesis using \<open>in_sync l\<close> fields read_view[of s] by (cases wire) (auto simp: in_sync_def)
  qed
qed

lemma client_exact:
  assumes "ok s" "\<forall>op \<in> set ops. link_adm adm op"
    and "fold (link_step step read) ops (s, [], view s) = (s', [], client)"
  shows "client = view s'"
proof -
  have "in_sync (fold (link_step step read) ops l)" if "in_sync l" for l
    using that assms(2)
  proof (induction ops arbitrary: l)
    case (Cons op ops)
    then show ?case using in_sync_step[of l op] by simp
  qed simp
  from this[of "(s, [], view s)"] have "in_sync (s', [], client)" using assms(1,3) by (simp add: in_sync_def)
  then show ?thesis by (simp add: in_sync_def fun_eq_iff)
qed

end

end
