(* ===== verification/Engine_View.thy ===== *)
theory Engine_View
  imports Engine_Invariant Event_Sourcing
begin

text \<open>
  What a client of the observation model sees. The abstract state is the set of MACs a client may
  look up (\<open>visible\<close>); the abstract transition is the replay of the delivered events, where
  \<open>CandidateUpdated\<close> adds a MAC and \<open>CandidateRemoved\<close> deletes it. The engine is an interpretation of
  the locale \<open>event_sourced\<close>.
\<close>

definition visible :: "engine \<Rightarrow> string set" where
  "visible e = {k. findCandidateByMac k e \<noteq> None}"

definition apply_event :: "model_event \<Rightarrow> string set \<Rightarrow> string set" where
  "apply_event ev V =
     (case (me_kind ev, me_mac ev) of
        (CandidateUpdated, Some m) \<Rightarrow> insert m V
      | (CandidateRemoved, Some m) \<Rightarrow> V - {m}
      | _ \<Rightarrow> V)"

definition replay :: "model_event list \<Rightarrow> string set \<Rightarrow> string set" where
  "replay evs V = fold apply_event evs V"

section \<open>Replaying delivered events\<close>

lemma visible_iff: "k \<in> visible e \<longleftrightarrow> (\<exists>c. map_of (en_candidates e) k = Some c \<and> isPublishable c)"
  by (auto simp: visible_def findCandidateByMac_def split: option.splits)

lemma replay_simps [simp]:
  "replay [] V = V"
  "replay (ev # evs) V = replay evs (apply_event ev V)"
  "replay (xs @ ys) V = replay ys (replay xs V)"
  by (simp_all add: replay_def)

lemma replay_updated: "replay (map (candidate_event CandidateUpdated t) ms) V = V \<union> set ms"
  by (induction ms arbitrary: V) (auto simp: apply_event_def candidate_event_def)

lemma replay_removed: "replay (map (candidate_event CandidateRemoved t) ms) V = V - set ms"
  by (induction ms arbitrary: V) (auto simp: apply_event_def candidate_event_def)

lemma replay_deliver:
  "finite (pe_changed p) \<Longrightarrow> finite (pe_removed p) \<Longrightarrow>
   replay (deliverPending True td p) V = (V \<union> pe_changed p) - pe_removed p"
  by (simp add: deliverPending_def replay_updated replay_removed)

lemma pe_simps [simp]:
  "pe_changed no_pending = {}" "pe_removed no_pending = {}"
  "pe_changed (pe_record m w n p) = (if n then insert m (pe_changed p) else pe_changed p)"
  "pe_removed (pe_record m w n p) = (if w \<and> \<not> n then insert m (pe_removed p) else pe_removed p)"
  "pe_changed (pe_recordErased m w p) = pe_changed p"
  "pe_removed (pe_recordErased m w p) = (if w then insert m (pe_removed p) else pe_removed p)"
  by (simp_all add: no_pending_def pe_record_def pe_recordErased_def)

text \<open>An update or erasure at one key moves the view at that key only.\<close>

lemma visible_update:
  "visible (e\<lparr>en_candidates := AList.update k c (en_candidates e)\<rparr>)
     = (if isPublishable c then insert k (visible e) else visible e - {k})"
  by (auto simp: visible_iff split: if_splits)

lemma visible_delete:
  "visible (e\<lparr>en_candidates := AList.delete k (en_candidates e)\<rparr>) = visible e - {k}"
  by (auto simp: visible_iff split: if_splits)

lemma getOrCreate_publishable: "isPublishable (getOrCreateCandidate tc k e) \<longleftrightarrow> k \<in> visible e"
  by (auto simp: getOrCreateCandidate_def visible_iff empty_candidate_def isPublishable_def split: option.splits)

lemma settle_candidate_view:
  assumes "w \<longleftrightarrow> k \<in> visible e" "settle_candidate k ev w c e = (e', p)"
  shows "replay (deliverPending True td p) (visible e) = visible e'"
proof (cases "hasNoEvidence c")
  case True
  then show ?thesis using assms
    by (auto simp: settle_candidate_def replay_deliver visible_delete)
next
  case False
  then show ?thesis using assms
    by (auto simp: settle_candidate_def Let_def replay_deliver visible_update)
qed

lemma settle_keepalive_view:
  assumes "w \<longleftrightarrow> k \<in> visible e" "settle_keepalive k w c e = (e', p)" "isPublishable c \<longleftrightarrow> w"
  shows "replay (deliverPending True td p) (visible e) = visible e'"
proof (cases "hasNoEvidence c")
  case True
  then show ?thesis using assms
    by (auto simp: settle_keepalive_def replay_deliver visible_delete)
next
  case False
  then show ?thesis using assms
    by (auto simp: settle_keepalive_def Let_def replay_deliver visible_update isPublishable_def
        split: if_splits)
qed


section \<open>The loops\<close>

lemma age_loop_pending:
  "pe_changed (snd (age_loop cfg now m p)) = pe_changed p \<union>
     {k. \<exists>c. (k, c) \<in> set m \<and> rc_status (age_candidate cfg now c) \<noteq> rc_status c
            \<and> isPublishable (age_candidate cfg now c)}"
  "pe_removed (snd (age_loop cfg now m p)) = pe_removed p \<union>
     {k. \<exists>c. (k, c) \<in> set m \<and> rc_status (age_candidate cfg now c) \<noteq> rc_status c
            \<and> isPublishable c \<and> \<not> isPublishable (age_candidate cfg now c)}"
  by (induction cfg now m p rule: age_loop.induct) (auto simp: Let_def case_prod_beta)

lemma restart_loop_pending:
  "pe_changed (snd (restart_loop m p)) = pe_changed p"
  "pe_removed (snd (restart_loop m p)) = pe_removed p \<union> {k. \<exists>c. (k, c) \<in> set m \<and> isPublishable c}"
  by (induction m p rule: restart_loop.induct) (auto simp: Let_def case_prod_beta)

lemma markLive_loop_pending:
  "pe_changed (snd (markLive_loop e m p)) = pe_changed p \<union>
     {k. \<exists>c. (k, c) \<in> set m \<and> rc_status c = Provisional \<and> isConfirmedWorthy (en_classifier e c)}"
  "pe_removed (snd (markLive_loop e m p)) = pe_removed p"
  by (induction e m p rule: markLive_loop.induct) (auto simp: Let_def case_prod_beta)

lemma finite_entries: "finite {k. \<exists>c. (k, c) \<in> set m \<and> P k c}"
  by (rule finite_subset[of _ "fst ` set m"]) force+

lemma age_candidate_same: "rc_status (age_candidate cfg now c) = rc_status c \<Longrightarrow> age_candidate cfg now c = c"
  by (auto simp: age_candidate_def Let_def split: if_splits)

lemma age_view:
  assumes d: "distinct_keys (en_candidates e)" and s: "en_sink e"
  shows "replay (snd (engine_age td now e)) (visible e) = visible (fst (engine_age td now e))"
proof -
  let ?p = "snd (age_loop (en_config e) now (en_candidates e) no_pending)"
  let ?a = "age_candidate (en_config e) now"
  have snd: "snd (engine_age td now e) = deliverPending True td ?p"
    using s by (simp add: engine_age_def case_prod_beta)
  have "replay (deliverPending True td ?p) (visible e) = (visible e \<union> pe_changed ?p) - pe_removed ?p"
    by (rule replay_deliver) (simp_all add: age_loop_pending finite_entries)
  also have "\<dots> = visible (fst (engine_age td now e))"
  proof (rule set_eqI)
    fix k
    have step: "map_of (en_candidates (fst (engine_age td now e))) k = map_option ?a (map_of (en_candidates e) k)"
      by (simp add: engine_age_state map_of_map_value)
    show "k \<in> visible e \<union> pe_changed ?p - pe_removed ?p \<longleftrightarrow> k \<in> visible (fst (engine_age td now e))"
    proof (cases "map_of (en_candidates e) k")
      case None
      then have "(k, c) \<notin> set (en_candidates e)" for c using d by (metis in_set_map_of option.distinct(1))
      with None show ?thesis by (simp add: visible_iff step age_loop_pending)
    next
      case (Some c)
      have "(k, c') \<in> set (en_candidates e) \<longleftrightarrow> c' = c" for c' using Some in_set_map_of[OF d] by auto
      with Some age_candidate_same[of "en_config e" now c] show ?thesis
        unfolding Un_iff Diff_iff visible_iff step age_loop_pending by auto
    qed
  qed
  finally show ?thesis by (simp add: snd)
qed

lemma restart_not_publishable: "\<not> isPublishable (restart_candidate c)"
  by (simp add: restart_candidate_def isPublishable_def)

lemma prepareForRestart_view:
  assumes d: "distinct_keys (en_candidates e)" and s: "en_sink e"
  shows "replay (snd (prepareForRestart td e)) (visible e) = {}" "visible (fst (prepareForRestart td e)) = {}"
proof -
  have snd: "snd (prepareForRestart td e)
      = deliverPending True td (snd (restart_loop (en_candidates e) no_pending))"
    using s by (simp add: prepareForRestart_def case_prod_beta Let_def)
  have "visible e \<subseteq> {k. \<exists>c. (k, c) \<in> set (en_candidates e) \<and> isPublishable c}"
    using map_of_SomeD by (fastforce simp: visible_iff)
  then show "replay (snd (prepareForRestart td e)) (visible e) = {}"
    unfolding snd by (subst replay_deliver) (auto simp: restart_loop_pending finite_entries)
  show "visible (fst (prepareForRestart td e)) = {}"
    by (auto simp: visible_iff prepareForRestart_state map_of_map_value restart_not_publishable)
qed

lemma worthy_publishable: "isConfirmedWorthy (rc_classification c) \<Longrightarrow> isPublishable (c\<lparr>rc_status := Confirmed\<rparr>)"
  by (simp add: isConfirmedWorthy_def isPublishable_def split: candidate_classification.splits)

lemma markLive_view:
  assumes d: "distinct_keys (en_candidates e)" and s: "en_sink e"
  shows "replay (snd (markLive td e)) (visible e) = visible (fst (markLive td e))"
proof -
  let ?p = "snd (markLive_loop (e\<lparr>en_phase := Live\<rparr>) (en_candidates e) no_pending)"
  have snd: "snd (markLive td e) = deliverPending True td ?p"
    using s by (simp add: markLive_def case_prod_beta Let_def)
  have "replay (deliverPending True td ?p) (visible e) = visible e \<union> pe_changed ?p"
    by (subst replay_deliver) (simp_all add: markLive_loop_pending finite_entries)
  also have "\<dots> = visible (fst (markLive td e))"
  proof (rule set_eqI)
    fix k
    show "k \<in> visible e \<union> pe_changed ?p \<longleftrightarrow> k \<in> visible (fst (markLive td e))"
    proof (cases "map_of (en_candidates e) k")
      case None
      then have "(k, c) \<notin> set (en_candidates e)" for c using d by (metis in_set_map_of option.distinct(1))
      with None show ?thesis by (simp add: visible_iff markLive_map_of[OF d] markLive_loop_pending)
    next
      case (Some c)
      have mem: "(k, c') \<in> set (en_candidates e) \<longleftrightarrow> c' = c" for c' using Some in_set_map_of[OF d] by auto
      have "isPublishable c \<Longrightarrow> rc_status c \<noteq> Provisional" by (auto simp: isPublishable_def)
      with Some mem worthy_publishable[of "updateClassification e c"] show ?thesis
        unfolding Un_iff visible_iff markLive_map_of[OF d] markLive_loop_pending
        by (auto simp: promote_def)
    qed
  qed
  finally show ?thesis by (simp add: snd)
qed


section \<open>Local observations\<close>

lemma link_event_frame [simp]:
  "me_mac ev = None \<Longrightarrow> apply_event ev V = V"
  by (simp add: apply_event_def split: model_event_kind.splits)

text \<open>
  A link observation hides the candidate whose MAC the interface acquires. On removal, or for an
  interface without a MAC, the candidate named by the observation stays as it is although the event
  is emitted, so the view is exact only when no such candidate is visible.
\<close>

lemma link_present_local:
  assumes "tracker_ok t" "lo_event obs = Present" "lo_mac obs \<noteq> []" "snd (tracker_onLinkObservation obs t)"
  shows "isLocalMac (lo_mac obs) (fst (tracker_onLinkObservation obs t))"
proof -
  have "mac_counts_ok t" using assms(1) by (rule tracker_okD)
  then have "lo_mac obs \<in> ls_localMacs (lt_snapshot (link_counted obs t))"
    using assms(2-4)
    by (auto simp: link_present_unfold link_counted_def Let_def
        intro!: mac_counter.members_inc mac_counter.ok_dec)
  then show ?thesis using assms(2) by (simp add: link_present_unfold isLocalMac_def frame_simps)
qed

lemma reconcileByKey_view:
  "visible (reconcileByKey k e) = (if isLocalMac k (en_localState e) then visible e - {k} else visible e)"
proof (cases "map_of (en_candidates e) k")
  case None
  then have "k \<notin> visible e" by (simp add: visible_iff)
  then show ?thesis using None by (simp add: reconcileByKey_def)
next
  case (Some c)
  then show ?thesis by (simp add: reconcileByKey_def visible_update)
qed

lemma visible_localState [simp]: "visible (e\<lparr>en_localState := ls\<rparr>) = visible e"
  by (simp add: visible_iff set_eq_iff)

lemma link_view:
  assumes s: "en_sink e" and ok: "tracker_ok (en_localState e)"
    and adm: "lo_mac obs \<notin> visible e \<or> (lo_event obs = Present \<and> lo_mac obs \<noteq> [])"
  shows "replay (snd (engine_onLinkObservation td obs e)) (visible e)
       = visible (fst (engine_onLinkObservation td obs e))"
proof (cases "ip_includeInLocalState (en_interfacePolicy e) (lo_ifname obs)")
  case True
  obtain ls ch where t: "tracker_onLinkObservation obs (en_localState e) = (ls, ch)" by fastforce
  have w: "(case map_of (en_candidates e) (lo_mac obs) of Some c \<Rightarrow> isPublishable c | None \<Rightarrow> False)
             \<longleftrightarrow> lo_mac obs \<in> visible e"
    by (auto simp: visible_iff split: option.splits)
  have loc: "lo_mac obs \<in> visible e \<Longrightarrow> ch \<Longrightarrow> isLocalMac (lo_mac obs) ls"
    using adm link_present_local[OF ok, of obs] t by auto
  show ?thesis
    using True s t loc
    by (auto simp: engine_onLinkObservation_def Let_def w replay_deliver reconcileAffectedByLocalMac_def
        reconcileByKey_view)
qed (simp add: engine_onLinkObservation_def)

lemma reconcileByIp_view:
  "visible (reconcileAffectedByLocalIp ip e)
     = visible e - {k. \<exists>c. map_of (en_candidates e) k = Some c \<and> ip \<in> rc_ipv4 c \<union> rc_ipv6 c}"
proof (rule set_eqI)
  fix k
  show "k \<in> visible (reconcileAffectedByLocalIp ip e) \<longleftrightarrow>
        k \<in> visible e - {k. \<exists>c. map_of (en_candidates e) k = Some c \<and> ip \<in> rc_ipv4 c \<union> rc_ipv6 c}"
    by (cases "map_of (en_candidates e) k")
       (simp_all add: visible_iff reconcileAffectedByLocalIp_def map_of_map_value)
qed

lemma address_view:
  assumes d: "distinct_keys (en_candidates e)" and s: "en_sink e"
  shows "replay (snd (engine_onAddressObservation td obs e)) (visible e)
       = visible (fst (engine_onAddressObservation td obs e))"
proof -
  let ?ip = "extractIpFromCidr (ao_cidr obs)"
  let ?hit = "{k. \<exists>c. map_of (en_candidates e) k = Some c \<and> ?ip \<in> rc_ipv4 c \<union> rc_ipv6 c}"
  have removed: "fst ` {x \<in> set (en_candidates e).
        case x of (mac, c) \<Rightarrow> (?ip \<in> rc_ipv4 c \<or> ?ip \<in> rc_ipv6 c) \<and> isPublishable c} = ?hit \<inter> visible e"
    unfolding visible_iff set_eq_iff in_set_map_of[OF d, symmetric]
    by (force simp: visible_iff image_iff in_set_map_of[OF d])
  have "finite (visible e)"
    by (rule finite_subset[of _ "fst ` set (en_candidates e)"])
       (force simp: visible_iff dest!: map_of_SomeD)+
  moreover have "visible e - ?hit \<inter> visible e = visible e - ?hit" by blast
  ultimately show ?thesis using s
    by (simp add: engine_onAddressObservation_def Let_def replay_deliver removed reconcileByIp_view)
qed


section \<open>Remote-candidate observations\<close>

lemma neighbor_view:
  "en_sink e \<Longrightarrow> replay (snd (engine_onNeighborObservation pton tc td obs e)) (visible e)
       = visible (fst (engine_onNeighborObservation pton tc td obs e))"
  by (auto simp: engine_onNeighborObservation_def Let_def
      settle_candidate_view[OF getOrCreate_publishable] split: prod.split)

lemma fdb_view:
  "en_sink e \<Longrightarrow> replay (snd (engine_onFdbObservation tc td obs e)) (visible e)
       = visible (fst (engine_onFdbObservation tc td obs e))"
  by (auto simp: engine_onFdbObservation_def Let_def
      settle_candidate_view[OF getOrCreate_publishable] split: prod.split)

lemma apply_lldp_publishable [simp]: "isPublishable (apply_lldp obs c) = isPublishable c"
  by (simp add: apply_lldp_def isPublishable_def)

lemma lldp_view:
  "en_sink e \<Longrightarrow> replay (snd (engine_onLldpObservation tc td obs e)) (visible e)
       = visible (fst (engine_onLldpObservation tc td obs e))"
  by (auto simp: engine_onLldpObservation_def Let_def
      settle_candidate_view[OF getOrCreate_publishable]
      settle_keepalive_view[OF getOrCreate_publishable] split: prod.split)


section \<open>The engine is event sourced\<close>

text \<open>
  Calls whose events tell the whole story: a classifier exchange emits nothing, and a link
  observation must not name a visible candidate unless the interface acquires its MAC.
\<close>

fun op_exact :: "engine_op \<Rightarrow> engine \<Rightarrow> bool" where
  "op_exact (OpLink obs) e \<longleftrightarrow>
     lo_mac obs \<notin> visible e \<or> (lo_event obs = Present \<and> lo_mac obs \<noteq> [])"
| "op_exact (OpSetClassifier cl) e \<longleftrightarrow> visible (setClassifier cl e) = visible e"
| "op_exact (OpSetEventSink s) e \<longleftrightarrow> s"
| "op_exact _ e \<longleftrightarrow> True"

definition timed_step ::
  "(string \<Rightarrow> 32 word option) \<Rightarrow> time_point \<times> time_point \<times> engine_op \<Rightarrow> engine
     \<Rightarrow> engine \<times> model_event list" where
  "timed_step pton call e = (case call of (tc, td, op) \<Rightarrow> engine_step pton tc td op e)"

definition timed_adm :: "time_point \<times> time_point \<times> engine_op \<Rightarrow> engine \<Rightarrow> bool" where
  "timed_adm call e \<longleftrightarrow> (case call of (_, _, op) \<Rightarrow> op_admissible op \<and> op_exact op e)"

lemma engine_step_view:
  assumes "engine_ok e" "en_sink e" "op_exact op e"
  shows "replay (snd (engine_step pton tc td op e)) (visible e) = visible (fst (engine_step pton tc td op e))"
proof -
  have d: "distinct_keys (en_candidates e)" using assms(1) by (simp add: engine_ok_def cands_ok_def)
  have t: "tracker_ok (en_localState e)" using assms(1) by (simp add: engine_ok_def)
  have frame: "visible (setEventSink x e) = visible e" "visible (setInterfacePolicy y e) = visible e" for x y
    by (auto simp: visible_iff setEventSink_def setInterfacePolicy_def)
  show ?thesis
    using assms d t link_view address_view neighbor_view fdb_view lldp_view age_view
      prepareForRestart_view markLive_view
    by (cases op) (simp_all add: frame)
qed

lemma settle_sink [frame_simps]:
  "en_sink (fst (settle_candidate k ev w c e)) = en_sink e"
  "en_sink (fst (settle_keepalive k w c e)) = en_sink e"
  "en_sink (reconcileByKey k e) = en_sink e"
  "en_sink (reconcileAffectedByLocalIp k e) = en_sink e"
  by (simp_all add: settle_candidate_def settle_keepalive_def reconcileByKey_def
      reconcileAffectedByLocalIp_def Let_def split: option.splits)

lemma engine_step_sink:
  "op_exact op e \<Longrightarrow> en_sink e \<Longrightarrow> en_sink (fst (engine_step pton tc td op e))"
  by (cases op)
     (simp_all add: engine_onLinkObservation_def engine_onAddressObservation_def
       engine_onNeighborObservation_def engine_onFdbObservation_def engine_onLldpObservation_def
       engine_age_state prepareForRestart_state markLive_state setEventSink_def setInterfacePolicy_def
       setClassifier_def reconcileAffectedByLocalMac_def Let_def case_prod_beta frame_simps)

interpretation model_view: event_sourced "\<lambda>e. engine_ok e \<and> en_sink e" visible apply_event timed_adm
  "timed_step pton" for pton
proof unfold_locales
  fix e op
  assume e: "engine_ok e \<and> en_sink e" and a: "timed_adm op e"
  obtain tc td o1 where op: "op = (tc, td, o1)" by (cases op)
  have o1: "op_admissible o1" "op_exact o1 e" using a op by (simp_all add: timed_adm_def)
  show "engine_ok (fst (timed_step pton op e)) \<and> en_sink (fst (timed_step pton op e))"
    using e o1 op engine_step_ok engine_step_sink by (simp add: timed_step_def)
  show "fold apply_event (snd (timed_step pton op e)) (visible e) = visible (fst (timed_step pton op e))"
    using e o1 op engine_step_view unfolding replay_def[symmetric] by (simp add: timed_step_def)
qed

end
