(* ===== verification/Engine_Properties.thy ===== *)
theory Engine_Properties
  imports Engine_View
begin

text \<open>
  The correctness properties of the observation model: what its events tell a client, what a
  reachable state looks like, how aging, restart, promotion and the local-state exclusions behave.
\<close>

section \<open>Concrete inputs\<close>

definition sample_pton :: "string \<Rightarrow> 32 word option" where
  "sample_pton s = (if s = ''10.0.0.7'' then Some 0x0A000007 else None)"

definition sample_mac :: string where
  "sample_mac = ''02:00:00:00:00:07''"

definition sample_neighbor :: "observation_event \<Rightarrow> neighbor_observation" where
  "sample_neighbor ev = \<lparr>no_observedAt = 5, no_ifname = ''eth0'', no_event = ev, no_family = AF_INET,
     no_mac = sample_mac, no_ip = ''10.0.0.7'', no_reachability = Reachable\<rparr>"

definition sample_lldp :: lldp_observation where
  "sample_lldp = \<lparr>ll_observedAt = 6, ll_localIfname = ''eth0'', ll_event = Present,
     ll_remoteChassisId = Some ''02:00:00:00:00:09'', ll_remotePortId = None,
     ll_remoteSystemName = Some ''sw1'', ll_keepalive = False\<rparr>"

definition sample_engine :: engine where
  "sample_engine = setEventSink True (new_engine default_model_config)"

definition sample_link :: "observation_event \<Rightarrow> string \<Rightarrow> link_observation" where
  "sample_link ev mac = \<lparr>lo_observedAt = 1, lo_ifindex = 2, lo_ifname = ''eth0'', lo_mac = mac,
     lo_adminUp = True, lo_running = True, lo_operstate = ''up'', lo_masterIfname = None, lo_event = ev\<rparr>"

lemma sample_needs_evidence: "needs_evidence (createClassifier (mc_classifierConfig default_model_config))"
  by (rule created_needs_evidence)
     (simp_all add: default_model_config_def default_classifier_config_def default_thresholds_def)

lemma sample_engine_reachable: "engine_reachable any_call pton default_model_config sample_engine"
  using engine_reachable.step[OF engine_reachable.start[OF sample_needs_evidence], of "OpSetEventSink True" any_call pton]
  by (simp add: sample_engine_def any_call_def)


section \<open>Events and the published view\<close>


definition sample_calls :: "(time_point \<times> time_point \<times> engine_op) list" where
  "sample_calls = [(1, 1, OpNeighbor (sample_neighbor Present)), (2, 2, OpMarkLive),
                   (3, 3, OpLldp sample_lldp), (4, 4, OpPrepareForRestart)]"


text \<open>
  (C2) Every state reached by admissible calls satisfies the invariant: each candidate's flags,
  evidence sets, addresses and LLDP identifiers agree, the local reference counts equal the number
  of interfaces and addresses they count, and the phase bounds the statuses.
\<close>

theorem reachable_engine_ok:
  assumes "engine_reachable C pton cfg e"
  shows "engine_ok e"
  using assms by (rule engine_reachable_ok)

theorem reachable_engine_ok_witness:
  "engine_ok (fst (engine_step sample_pton 1 1 (OpLldp sample_lldp) sample_engine))"
  by (rule reachable_engine_ok[OF engine_reachable.step[OF sample_engine_reachable[of sample_pton]]])
     (simp_all add: any_call_def)

lemma not_published_initializing:
  assumes "engine_ok e" "en_phase e = Initializing" "map_of (en_candidates e) k = Some c"
  shows "\<not> isPublishable c"
  using cands_okD(2)[OF engine_ok_cands[OF assms(1)] assms(3)] assms(2)
  by (auto simp: entry_ok_def isPublishable_def)

text \<open>
  Until \<open>markLive\<close> nothing is published: in the initializing phase, also after a restart, both
  queries over remote candidates return nothing.
\<close>

theorem initializing_publishes_nothing:
  assumes "engine_reachable C pton cfg e" "en_phase e = Initializing"
  shows "remoteCandidates e = [] \<and> findCandidateByMac k e = None"
proof -
  have ok: "engine_ok e" by (rule engine_reachable_ok[OF assms(1)])
  then have d: "distinct_keys (en_candidates e)" by (simp add: engine_ok_def cands_ok_def)
  have "\<not> isPublishable c" if "(k, c) \<in> set (en_candidates e)" for k c
    using not_published_initializing[OF ok assms(2)] that in_set_map_of[OF d] by blast
  then show ?thesis using not_published_initializing[OF ok assms(2)]
    by (auto simp: remoteCandidates_def filter_empty_conv findCandidateByMac_def split: option.split)
qed

theorem initializing_publishes_nothing_witness:
  "remoteCandidates (fst (engine_step sample_pton 1 1 (OpLldp sample_lldp) sample_engine)) = []"
proof -
  have "engine_reachable any_call sample_pton default_model_config
          (fst (engine_step sample_pton 1 1 (OpLldp sample_lldp) sample_engine))"
    by (rule engine_reachable.step[OF sample_engine_reachable[of sample_pton]]) (simp_all add: any_call_def)
  moreover have "en_phase (fst (engine_step sample_pton 1 1 (OpLldp sample_lldp) sample_engine)) = Initializing"
    by (simp add: engine_onLldpObservation_def sample_engine_def new_engine_def setEventSink_def Let_def
        settle_candidate_def case_prod_beta keepalive_dropped_def sample_lldp_def)
  ultimately show ?thesis using initializing_publishes_nothing by blast
qed


text \<open>
  (C4) A published candidate carries its own key as MAC, is confirmed or aged, is classified as
  something a client may see, and is backed by at least one live source.
\<close>

theorem published_has_evidence:
  assumes "engine_reachable C pton cfg e" "findCandidateByMac k e = Some c"
  shows "rc_mac c = k \<and> rc_status c \<in> {Confirmed, Aged} \<and>
         rc_classification c \<notin> {Artifact, LocalSelf, UnknownClass} \<and>
         (rc_neighborEvidence c \<noteq> {} \<or> rc_fdbEvidence c \<noteq> {} \<or> rc_seenInLldp c)"
proof -
  have ok: "engine_ok e" by (rule engine_reachable_ok[OF assms(1)])
  have c: "map_of (en_candidates e) k = Some c" "isPublishable c"
    using assms(2) by (auto simp: findCandidateByMac_def split: option.splits if_splits)
  have "entry_ok (en_phase e) k c" by (rule cands_okD(2)[OF engine_ok_cands[OF ok] c(1)])
  then show ?thesis using c(2)
    by (auto simp: entry_ok_def hasNoEvidence_flags cand_ok_def isPublishable_def split: if_splits)
qed

definition sample_live :: engine where
  "sample_live = fst (engine_step sample_pton 3 3 (OpLldp sample_lldp)
                       (fst (engine_step sample_pton 2 2 OpMarkLive sample_engine)))"

lemmas engine_eval = engine_onLldpObservation_def engine_onNeighborObservation_def
  engine_onLinkObservation_def engine_onFdbObservation_def sample_engine_def new_engine_def
  setEventSink_def settle_candidate_def keepalive_dropped_def markLive_state
  getOrCreateCandidate_def apply_lldp_def empty_candidate_def updateClassification_def
  reconcileStatusLocked_def default_model_config_def default_classifier_config_def
  createClassifier_def List.map_filter_simps(2)

lemma sample_live_reachable: "engine_reachable any_call sample_pton default_model_config sample_live"
  unfolding sample_live_def
  by (intro engine_reachable.step sample_engine_reachable) (simp_all add: any_call_def)

lemma sample_live_candidate:
  "\<exists>c. findCandidateByMac ''02:00:00:00:00:09'' sample_live = Some c \<and> rc_seenInLldp c"
proof -
  have key: "resolveLldpIdentity (Some ''02:00:00:00:00:09'') None = ''02:00:00:00:00:09''"
    by code_simp
  have pol: "ip_allowLldpEvidence defaultInterfacePolicy ''eth0''" by code_simp
  show ?thesis
    by (simp add: sample_live_def engine_eval Let_def case_prod_beta sample_lldp_def key pol
        findCandidateByMac_def hasNoEvidence_def isPublishable_def isConfirmedWorthy_def
        rule_based_classify_def)
qed

theorem published_has_evidence_witness:
  "\<exists>c. findCandidateByMac ''02:00:00:00:00:09'' sample_live = Some c \<and>
       rc_mac c = ''02:00:00:00:00:09'' \<and> rc_status c \<in> {Confirmed, Aged}"
  using sample_live_candidate published_has_evidence[OF sample_live_reachable] by blast



section \<open>Discovery, aging and revival\<close>



lemma age_candidate_compose:
  "t1 \<le> t2 \<Longrightarrow> age_candidate cfg t2 (age_candidate cfg t1 c) = age_candidate cfg t2 c"
  by (auto simp: age_candidate_def Let_def)

text \<open>
  Aging depends only on the time it runs at: an earlier pass changes nothing of what a later
  pass leaves, so the runtime may tick at any rate, and repeating a pass is idle.
\<close>

theorem age_compose:
  assumes "t1 \<le> t2"
  shows "fst (engine_age td2 t2 (fst (engine_age td1 t1 e))) = fst (engine_age td2 t2 e)"
  by (simp add: engine_age_state age_candidate_compose[OF assms] comp_def case_prod_beta)

theorem age_compose_witness:
  "fst (engine_age 9 90 (fst (engine_age 8 30 sample_live))) = fst (engine_age 9 90 sample_live)"
  by (rule age_compose) simp

text \<open>
  (C7) A neighbour entry that appears for an unknown MAC and is then deleted leaves no trace: the
  engine is again the one before.
\<close>

theorem neighbor_round_trip:
  assumes "map_of (en_candidates e) (no_mac obs) = None" "no_event obs = Present"
  shows "fst (engine_onNeighborObservation pton tc' td' (obs\<lparr>no_event := RemovedObs\<rparr>)
            (fst (engine_onNeighborObservation pton tc td obs e))) = e"
proof (cases "ip_allowRemoteNeighborEvidence (en_interfacePolicy e) (no_ifname obs) \<and>
   passes_neighbor pton (en_config e) obs
     (isLocalMac (no_mac obs) (en_localState e)) (isLocalIp (no_ip obs) (en_localState e))")
  case False
  moreover have "passes_neighbor pton cfg (obs\<lparr>no_event := RemovedObs\<rparr>) = passes_neighbor pton cfg obs" for cfg
    by (auto simp: passes_neighbor_def fun_eq_iff)
  ultimately show ?thesis by (auto simp: engine_onNeighborObservation_def)
next
  case True
  have p: "passes_neighbor pton cfg (obs\<lparr>no_event := RemovedObs\<rparr>) = passes_neighbor pton cfg obs" for cfg
    by (auto simp: passes_neighbor_def fun_eq_iff)
  let ?c0 = "empty_candidate\<lparr>rc_mac := no_mac obs, rc_firstSeen := tc\<rparr>"
  let ?c1 = "reconcileStatusLocked (en_phase e) Present (updateClassification e (apply_neighbor obs ?c0))"
  have ev: "\<not> hasNoEvidence (apply_neighbor obs ?c0)"
    by (simp add: hasNoEvidence_def apply_neighbor_def assms(2) Let_def)
  have e1: "fst (engine_onNeighborObservation pton tc td obs e)
      = e\<lparr>en_candidates := AList.update (no_mac obs) ?c1 (en_candidates e)\<rparr>"
    using True assms ev
    by (simp add: engine_onNeighborObservation_def getOrCreateCandidate_def settle_candidate_def Let_def case_prod_beta)
  have gone: "hasNoEvidence (apply_neighbor (obs\<lparr>no_event := RemovedObs\<rparr>) ?c1)"
    by (simp add: hasNoEvidence_def apply_neighbor_def assms(2) Let_def reconcileStatusLocked_def
        updateClassification_def empty_candidate_def)
  have "AList.delete (no_mac obs) (AList.update (no_mac obs) ?c1 (en_candidates e)) = en_candidates e"
    using assms(1) by (simp add: map_of_eq_None_iff delete_update_same delete_idem)
  with True p gone show ?thesis
    by (simp add: e1) (simp add: engine_onNeighborObservation_def getOrCreateCandidate_def
        settle_candidate_def Let_def case_prod_beta)
qed

theorem neighbor_round_trip_witness:
  "fst (engine_onNeighborObservation sample_pton 1 1 (sample_neighbor RemovedObs)
     (fst (engine_onNeighborObservation sample_pton 1 1 (sample_neighbor Present) sample_engine)))
   = sample_engine"
  using neighbor_round_trip[of sample_engine "sample_neighbor Present" sample_pton 1 1 1 1]
  by (simp add: sample_engine_def new_engine_def setEventSink_def sample_neighbor_def)



section \<open>Promotion and restart\<close>

lemma promote_status: "promote e c = Some d \<Longrightarrow> rc_status d \<noteq> Provisional"
  by (cases "rc_status c = Provisional"; cases "isConfirmedWorthy (en_classifier e c)")
     (auto simp: promote_def)



text \<open>
  A restart keeps a candidate only if it is observed again before \<open>markLive\<close>: after
  \<open>prepareForRestart\<close> all evidence is gone and nothing is visible, and \<open>markLive\<close> at that point
  forgets every candidate.
\<close>

theorem restart_forgets_unobserved:
  assumes "engine_reachable C pton cfg e"
  shows "en_candidates (fst (markLive td' (fst (prepareForRestart td e)))) = [] \<and>
         visible (fst (prepareForRestart td e)) = {}"
proof -
  have "needs_evidence (en_classifier e)" using engine_reachable_ok[OF assms] by (simp add: engine_ok_def)
  then have "promote (fst (prepareForRestart td e)) (restart_candidate c) = None" for c
    by (simp add: promote_def prepareForRestart_state needs_evidence_def restart_candidate_def hasNoEvidence_def)
  then have "List.map_filter (\<lambda>(k, c). map_option (Pair k) (promote (fst (prepareForRestart td e)) c))
               (map (\<lambda>(k, c). (k, restart_candidate c)) m) = []" for m
    by (induction m) (auto simp: List.map_filter_simps)
  then have "en_candidates (fst (markLive td' (fst (prepareForRestart td e)))) = []"
    unfolding markLive_state by (simp add: prepareForRestart_state)
  moreover have "visible (fst (prepareForRestart td e)) = {}"
    by (auto simp: visible_iff prepareForRestart_state map_of_map_value restart_not_publishable)
  ultimately show ?thesis by blast
qed

theorem restart_forgets_unobserved_witness:
  "en_candidates (fst (markLive 9 (fst (prepareForRestart 8 sample_live)))) = []"
  using restart_forgets_unobserved[OF sample_live_reachable, of 9 8] by simp


section \<open>Keepalives\<close>

text \<open>
  An LLDP keepalive never adds or drops a candidate key, touches no candidate but its own, never
  revives a tombstone, and is silent unless the status or the classification of its candidate
  changes.
\<close>

theorem keepalive_refreshes_only:
  assumes "ll_keepalive obs" "engine_onLldpObservation tc td obs e = (e', evs)"
    "resolveLldpIdentity (ll_remoteChassisId obs) (ll_remotePortId obs) = key"
  shows "keys (en_candidates e') = keys (en_candidates e) \<and>
         (\<forall>k. k \<noteq> key \<longrightarrow> map_of (en_candidates e') k = map_of (en_candidates e) k) \<and>
         (\<forall>c. map_of (en_candidates e) key = Some c \<and> rc_status c = Removed \<longrightarrow> e' = e \<and> evs = []) \<and>
         (\<forall>c c'. map_of (en_candidates e) key = Some c \<and> map_of (en_candidates e') key = Some c' \<and>
            rc_status c' = rc_status c \<and> rc_classification c' = rc_classification c \<longrightarrow> evs = [])"
proof (cases "ip_allowLldpEvidence (en_interfacePolicy e) (ll_localIfname obs) \<and> key \<noteq> [] \<and>
              \<not> keepalive_dropped obs key e")
  case False
  then have "engine_onLldpObservation tc td obs e = (e, [])"
    unfolding engine_onLldpObservation_def Let_def assms(3) by auto
  then show ?thesis using assms(2) by simp
next
  case True
  then obtain c where c: "map_of (en_candidates e) key = Some c" "rc_status c \<noteq> Removed" "ll_event obs = Present"
    using assms(1) by (auto simp: keepalive_dropped_def split: option.splits)
  define c1 where "c1 = updateClassification e (apply_lldp obs c)"
  define c2 where "c2 = (if rc_status c1 = Aged \<or> rc_status c1 = Expired then c1\<lparr>rc_status := Confirmed\<rparr> else c1)"
  have cls: "rc_status (apply_lldp obs c) = rc_status c" "rc_classification (apply_lldp obs c) = rc_classification c"
    by (simp_all add: apply_lldp_def)
  have "\<not> hasNoEvidence (apply_lldp obs c)" using c(3) by (simp add: apply_lldp_def hasNoEvidence_def)
  then have e': "e' = e\<lparr>en_candidates := AList.update key c2 (en_candidates e)\<rparr>"
    and evs: "rc_status c2 = rc_status c \<and> rc_classification c2 = rc_classification c \<Longrightarrow> evs = []"
    using True assms c cls
    by (auto simp: engine_onLldpObservation_def settle_keepalive_def Let_def case_prod_beta
        getOrCreateCandidate_def c1_def[symmetric] c2_def[symmetric] deliverPending_def)
  have "key \<in> fst ` set (en_candidates e)" using c(1) by (force dest: map_of_SomeD)
  then show ?thesis using c evs by (auto simp: e')
qed

theorem keepalive_refreshes_only_witness:
  "keys (en_candidates (fst (engine_onLldpObservation 4 4 (sample_lldp\<lparr>ll_keepalive := True\<rparr>) sample_live)))
     = keys (en_candidates sample_live)"
  using keepalive_refreshes_only[OF _ prod.collapse[symmetric] refl,
      of "sample_lldp\<lparr>ll_keepalive := True\<rparr>" 4 4 sample_live]
  by simp



section \<open>Exclusion of the local host\<close>

text \<open>The local MACs a link or address observation can add.\<close>

lemma mac_local_nonempty: "tracker_ok t \<Longrightarrow> isLocalMac k t \<Longrightarrow> k \<noteq> []"
  using tracker_okD(2)[of t] by (auto simp: mac_counts_ok_def isLocalMac_def)

lemma decrementCidr_interfaces: "lt_interfaces (fold decrementCidr cs t) = lt_interfaces t"
  by (induction cs arbitrary: t) (simp_all add: decrementCidr_def frame_simps Let_def)

lemma link_local_new:
  assumes ok: "tracker_ok t" and n: "lo_ifname obs \<noteq> []"
    and loc: "isLocalMac k (fst (tracker_onLinkObservation obs t))"
  shows "isLocalMac k t \<or> (k = lo_mac obs \<and> snd (tracker_onLinkObservation obs t))"
proof -
  let ?t' = "fst (tracker_onLinkObservation obs t)"
  have ok': "tracker_ok ?t'" by (rule tracker_onLinkObservation_ok[OF ok n])
  have k: "k \<noteq> []" by (rule mac_local_nonempty[OF ok' loc])
  obtain j i where i: "map_of (lt_interfaces ?t') j = Some i" "li_mac i = k"
    using loc isLocalMac_iff[OF ok' k] by blast
  have old: "isLocalMac k t" if "map_of (lt_interfaces t) j' = Some i'" "li_mac i' = k" for j' i'
    using that isLocalMac_iff[OF ok k] by blast
  show ?thesis
  proof (cases "lo_event obs")
    case Present
    then have m: "map_of (lt_interfaces ?t') j = (if j = lo_ifname obs
        then Some (link_stored obs (interface_or_default (lo_ifname obs) t)) else map_of (lt_interfaces t) j)"
      by (simp add: link_present_unfold frame_simps)
    show ?thesis
    proof (cases "j = lo_ifname obs \<and> \<not> snd (tracker_onLinkObservation obs t)")
      case True
      then have "li_mac (interface_or_default (lo_ifname obs) t) = k"
        using m i Present by (auto simp: link_stored_def link_present_unfold)
      then show ?thesis using old k
        by (auto simp: interface_or_default_def empty_interface_def split: option.splits)
    next
      case False
      have "j \<noteq> lo_ifname obs \<Longrightarrow> isLocalMac k t" using old[of j i] m i by simp
      moreover have "j = lo_ifname obs \<Longrightarrow> k = lo_mac obs" using m i by (auto simp: link_stored_def)
      ultimately show ?thesis using False by blast
    qed
  next
    case RemovedObs
    then show ?thesis using i old n
      by (auto simp: tracker_onLinkObservation_def Let_def decrementCidr_interfaces frame_simps
          split: option.splits if_splits)
  qed
qed

lemma address_local_frame:
  "isLocalMac k (fst (tracker_onAddressObservation obs t)) = isLocalMac k t"
  by (simp add: tracker_onAddressObservation_def Let_def isLocalMac_def frame_simps)

definition local_hidden :: "engine \<Rightarrow> bool" where
  "local_hidden e \<longleftrightarrow>
     (\<forall>k c. map_of (en_candidates e) k = Some c \<and> isLocalMac k (en_localState e) \<longrightarrow> rc_status c = Removed)"

fun lldp_foreign :: "engine_op \<Rightarrow> engine \<Rightarrow> bool" where
  "lldp_foreign (OpLldp obs) e \<longleftrightarrow>
     \<not> isLocalMac (resolveLldpIdentity (ll_remoteChassisId obs) (ll_remotePortId obs)) (en_localState e)"
| "lldp_foreign _ e \<longleftrightarrow> True"

lemma settle_local_hidden:
  assumes "local_hidden e" "\<not> isLocalMac k (en_localState e)"
  shows "local_hidden (fst (settle_candidate k ev w c e))" "local_hidden (fst (settle_keepalive k w c e))"
  using assms
  by (auto simp: local_hidden_def settle_candidate_def settle_keepalive_def Let_def split: if_splits)

lemma link_local_hidden:
  assumes h: "local_hidden e" and ok: "tracker_ok (en_localState e)" and n: "lo_ifname obs \<noteq> []"
  shows "local_hidden (fst (engine_onLinkObservation td obs e))"
proof (cases "ip_includeInLocalState (en_interfacePolicy e) (lo_ifname obs)")
  case True
  obtain ls ch where t: "tracker_onLinkObservation obs (en_localState e) = (ls, ch)" by fastforce
  have new: "isLocalMac k ls \<Longrightarrow> isLocalMac k (en_localState e) \<or> (k = lo_mac obs \<and> ch)" for k
    using link_local_new[OF ok n, of k] t by simp
  have e': "fst (engine_onLinkObservation td obs e)
      = (if ch then reconcileByKey (lo_mac obs) (e\<lparr>en_localState := ls\<rparr>) else e\<lparr>en_localState := ls\<rparr>)"
    using True t by (simp add: engine_onLinkObservation_def Let_def reconcileAffectedByLocalMac_def)
  have "rc_status c = Removed"
    if c: "map_of (en_candidates (fst (engine_onLinkObservation td obs e))) k = Some c" "isLocalMac k ls" for k c
  proof (cases "k = lo_mac obs \<and> ch")
    case True
    then show ?thesis using c by (auto simp: e' reconcileByKey_def split: option.splits if_splits)
  next
    case False
    then have "isLocalMac k (en_localState e)" using new c(2) by blast
    then show ?thesis using h c False
      by (auto simp: local_hidden_def e' reconcileByKey_def split: option.splits if_splits)
  qed
  moreover have "en_localState (fst (engine_onLinkObservation td obs e)) = ls"
    by (simp add: e' reconcileByKey_def split: option.split)
  ultimately show ?thesis unfolding local_hidden_def by blast
qed (use h in \<open>simp add: engine_onLinkObservation_def\<close>)

lemma address_local_hidden:
  assumes "local_hidden e" shows "local_hidden (fst (engine_onAddressObservation td obs e))"
proof -
  let ?e1 = "e\<lparr>en_localState := fst (tracker_onAddressObservation obs (en_localState e))\<rparr>"
  have 1: "local_hidden ?e1" using assms by (simp add: local_hidden_def address_local_frame)
  moreover have "local_hidden (reconcileAffectedByLocalIp ip ?e1)" for ip
    using 1 unfolding local_hidden_def reconcileAffectedByLocalIp_def
    by (auto simp: map_of_map_value)
  ultimately show ?thesis using assms
    by (simp add: engine_onAddressObservation_def Let_def)
qed

lemma neighbor_local_hidden:
  "local_hidden e \<Longrightarrow> local_hidden (fst (engine_onNeighborObservation pton tc td obs e))"
  by (auto simp: engine_onNeighborObservation_def Let_def case_prod_beta intro!: settle_local_hidden
      dest: passes_neighbor_not_local)

lemma fdb_local_hidden:
  "local_hidden e \<Longrightarrow> local_hidden (fst (engine_onFdbObservation tc td obs e))"
  by (auto simp: engine_onFdbObservation_def Let_def case_prod_beta intro!: settle_local_hidden
      dest: passes_fdb_not_local)

lemma lldp_local_hidden:
  "local_hidden e \<Longrightarrow> lldp_foreign (OpLldp obs) e \<Longrightarrow> local_hidden (fst (engine_onLldpObservation tc td obs e))"
  by (simp add: engine_onLldpObservation_def Let_def case_prod_beta settle_local_hidden)

lemma loops_local_hidden:
  assumes h: "local_hidden e" and ok: "engine_ok e"
  shows "local_hidden (fst (engine_age td now e))" "local_hidden (fst (prepareForRestart td e))"
    "local_hidden (fst (markLive td e))" "local_hidden (setClassifier cl e)"
proof -
  have d: "distinct_keys (en_candidates e)" using ok by (simp add: engine_ok_def cands_ok_def)
  show "local_hidden (fst (engine_age td now e))"
    using h by (auto simp: local_hidden_def engine_age_state map_of_map_value age_candidate_frame)
  show "local_hidden (fst (prepareForRestart td e))"
    by (simp add: local_hidden_def prepareForRestart_state isLocalMac_def new_tracker_def empty_snapshot_def)
  show "local_hidden (fst (markLive td e))"
    using h by (auto simp: local_hidden_def markLive_map_of[OF d] bind_eq_Some_conv promote_def frame_simps
        split: if_splits)
  show "local_hidden (setClassifier cl e)"
    using h by (auto simp: local_hidden_def setClassifier_def Let_def map_of_map_value)
qed

lemma engine_step_local_hidden:
  assumes "engine_ok e" "local_hidden e" "op_admissible op" "lldp_foreign op e"
  shows "local_hidden (fst (engine_step pton tc td op e))"
proof -
  have "tracker_ok (en_localState e)" using assms(1) by (simp add: engine_ok_def)
  then show ?thesis using assms
    by (cases op)
       (simp_all add: link_local_hidden address_local_hidden neighbor_local_hidden fdb_local_hidden
         lldp_local_hidden loops_local_hidden, simp_all add: local_hidden_def setEventSink_def setInterfacePolicy_def)
qed

lemma reachable_local_hidden: "engine_reachable lldp_foreign pton cfg e \<Longrightarrow> local_hidden e"
proof (induction rule: engine_reachable.induct)
  case start
  then show ?case by (simp add: local_hidden_def new_engine_def)
next
  case (step e op tc td)
  then show ?case using engine_step_local_hidden engine_reachable_ok by blast
qed

text \<open>
  (C3) As long as no LLDP announcement names one of the host's own MACs, the host never publishes
  itself: no MAC of a tracked interface is visible, however links, addresses, neighbours, bridge
  entries, restarts and promotions interleave.
\<close>

theorem local_mac_never_published:
  assumes "engine_reachable lldp_foreign pton cfg e"
    "map_of (lt_interfaces (en_localState e)) ifn = Some i" "li_mac i \<noteq> []"
  shows "findCandidateByMac (li_mac i) e = None"
proof -
  have "tracker_ok (en_localState e)" using engine_reachable_ok[OF assms(1)] by (simp add: engine_ok_def)
  then have "isLocalMac (li_mac i) (en_localState e)" using isLocalMac_iff assms(2,3) by blast
  then show ?thesis using reachable_local_hidden[OF assms(1)]
    by (auto simp: local_hidden_def findCandidateByMac_def isPublishable_def split: option.splits)
qed

lemma neighbor_policy [frame_simps]:
  "en_interfacePolicy (fst (engine_onNeighborObservation pton tc td obs e)) = en_interfacePolicy e"
  by (simp add: engine_onNeighborObservation_def settle_candidate_def Let_def case_prod_beta)

lemma link_tracked:
  assumes "ip_includeInLocalState (en_interfacePolicy e) (lo_ifname obs)" "lo_event obs = Present"
  shows "\<exists>i. map_of (lt_interfaces (en_localState (fst (engine_onLinkObservation td obs e)))) (lo_ifname obs)
             = Some i \<and> li_mac i = lo_mac obs"
  using assms
  by (simp add: engine_onLinkObservation_def Let_def case_prod_beta link_present_unfold link_stored_def
      reconcileAffectedByLocalMac_def reconcileByKey_def frame_simps split: option.split)

definition sample_with_link :: engine where
  "sample_with_link = fst (engine_step sample_pton 1 1 (OpLink (sample_link Present sample_mac))
     (fst (engine_step sample_pton 1 1 (OpNeighbor (sample_neighbor Present)) (new_engine default_model_config))))"

lemma default_policy_eth0:
  "en_interfacePolicy (new_engine default_model_config) = defaultInterfacePolicy"
  "ip_includeInLocalState defaultInterfacePolicy ''eth0''"
  by (simp add: new_engine_def default_model_config_def) code_simp

theorem local_mac_never_published_witness: "findCandidateByMac sample_mac sample_with_link = None"
proof -
  have r: "engine_reachable lldp_foreign sample_pton default_model_config sample_with_link"
    unfolding sample_with_link_def
    by (intro engine_reachable.step engine_reachable.start sample_needs_evidence)
       (simp_all add: sample_link_def)
  obtain i where i: "map_of (lt_interfaces (en_localState sample_with_link)) ''eth0'' = Some i" "li_mac i = sample_mac"
    using link_tracked[of "fst (engine_onNeighborObservation sample_pton 1 1 (sample_neighbor Present)
        (new_engine default_model_config))" "sample_link Present sample_mac" 1]
    by (auto simp: sample_with_link_def frame_simps default_policy_eth0 sample_link_def)
  show ?thesis using local_mac_never_published[OF r i(1)] i(2) by (simp add: sample_mac_def)
qed

text \<open>
  (C8) An address that becomes local hides every candidate that claims it: after the observation no
  visible candidate lists the address.
\<close>

theorem local_ip_hides_claimants:
  assumes "ip_includeInLocalState (en_interfacePolicy e) (ao_ifname obs)" "ao_event obs = Present"
    "extractIpFromCidr (ao_cidr obs) = ip" "ip \<noteq> []"
    "findCandidateByMac k (fst (engine_onAddressObservation td obs e)) = Some c"
  shows "ip \<notin> rc_ipv4 c \<union> rc_ipv6 c \<and> findCandidateByMac k e = Some c"
  using assms
  by (auto simp: engine_onAddressObservation_def Let_def findCandidateByMac_def reconcileAffectedByLocalIp_def
      map_of_map_value split: option.splits if_splits)

definition sample_address :: address_observation where
  "sample_address = \<lparr>ao_observedAt = 7, ao_ifname = ''eth0'', ao_event = Present, ao_family = AF_INET,
     ao_cidr = ''10.0.0.1/24''\<rparr>"

theorem local_ip_hides_claimants_witness:
  "\<exists>c. findCandidateByMac ''02:00:00:00:00:09'' (fst (engine_onAddressObservation 8 sample_address sample_live)) = Some c
     \<and> ''10.0.0.1'' \<notin> rc_ipv4 c \<union> rc_ipv6 c"
proof -
  have pol: "ip_includeInLocalState (en_interfacePolicy sample_live) ''eth0''"
    by (simp add: sample_live_def engine_eval Let_def case_prod_beta default_policy_eth0)
  have ip: "extractIpFromCidr ''10.0.0.1/24'' = ''10.0.0.1''" by code_simp
  have key: "resolveLldpIdentity (Some ''02:00:00:00:00:09'') None = ''02:00:00:00:00:09''"
    by code_simp
  have pol2: "ip_allowLldpEvidence defaultInterfacePolicy ''eth0''" by code_simp
  have "\<exists>c. findCandidateByMac ''02:00:00:00:00:09''
      (fst (engine_onAddressObservation 8 sample_address sample_live)) = Some c"
    using pol
    by (simp add: engine_onAddressObservation_def sample_address_def ip Let_def reconcileAffectedByLocalIp_def
        findCandidateByMac_def map_of_map_value)
       (simp add: sample_live_def engine_eval Let_def case_prod_beta sample_lldp_def key pol2
        hasNoEvidence_def isPublishable_def isConfirmedWorthy_def rule_based_classify_def)
  then obtain c where c: "findCandidateByMac ''02:00:00:00:00:09''
      (fst (engine_onAddressObservation 8 sample_address sample_live)) = Some c" by blast
  show ?thesis
    using local_ip_hides_claimants[of sample_live sample_address "''10.0.0.1''" _ 8 c] pol ip c
    by (auto simp: sample_address_def)
qed


lemma link_removed_result:
  assumes "ip_includeInLocalState (en_interfacePolicy e) (lo_ifname obs)" "lo_event obs = RemovedObs"
    "map_of (lt_interfaces (en_localState e)) (lo_ifname obs) = Some i" "en_sink e" "lo_mac obs \<in> visible e"
    "ls = fst (tracker_onLinkObservation obs (en_localState e))"
  shows "candidate_event CandidateRemoved td (lo_mac obs) \<in> set (snd (engine_onLinkObservation td obs e))"
    "fst (engine_onLinkObservation td obs e) = reconcileByKey (lo_mac obs) (e\<lparr>en_localState := ls\<rparr>)"
proof -
  obtain c where c: "map_of (en_candidates e) (lo_mac obs) = Some c" "isPublishable c"
    using assms(5) by (auto simp: visible_iff)
  have t: "tracker_onLinkObservation obs (en_localState e) = (ls, True)"
    using assms(2,3,6) by (simp add: tracker_onLinkObservation_def Let_def)
  show "candidate_event CandidateRemoved td (lo_mac obs) \<in> set (snd (engine_onLinkObservation td obs e))"
    "fst (engine_onLinkObservation td obs e) = reconcileByKey (lo_mac obs) (e\<lparr>en_localState := ls\<rparr>)"
    using assms(1,4) t c
    by (simp_all add: engine_onLinkObservation_def Let_def deliverPending_def reconcileAffectedByLocalMac_def)
qed

text \<open>
  When a tracked interface disappears and its MAC is thereby no longer local, a visible candidate
  with that MAC is announced as removed although it stays visible: the removal notice is emitted on
  the visibility before the reconciliation only.
\<close>

theorem link_removal_false_notice:
  assumes "ip_includeInLocalState (en_interfacePolicy e) (lo_ifname obs)" "lo_event obs = RemovedObs"
    "map_of (lt_interfaces (en_localState e)) (lo_ifname obs) = Some i" "en_sink e" "lo_mac obs \<in> visible e"
    "\<not> isLocalMac (lo_mac obs) (fst (tracker_onLinkObservation obs (en_localState e)))"
  shows "candidate_event CandidateRemoved td (lo_mac obs) \<in> set (snd (engine_onLinkObservation td obs e))
       \<and> lo_mac obs \<in> visible (fst (engine_onLinkObservation td obs e))"
  using link_removed_result[OF assms(1-5) refl, of td] assms(5,6) by (simp add: reconcileByKey_view)

definition sample_tracked :: engine where
  "sample_tracked = sample_live\<lparr>en_localState :=
     fst (tracker_onLinkObservation (sample_link Present ''02:00:00:00:00:09'') new_tracker)\<rparr>"

theorem link_removal_false_notice_witness:
  "''02:00:00:00:00:09'' \<in> visible (fst (engine_onLinkObservation 9
      (sample_link RemovedObs ''02:00:00:00:00:09'') sample_tracked))"
proof -
  let ?obs = "sample_link RemovedObs ''02:00:00:00:00:09''"
  have pol: "ip_includeInLocalState (en_interfacePolicy sample_tracked) ''eth0''"
    by (simp add: sample_tracked_def sample_live_def engine_eval Let_def case_prod_beta default_policy_eth0)
  have sink: "en_sink sample_tracked"
    by (simp add: sample_tracked_def sample_live_def engine_eval Let_def case_prod_beta)
  have vis: "''02:00:00:00:00:09'' \<in> visible sample_tracked"
    using sample_live_candidate by (auto simp: sample_tracked_def visible_def findCandidateByMac_def)
  have i: "\<exists>i. map_of (lt_interfaces (en_localState sample_tracked)) ''eth0'' = Some i"
    by (simp add: sample_tracked_def link_present_unfold sample_link_def frame_simps)
  have gone: "\<not> isLocalMac ''02:00:00:00:00:09'' (fst (tracker_onLinkObservation ?obs (en_localState sample_tracked)))"
    unfolding sample_tracked_def by (simp add: sample_link_def) code_simp
  show ?thesis
    using link_removal_false_notice[of sample_tracked ?obs _ 9] pol sink vis i gone
    by (auto simp: sample_link_def)
qed

end
