(* ===== verification/Inventory_Contract.thy ===== *)
theory Inventory_Contract
  imports Prelude "HOL-Library.Word"
begin

text \<open>
  The inventory part of \<open>lib/interop_contract\<close>: field values, the snapshot, source states, the
  reserved metadata fields and the accessors shared by the service and its clients.
  \<open>std::map\<close> is an ordered association list; \<open>int64_t\<close> and \<open>uint64_t\<close> are 64-bit words.
\<close>

datatype field_value = FBool bool | FInt "64 word" | FUInt "64 word" | FString string

type_synonym inventory_fields = "field_value omap"
type_synonym inventory_issues = "inventory_fields omap"

datatype source_health = HealthOk | HealthDegraded | HealthFailed

record source_state =
  ss_name :: string
  ss_required :: bool
  ss_stale :: bool
  ss_health :: source_health
  ss_lastAttemptTs :: "64 word"
  ss_lastSuccessTs :: "64 word"
  ss_lastError :: "string option"
  ss_origin :: "string option"

type_synonym source_state_map = "source_state omap"

definition empty_source_state :: source_state where
  "empty_source_state = \<lparr>ss_name = [], ss_required = False, ss_stale = False, ss_health = HealthFailed,
     ss_lastAttemptTs = 0, ss_lastSuccessTs = 0, ss_lastError = None, ss_origin = None\<rparr>"

record inventory_snapshot =
  is_version :: "64 word"
  is_timestamp :: "64 word"
  is_ready :: bool
  is_phase :: string
  is_fields :: inventory_fields

definition empty_inventory_snapshot :: inventory_snapshot where
  "empty_inventory_snapshot =
     \<lparr>is_version = 0, is_timestamp = 0, is_ready = False, is_phase = [], is_fields = []\<rparr>"


section \<open>Names\<close>

definition FIELD_VERSION :: string where "FIELD_VERSION = ''version''"
definition FIELD_TIMESTAMP :: string where "FIELD_TIMESTAMP = ''timestamp''"
definition FIELD_READY :: string where "FIELD_READY = ''ready''"
definition FIELD_PHASE :: string where "FIELD_PHASE = ''phase''"
definition FIELD_DEVICE_CLASS :: string where "FIELD_DEVICE_CLASS = ''deviceClass''"
definition FIELD_DEVICE_MODEL_ID :: string where "FIELD_DEVICE_MODEL_ID = ''deviceModelId''"
definition FIELD_DEVICE_PROJECT :: string where "FIELD_DEVICE_PROJECT = ''deviceProject''"
definition INV_PHASE_INITIALIZING :: string where "INV_PHASE_INITIALIZING = ''initializing''"
definition INV_PHASE_LIVE :: string where "INV_PHASE_LIVE = ''live''"
definition ISSUE_SEVERITY :: string where "ISSUE_SEVERITY = ''severity''"
definition ISSUE_MESSAGE :: string where "ISSUE_MESSAGE = ''message''"
definition ISSUE_ORIGIN :: string where "ISSUE_ORIGIN = ''origin''"
definition SEVERITY_ERROR :: string where "SEVERITY_ERROR = ''error''"
definition SEVERITY_WARNING :: string where "SEVERITY_WARNING = ''warning''"

lemmas metadata_names = FIELD_VERSION_def FIELD_TIMESTAMP_def FIELD_READY_def FIELD_PHASE_def
lemmas issue_names = ISSUE_SEVERITY_def ISSUE_MESSAGE_def ISSUE_ORIGIN_def SEVERITY_ERROR_def
  SEVERITY_WARNING_def


section \<open>Metadata and field access\<close>

definition is_metadata_field :: "string \<Rightarrow> bool" where
  "is_metadata_field f \<longleftrightarrow>
     f = FIELD_VERSION \<or> f = FIELD_TIMESTAMP \<or> f = FIELD_READY \<or> f = FIELD_PHASE"

definition contains_reserved_metadata_fields :: "inventory_fields \<Rightarrow> bool" where
  "contains_reserved_metadata_fields flds = list_ex (\<lambda>entry. is_metadata_field (fst entry)) flds"

fun first_reserved_metadata_field :: "inventory_fields \<Rightarrow> string" where
  "first_reserved_metadata_field [] = []"
| "first_reserved_metadata_field ((key, v) # flds) =
     (if is_metadata_field key then key else first_reserved_metadata_field flds)"

definition get_field_value :: "inventory_snapshot \<Rightarrow> string \<Rightarrow> field_value option" where
  "get_field_value snapshot field_name =
     (case map_of (is_fields snapshot) field_name of
        Some v \<Rightarrow> Some v
      | None \<Rightarrow>
          if field_name = FIELD_VERSION then Some (FUInt (is_version snapshot))
          else if field_name = FIELD_TIMESTAMP then Some (FInt (is_timestamp snapshot))
          else if field_name = FIELD_READY then Some (FBool (is_ready snapshot))
          else if field_name = FIELD_PHASE then Some (FString (is_phase snapshot))
          else None)"

definition make_single_field_map :: "inventory_snapshot \<Rightarrow> string \<Rightarrow> inventory_fields" where
  "make_single_field_map snapshot field_name =
     (case get_field_value snapshot field_name of Some v \<Rightarrow> [(field_name, v)] | None \<Rightarrow> [])"

lemma first_reserved_some:
  "contains_reserved_metadata_fields flds \<longleftrightarrow> first_reserved_metadata_field flds \<noteq> []"
  "contains_reserved_metadata_fields flds \<Longrightarrow>
     is_metadata_field (first_reserved_metadata_field flds) \<and>
     first_reserved_metadata_field flds \<in> keys flds"
  by (induction flds rule: first_reserved_metadata_field.induct)
     (auto simp: contains_reserved_metadata_fields_def is_metadata_field_def metadata_names)

text \<open>When sources own no metadata field, the metadata fields read the snapshot's own state.\<close>

lemma get_field_value_metadata:
  assumes "\<forall>f \<in> keys (is_fields s). \<not> is_metadata_field f"
  shows "get_field_value s FIELD_VERSION = Some (FUInt (is_version s))"
    "get_field_value s FIELD_TIMESTAMP = Some (FInt (is_timestamp s))"
    "get_field_value s FIELD_READY = Some (FBool (is_ready s))"
    "get_field_value s FIELD_PHASE = Some (FString (is_phase s))"
proof -
  have "map_of (is_fields s) f = None" if "is_metadata_field f" for f
    using assms that by (auto simp: map_of_eq_None_iff)
  then show "get_field_value s FIELD_VERSION = Some (FUInt (is_version s))"
    "get_field_value s FIELD_TIMESTAMP = Some (FInt (is_timestamp s))"
    "get_field_value s FIELD_READY = Some (FBool (is_ready s))"
    "get_field_value s FIELD_PHASE = Some (FString (is_phase s))"
    by (simp_all add: get_field_value_def is_metadata_field_def) (simp_all add: metadata_names)
qed

end
