(* ===== verification/Inventory_Manager.thy ===== *)
theory Inventory_Manager
  imports Inventory_Contract
begin

text \<open>
  \<open>rmc-inventory/core\<close>: the inventory manager, the field utilities and the derivation of issues.

  A registered source is its name, its \<open>required\<close> flag and its owned fields, which the source
  objects return unchanged on every call. What a source answers in one refresh (\<open>getState\<close> and the
  outcome of \<open>collect\<close>) is the argument \<open>ask\<close>; a \<open>collect\<close> that throws is \<open>Inl\<close> with the text the
  manager records. \<open>refreshAll\<close> releases the mutex while it collects, so it is split where the
  source takes the lock again: \<open>refresh_collect\<close> runs over the copy of the sources, \<open>refresh_merge\<close>
  on the manager as it is then.
\<close>

section \<open>Field utilities\<close>

definition isSubsetOfOwnedFields :: "inventory_fields \<Rightarrow> string list \<Rightarrow> bool" where
  "isSubsetOfOwnedFields fs owned = list_all (\<lambda>kv. fst kv \<in> set owned) fs"

definition getUndeclaredFields :: "inventory_fields \<Rightarrow> string list \<Rightarrow> string list" where
  "getUndeclaredFields fs owned = map fst (filter (\<lambda>kv. fst kv \<notin> set owned) fs)"

lemma undeclared_empty: "getUndeclaredFields fs owned = [] \<longleftrightarrow> isSubsetOfOwnedFields fs owned"
  by (auto simp: getUndeclaredFields_def isSubsetOfOwnedFields_def filter_empty_conv list_all_iff)


section \<open>State\<close>

record inventory_source =
  src_name :: string
  src_required :: bool
  src_owned :: "string list"

record inventory_diff =
  df_changedFields :: "string list"
  df_removedFields :: "string list"

definition diff_empty :: "inventory_diff \<Rightarrow> bool" where
  "diff_empty d \<longleftrightarrow> df_changedFields d = [] \<and> df_removedFields d = []"

record inventory_manager =
  mg_sources :: "inventory_source list"
  mg_fieldOwners :: "string omap"
  mg_snapshot :: inventory_snapshot
  mg_sourceStates :: source_state_map

definition new_manager :: inventory_manager where
  "new_manager = \<lparr>mg_sources = [], mg_fieldOwners = [], mg_snapshot = empty_inventory_snapshot,
     mg_sourceStates = []\<rparr>"

datatype manager_error =
    SourceIsNull
  | EmptySourceName
  | DuplicateSourceName string
  | EmptyOwnedField string
  | ReservedMetadataField string string
  | OwnershipCollision string string string


section \<open>Registration\<close>

fun check_owned_fields ::
  "string \<Rightarrow> string omap \<Rightarrow> string list \<Rightarrow> manager_error + unit" where
  "check_owned_fields sourceName owners [] = Inr ()"
| "check_owned_fields sourceName owners (field # rest) =
     (if field = [] then Inl (EmptyOwnedField sourceName)
      else if is_metadata_field field then Inl (ReservedMetadataField sourceName field)
      else case map_of owners field of
             Some owner \<Rightarrow> Inl (OwnershipCollision field owner sourceName)
           | None \<Rightarrow> check_owned_fields sourceName owners rest)"

definition validateSourceRegistration ::
  "inventory_source \<Rightarrow> inventory_manager \<Rightarrow> manager_error + inventory_manager" where
  "validateSourceRegistration s m =
     (if src_name s = [] then Inl EmptySourceName
      else if list_ex (\<lambda>e. src_name e = src_name s) (mg_sources m) then Inl (DuplicateSourceName (src_name s))
      else rbind (check_owned_fields (src_name s) (mg_fieldOwners m) (src_owned s))
             (\<lambda>_. Inr (m\<lparr>mg_fieldOwners :=
                fold (\<lambda>field. oput field (src_name s)) (src_owned s) (mg_fieldOwners m)\<rparr>)))"

definition addSource ::
  "inventory_source option \<Rightarrow> inventory_manager \<Rightarrow> manager_error + inventory_manager" where
  "addSource source m =
     (case source of
        None \<Rightarrow> Inl SourceIsNull
      | Some s \<Rightarrow> rbind (validateSourceRegistration s m)
                    (\<lambda>m'. Inr (m'\<lparr>mg_sources := mg_sources m' @ [s]\<rparr>)))"


section \<open>Refresh\<close>

record collected_result =
  cr_name :: string
  cr_required :: bool
  cr_collectedFields :: inventory_fields
  cr_state :: source_state

type_synonym source_answer = "source_state \<times> (string + inventory_fields)"

text \<open>
  The reserved-field check throws a \<open>runtime_error\<close> that names the source and the field; it is
  caught by the handler of the same call and ends as the source's \<open>lastError\<close>.
\<close>

definition quoted :: "string \<Rightarrow> string" where
  "quoted s = [CHR 0x27] @ s @ [CHR 0x27]"

definition reserved_error :: "string \<Rightarrow> string \<Rightarrow> string" where
  "reserved_error name field =
     ''Inventory source '' @ quoted name @ '' returned reserved metadata field '' @ quoted field"

definition collect_source ::
  "(string \<Rightarrow> source_answer) \<Rightarrow> 64 word \<Rightarrow> 64 word \<Rightarrow> inventory_source \<Rightarrow> collected_result" where
  "collect_source ask attemptTs successTs s =
     (let name = src_name s;
          st0 = (fst (ask name))\<lparr>ss_name := name, ss_required := src_required s,
                                  ss_lastAttemptTs := attemptTs\<rparr>;
          outcome = rbind (snd (ask name))
            (\<lambda>raw. if contains_reserved_metadata_fields raw
                   then Inl (reserved_error name (first_reserved_metadata_field raw))
                   else Inr (if isSubsetOfOwnedFields raw (src_owned s) then raw
                             else fold oerase (getUndeclaredFields raw (src_owned s)) raw))
      in (case outcome of
            Inr fs \<Rightarrow> \<lparr>cr_name = name, cr_required = src_required s, cr_collectedFields = fs,
                       cr_state = st0\<lparr>ss_health := HealthOk, ss_stale := False,
                                       ss_lastSuccessTs := successTs, ss_lastError := None\<rparr>\<rparr>
          | Inl err \<Rightarrow> \<lparr>cr_name = name, cr_required = src_required s, cr_collectedFields = [],
                       cr_state = st0\<lparr>ss_health := HealthFailed, ss_lastError := Some err\<rparr>\<rparr>))"

definition refresh_collect ::
  "(string \<Rightarrow> source_answer) \<Rightarrow> 64 word \<Rightarrow> (string \<Rightarrow> 64 word) \<Rightarrow> inventory_source list
     \<Rightarrow> collected_result list" where
  "refresh_collect ask attemptTs successTs srcs =
     map (\<lambda>s. collect_source ask attemptTs (successTs (src_name s)) s) srcs"

definition diffSourceOwnedFields :: "inventory_fields \<Rightarrow> inventory_fields \<Rightarrow> inventory_diff" where
  "diffSourceOwnedFields oldFields newFields =
     \<lparr>df_changedFields = map fst (filter (\<lambda>(field, newValue).
         (case map_of oldFields field of None \<Rightarrow> True | Some oldValue \<Rightarrow> oldValue \<noteq> newValue)) newFields),
      df_removedFields = filter (\<lambda>field. map_of newFields field = None) (map fst oldFields)\<rparr>"

fun allRequiredSourcesOk :: "inventory_source list \<Rightarrow> source_state_map \<Rightarrow> bool" where
  "allRequiredSourcesOk [] states \<longleftrightarrow> True"
| "allRequiredSourcesOk (s # srcs) states \<longleftrightarrow>
     (case map_of states (src_name s) of
        None \<Rightarrow> (if src_required s then False else allRequiredSourcesOk srcs states)
      | Some st \<Rightarrow> (if src_required s \<and> ss_health st \<noteq> HealthOk then False
                    else allRequiredSourcesOk srcs states))"

text \<open>One round of the merge loop: the new fields and the new states.\<close>

definition merge_result ::
  "inventory_manager \<Rightarrow> collected_result \<Rightarrow> inventory_fields \<times> source_state_map
     \<Rightarrow> inventory_fields \<times> source_state_map" where
  "merge_result m r acc =
     (case acc of (newFields, newStates) \<Rightarrow>
       (case find (\<lambda>s. src_name s = cr_name r) (mg_sources m) of
          None \<Rightarrow> (newFields, newStates)
        | Some owner \<Rightarrow>
            (let newStates1 = oput (cr_name r) (cr_state r) newStates
             in if ss_health (cr_state r) = HealthOk then
                  (fold (\<lambda>(k, v). oput k v) (cr_collectedFields r) (fold oerase (src_owned owner) newFields),
                   newStates1)
                else
                  (newFields,
                   case map_of (mg_sourceStates m) (cr_name r) of
                     Some prev \<Rightarrow> oput (cr_name r)
                                   ((cr_state r)\<lparr>ss_lastSuccessTs := ss_lastSuccessTs prev\<rparr>) newStates1
                   | None \<Rightarrow> newStates1))))"

definition refresh_merge ::
  "64 word \<Rightarrow> collected_result list \<Rightarrow> inventory_manager \<Rightarrow> inventory_manager \<times> inventory_diff" where
  "refresh_merge now results m =
     (let snap = mg_snapshot m;
          (newFields, newStates) = fold (merge_result m) results (is_fields snap, mg_sourceStates m);
          diff = diffSourceOwnedFields (is_fields snap) newFields;
          readyLatched = (if \<not> is_ready snap \<and> allRequiredSourcesOk (mg_sources m) newStates
                          then True else is_ready snap);
          snap1 = snap\<lparr>is_ready := readyLatched,
                       is_phase := (if readyLatched then INV_PHASE_LIVE else INV_PHASE_INITIALIZING),
                       is_fields := newFields\<rparr>;
          snap2 = (if \<not> diff_empty diff
                   then snap1\<lparr>is_version := is_version snap1 + 1, is_timestamp := now\<rparr> else snap1)
      in (m\<lparr>mg_snapshot := snap2, mg_sourceStates := newStates\<rparr>, diff))"

definition refreshAll ::
  "(string \<Rightarrow> source_answer) \<Rightarrow> 64 word \<Rightarrow> (string \<Rightarrow> 64 word) \<Rightarrow> 64 word \<Rightarrow> inventory_manager
     \<Rightarrow> inventory_manager \<times> inventory_diff" where
  "refreshAll ask attemptTs successTs now m =
     refresh_merge now (refresh_collect ask attemptTs successTs (mg_sources m)) m"

definition getSnapshot :: "inventory_manager \<Rightarrow> inventory_snapshot" where
  "getSnapshot m = mg_snapshot m"

definition getSourceStates :: "inventory_manager \<Rightarrow> source_state_map" where
  "getSourceStates m = mg_sourceStates m"

definition manager_isReady :: "inventory_manager \<Rightarrow> bool" where
  "manager_isReady m = is_ready (mg_snapshot m)"

definition manager_getPhase :: "inventory_manager \<Rightarrow> string" where
  "manager_getPhase m = is_phase (mg_snapshot m)"

definition manager_getVersion :: "inventory_manager \<Rightarrow> 64 word" where
  "manager_getVersion m = is_version (mg_snapshot m)"


section \<open>Issues\<close>

definition source_issue :: "source_state \<Rightarrow> inventory_fields" where
  "source_issue st =
     (let isError = (ss_health st = HealthFailed \<and> ss_required st);
          i1 = oput ISSUE_SEVERITY (FString (if isError then SEVERITY_ERROR else SEVERITY_WARNING)) [];
          message = (case ss_lastError st of
                       Some err \<Rightarrow> (if err \<noteq> [] then err
                                     else if ss_stale st then ''source data is stale'' else ''source not healthy'')
                     | None \<Rightarrow> if ss_stale st then ''source data is stale'' else ''source not healthy'');
          i2 = oput ISSUE_MESSAGE (FString message) i1
      in (case ss_origin st of Some origin \<Rightarrow> oput ISSUE_ORIGIN (FString origin) i2 | None \<Rightarrow> i2))"

definition deriveIssues :: "source_state_map \<Rightarrow> inventory_issues" where
  "deriveIssues states =
     map (\<lambda>(name, st). (name, source_issue st))
       (filter (\<lambda>(name, st). \<not> (ss_health st = HealthOk \<and> \<not> ss_stale st)) states)"

end
