(* ===== verification/Inventory_Source.thy ===== *)
theory Inventory_Source
  imports Inventory_Contract
begin

text \<open>
  \<open>rmc-inventory/inputs/files\<close>: the file-backed inventory sources. The system calls that
  \<open>readFileContents\<close> makes are its argument: the result of \<open>open\<close>, of \<open>fstat\<close> and the successive
  results of \<open>read\<close>. The read loop consumes those results one by one; a list that ends before an
  end-of-file or an error stands for a loop that is still running (\<open>None\<close>). The JSON reader is a
  record of the operations the source calls.
\<close>

datatype source_error =
    InvalidFilePath string
  | RefusingSymlink string
  | SystemError int string
  | RefusingNonRegular string
  | NegativeFileSize string
  | FileTooLarge string
  | EmptyContent string
  | JsonParseFailed string
  | RootNotObject
  | NotNonEmptyString string

text \<open>The text of \<open>what()\<close>, of which the sources keep a bounded copy.\<close>

type_synonym error_text = "source_error \<Rightarrow> string"

definition kMaxFileBytes :: nat where "kMaxFileBytes = 64 * 1024"
definition kMaxErrorBytes :: nat where "kMaxErrorBytes = 512"
definition ELOOP :: int where "ELOOP = 40"
definition EINTR :: int where "EINTR = 4"

record file_stat =
  fst_isreg :: bool
  fst_size :: int

datatype read_result = ReadBytes string | ReadError int

record file_calls =
  fc_open :: "int option"
  fc_fstat :: "int + file_stat"
  fc_reads :: "read_result list"


section \<open>Reading a file\<close>

fun read_loop :: "string \<Rightarrow> read_result list \<Rightarrow> string \<Rightarrow> (source_error + string) option" where
  "read_loop path [] contents = None"
| "read_loop path (ReadError e # rs) contents =
     (if e = EINTR then read_loop path rs contents else Some (Inl (SystemError e path)))"
| "read_loop path (ReadBytes b # rs) contents =
     (if b = [] then Some (Inr contents)
      else (let contents' = contents @ b
            in if length contents' > kMaxFileBytes then Some (Inl (FileTooLarge path))
               else read_loop path rs contents'))"

definition readFileContents :: "string \<Rightarrow> file_calls \<Rightarrow> (source_error + string) option" where
  "readFileContents path calls =
     (case fc_open calls of
        Some e \<Rightarrow> Some (Inl (if e = ELOOP then RefusingSymlink path else SystemError e path))
      | None \<Rightarrow>
          (case fc_fstat calls of
             Inl e \<Rightarrow> Some (Inl (SystemError e path))
           | Inr st \<Rightarrow>
               if \<not> fst_isreg st then Some (Inl (RefusingNonRegular path))
               else if fst_size st < 0 then Some (Inl (NegativeFileSize path))
               else if fst_size st > int kMaxFileBytes then Some (Inl (FileTooLarge path))
               else read_loop path (fc_reads calls) []))"

definition is_ws :: "char \<Rightarrow> bool" where
  "is_ws c \<longleftrightarrow> c = CHR '' '' \<or> c = CHR 0x09 \<or> c = CHR 0x0D \<or> c = CHR 0x0A"

definition scalarFromContents :: "string \<Rightarrow> string \<Rightarrow> source_error + string" where
  "scalarFromContents contents what =
     (let rest = dropWhile is_ws contents
      in if rest = [] then Inl (EmptyContent what)
         else Inr (rev (dropWhile is_ws (rev rest))))"

definition boundedErrorText :: "string \<Rightarrow> string" where
  "boundedErrorText err =
     (if length err \<le> kMaxErrorBytes then err else take kMaxErrorBytes err @ ''...'')"


section \<open>The sources\<close>

record file_source =
  fs_name :: string
  fs_required :: bool
  fs_filePath :: string
  fs_ownedFields :: "string list"
  fs_state :: source_state

text \<open>\<open>path.filename()\<close> is the part after the last slash.\<close>

definition path_filename :: "string \<Rightarrow> string" where
  "path_filename p = rev (takeWhile (\<lambda>c. c \<noteq> CHR ''/'') (rev p))"

definition new_file_source ::
  "string \<Rightarrow> bool \<Rightarrow> string \<Rightarrow> string list \<Rightarrow> source_error + file_source" where
  "new_file_source name required filePath ownedFields =
     (if filePath = [] \<or> path_filename filePath = [] then Inl (InvalidFilePath name)
      else Inr \<lparr>fs_name = name, fs_required = required, fs_filePath = filePath,
                fs_ownedFields = ownedFields,
                fs_state = empty_source_state\<lparr>ss_name := name, ss_required := required,
                             ss_health := HealthFailed, ss_origin := Some filePath\<rparr>\<rparr>)"

definition noteSuccess :: "file_source \<Rightarrow> file_source" where
  "noteSuccess s = s\<lparr>fs_state := (fs_state s)\<lparr>ss_health := HealthOk, ss_lastError := None\<rparr>\<rparr>"

definition noteFailure :: "string \<Rightarrow> file_source \<Rightarrow> file_source" where
  "noteFailure err s = s\<lparr>fs_state := (fs_state s)\<lparr>ss_health := HealthFailed, ss_lastError := Some err\<rparr>\<rparr>"

text \<open>\<open>collect\<close> is parameterised by the virtual \<open>fieldsFromContents\<close> of the concrete source.\<close>

definition file_collect ::
  "error_text \<Rightarrow> (string \<Rightarrow> source_error + inventory_fields) \<Rightarrow> file_calls \<Rightarrow> file_source
     \<Rightarrow> (file_source \<times> (source_error + inventory_fields)) option" where
  "file_collect what fieldsFromContents calls s =
     (case readFileContents (fs_filePath s) calls of
        None \<Rightarrow> None
      | Some r \<Rightarrow>
          Some (case rbind r fieldsFromContents of
                  Inr flds \<Rightarrow> (noteSuccess s, Inr flds)
                | Inl e \<Rightarrow> (noteFailure (boundedErrorText (what e)) s, Inl e)))"

definition new_scalar_source :: "string \<Rightarrow> bool \<Rightarrow> string \<Rightarrow> string \<Rightarrow> source_error + file_source" where
  "new_scalar_source name required filePath fieldName =
     new_file_source name required filePath [fieldName]"

definition scalar_fieldsFromContents :: "file_source \<Rightarrow> string \<Rightarrow> source_error + inventory_fields" where
  "scalar_fieldsFromContents s contents =
     rbind (scalarFromContents contents (fs_name s))
       (\<lambda>v. Inr [(hd (fs_ownedFields s), FString v)])"

record 'j json_ops =
  js_parse :: "string \<Rightarrow> string + 'j"
  js_isObject :: "'j \<Rightarrow> bool"
  js_isMember :: "'j \<Rightarrow> string \<Rightarrow> bool"
  js_member :: "'j \<Rightarrow> string \<Rightarrow> 'j"
  js_isString :: "'j \<Rightarrow> bool"
  js_asString :: "'j \<Rightarrow> string"

definition addStringField ::
  "'j json_ops \<Rightarrow> 'j \<Rightarrow> string \<Rightarrow> string \<Rightarrow> inventory_fields \<Rightarrow> source_error + inventory_fields" where
  "addStringField J root jsonKey contractField out =
     (if \<not> js_isMember J root jsonKey then Inr out
      else (let v = js_member J root jsonKey
            in if \<not> js_isString J v \<or> js_asString J v = [] then Inl (NotNonEmptyString jsonKey)
               else Inr (if map_of out contractField = None
                         then oput contractField (FString (js_asString J v)) out else out)))"

definition new_device_meta_source :: "string \<Rightarrow> bool \<Rightarrow> source_error + file_source" where
  "new_device_meta_source filePath required =
     new_file_source ''device-meta-file'' required filePath
       [FIELD_DEVICE_CLASS, FIELD_DEVICE_MODEL_ID, FIELD_DEVICE_PROJECT]"

definition meta_fieldsFromContents :: "'j json_ops \<Rightarrow> string \<Rightarrow> source_error + inventory_fields" where
  "meta_fieldsFromContents J contents =
     (case js_parse J contents of
        Inl errs \<Rightarrow> Inl (JsonParseFailed errs)
      | Inr root \<Rightarrow>
          if \<not> js_isObject J root then Inl RootNotObject
          else rbind (addStringField J root ''device_class'' FIELD_DEVICE_CLASS [])
                 (\<lambda>o1. rbind (addStringField J root ''device_model_id'' FIELD_DEVICE_MODEL_ID o1)
                   (\<lambda>o2. addStringField J root ''device_project'' FIELD_DEVICE_PROJECT o2)))"


section \<open>Facts\<close>

lemma read_loop_bound:
  "read_loop path rs contents = Some (Inr out) \<Longrightarrow> length contents \<le> kMaxFileBytes \<Longrightarrow>
   length out \<le> kMaxFileBytes"
  by (induction path rs contents rule: read_loop.induct) (auto simp: Let_def split: if_splits)

fun chunks_before_eof :: "read_result list \<Rightarrow> string" where
  "chunks_before_eof [] = []"
| "chunks_before_eof (ReadError e # rs) = chunks_before_eof rs"
| "chunks_before_eof (ReadBytes b # rs) = (if b = [] then [] else b @ chunks_before_eof rs)"

lemma read_loop_contents:
  "read_loop path rs contents = Some (Inr out) \<Longrightarrow> out = contents @ chunks_before_eof rs"
  by (induction path rs contents rule: read_loop.induct) (auto simp: Let_def split: if_splits)

text \<open>A file that fits and is read without error is returned, whatever interruptions occur.\<close>

lemma read_loop_returns:
  assumes "\<forall>r \<in> set rs. \<forall>e. r = ReadError e \<longrightarrow> e = EINTR" "ReadBytes [] \<in> set rs"
    "length contents + length (chunks_before_eof rs) \<le> kMaxFileBytes"
  shows "read_loop path rs contents = Some (Inr (contents @ chunks_before_eof rs))"
  using assms
  by (induction path rs contents rule: read_loop.induct) (auto simp: Let_def split: if_splits)

lemma boundedErrorText_length: "length (boundedErrorText err) \<le> kMaxErrorBytes + 3"
  by (simp add: boundedErrorText_def)

lemma scalar_trim:
  assumes "scalarFromContents contents what = Inr v"
  shows "v \<noteq> []" "\<not> is_ws (hd v)" "\<not> is_ws (last v)"
    "\<exists>l r. contents = l @ v @ r \<and> list_all is_ws l \<and> list_all is_ws r"
proof -
  define rest where "rest = dropWhile is_ws contents"
  have ne: "rest \<noteq> []" and v: "v = rev (dropWhile is_ws (rev rest))"
    using assms by (auto simp: scalarFromContents_def Let_def rest_def split: if_splits)
  have h: "\<not> is_ws (hd rest)" using ne hd_dropWhile unfolding rest_def by blast
  then have dv: "dropWhile is_ws (rev rest) \<noteq> []"
    using ne hd_in_set by (auto simp: dropWhile_eq_Nil_conv)
  show nv: "v \<noteq> []" using dv v by simp
  define r where "r = rev (takeWhile is_ws (rev rest))"
  have split: "rest = v @ r"
    using takeWhile_dropWhile_id[of is_ws "rev rest"] unfolding v r_def
    by (metis rev_append rev_rev_ident)
  show "\<not> is_ws (hd v)" using h nv split by simp
  show "\<not> is_ws (last v)" using dv v by (simp add: last_rev hd_dropWhile)
  have "contents = takeWhile is_ws contents @ v @ r"
    using takeWhile_dropWhile_id[of is_ws contents] split unfolding rest_def by simp
  moreover have "list_all is_ws (takeWhile is_ws contents)" "list_all is_ws r"
    by (auto simp: list_all_iff r_def dest: set_takeWhileD)
  ultimately show "\<exists>l r. contents = l @ v @ r \<and> list_all is_ws l \<and> list_all is_ws r" by blast
qed

lemma addStringField_keys:
  assumes "addStringField J root k f out = Inr out'"
  shows "keys out' \<subseteq> insert f (keys out)" "omap_ok out \<Longrightarrow> omap_ok out'"
proof -
  have "out' = out \<or> (\<exists>v. out' = oput f v out)"
    using assms by (auto simp: addStringField_def Let_def split: if_splits)
  then show "keys out' \<subseteq> insert f (keys out)" "omap_ok out \<Longrightarrow> omap_ok out'"
    by (elim disjE exE, simp_all add: omap_ok_oput subset_insertI)+
qed

lemma meta_fields_declared:
  assumes "meta_fieldsFromContents J contents = Inr flds"
  shows "keys flds \<subseteq> {FIELD_DEVICE_CLASS, FIELD_DEVICE_MODEL_ID, FIELD_DEVICE_PROJECT}" "omap_ok flds"
proof -
  obtain root where "js_parse J contents = Inr root" "js_isObject J root"
    using assms by (auto simp: meta_fieldsFromContents_def split: sum.splits if_splits)
  then obtain o1 o2 where
    1: "addStringField J root ''device_class'' FIELD_DEVICE_CLASS [] = Inr o1" and
    2: "addStringField J root ''device_model_id'' FIELD_DEVICE_MODEL_ID o1 = Inr o2" and
    3: "addStringField J root ''device_project'' FIELD_DEVICE_PROJECT o2 = Inr flds"
    using assms unfolding meta_fieldsFromContents_def by auto
  have "keys o1 \<subseteq> {FIELD_DEVICE_CLASS}" using addStringField_keys(1)[OF 1] by simp
  then show "keys flds \<subseteq> {FIELD_DEVICE_CLASS, FIELD_DEVICE_MODEL_ID, FIELD_DEVICE_PROJECT}"
    using addStringField_keys(1)[OF 2] addStringField_keys(1)[OF 3] by blast
  show "omap_ok flds"
    using addStringField_keys(2)[OF 1] addStringField_keys(2)[OF 2] addStringField_keys(2)[OF 3] by simp
qed

end
