(* ===== verification/Inventory_Properties.thy ===== *)
theory Inventory_Properties
  imports Inventory_Manager Inventory_Source
begin

text \<open>
  Correctness of the inventory: field ownership is exclusive and survives every operation, a refresh
  replaces exactly the fields of the sources that answered, the diff and the version tell whether
  anything changed, and readiness latches.
\<close>

section \<open>Ordered maps under folds\<close>

lemma omap_ok_fold_oerase: "omap_ok m \<Longrightarrow> omap_ok (fold oerase ks m)"
  by (induction ks arbitrary: m) (simp_all add: omap_ok_oerase)

lemma map_of_fold_oerase: "map_of (fold oerase ks m) f = (if f \<in> set ks then None else map_of m f)"
  by (induction ks arbitrary: m) (simp_all add: map_of_oerase)

lemma omap_ok_fold_oput: "omap_ok m \<Longrightarrow> omap_ok (fold (\<lambda>(k, v). oput k v) c m)"
  by (induction c arbitrary: m) (auto simp: omap_ok_oput)

lemma map_of_fold_oput:
  "omap_ok m \<Longrightarrow> distinct_keys c \<Longrightarrow>
   map_of (fold (\<lambda>(k, v). oput k v) c m) f = (case map_of c f of Some v \<Rightarrow> Some v | None \<Rightarrow> map_of m f)"
proof (induction c arbitrary: m)
  case (Cons kv c)
  obtain k v where kv: "kv = (k, v)" by (cases kv)
  have "map_of c k = None" using Cons.prems kv by (simp add: map_of_eq_None_iff)
  with Cons kv show ?case by (simp add: omap_ok_oput map_of_oput split: option.split)
qed simp

lemma fold_oput_const:
  "omap_ok m \<Longrightarrow> omap_ok (fold (\<lambda>f. oput f n) fs m)"
  "omap_ok m \<Longrightarrow> map_of (fold (\<lambda>f. oput f n) fs m) f = (if f \<in> set fs then Some n else map_of m f)"
  by (induction fs arbitrary: m) (simp_all add: omap_ok_oput map_of_oput)


section \<open>The invariant of the manager\<close>

definition owners_ok :: "inventory_source list \<Rightarrow> string omap \<Rightarrow> bool" where
  "owners_ok srcs owners \<longleftrightarrow>
     omap_ok owners \<and> distinct (map src_name srcs) \<and> [] \<notin> src_name ` set srcs \<and>
     (\<forall>f n. map_of owners f = Some n \<longleftrightarrow> (\<exists>s \<in> set srcs. src_name s = n \<and> f \<in> set (src_owned s))) \<and>
     (\<forall>s \<in> set srcs. \<forall>f \<in> set (src_owned s). f \<noteq> [] \<and> \<not> is_metadata_field f)"

definition snapshot_ok :: "string omap \<Rightarrow> inventory_snapshot \<Rightarrow> bool" where
  "snapshot_ok owners snap \<longleftrightarrow>
     omap_ok (is_fields snap) \<and>
     (\<forall>f. map_of owners f = None \<longrightarrow> map_of (is_fields snap) f = None) \<and>
     is_phase snap \<in> (if is_ready snap then {INV_PHASE_LIVE} else {[], INV_PHASE_INITIALIZING})"

definition manager_ok :: "inventory_manager \<Rightarrow> bool" where
  "manager_ok m \<longleftrightarrow>
     owners_ok (mg_sources m) (mg_fieldOwners m) \<and> snapshot_ok (mg_fieldOwners m) (mg_snapshot m) \<and>
     omap_ok (mg_sourceStates m) \<and>
     keys (mg_sourceStates m) \<subseteq> src_name ` set (mg_sources m)"

text \<open>Ownership is exclusive.\<close>

lemma owner_unique:
  assumes "owners_ok srcs owners" "s \<in> set srcs" "t \<in> set srcs" "f \<in> set (src_owned s)" "f \<in> set (src_owned t)"
  shows "s = t"
proof -
  have "map_of owners f = Some (src_name s)" "map_of owners f = Some (src_name t)"
    using assms unfolding owners_ok_def by blast+
  then have "src_name s = src_name t" by simp
  then show ?thesis using assms(1-3) by (auto simp: owners_ok_def distinct_map inj_on_def)
qed

lemma check_owned_Inr:
  "check_owned_fields n owners fs = Inr u \<longleftrightarrow>
   (\<forall>f \<in> set fs. f \<noteq> [] \<and> \<not> is_metadata_field f \<and> map_of owners f = None)"
  by (induction fs) (auto split: option.splits)

lemma addSource_Inr:
  "addSource source m = Inr m' \<longleftrightarrow>
   (\<exists>s. source = Some s \<and> src_name s \<noteq> [] \<and> src_name s \<notin> src_name ` set (mg_sources m) \<and>
        (\<forall>f \<in> set (src_owned s). f \<noteq> [] \<and> \<not> is_metadata_field f \<and> map_of (mg_fieldOwners m) f = None) \<and>
        m' = m\<lparr>mg_fieldOwners := fold (\<lambda>f. oput f (src_name s)) (src_owned s) (mg_fieldOwners m),
               mg_sources := mg_sources m @ [s]\<rparr>)"
  by (cases source)
     (auto simp: addSource_def validateSourceRegistration_def check_owned_Inr list_ex_iff image_iff
       split: if_splits, metis)

lemma addSource_ok:
  assumes ok: "manager_ok m" and add: "addSource source m = Inr m'"
  shows "manager_ok m'"
proof -
  obtain s where s: "src_name s \<noteq> []" "src_name s \<notin> src_name ` set (mg_sources m)"
    "\<And>f. f \<in> set (src_owned s) \<Longrightarrow> f \<noteq> [] \<and> \<not> is_metadata_field f \<and> map_of (mg_fieldOwners m) f = None"
    and m': "m' = m\<lparr>mg_fieldOwners := fold (\<lambda>f. oput f (src_name s)) (src_owned s) (mg_fieldOwners m),
               mg_sources := mg_sources m @ [s]\<rparr>"
    using add unfolding addSource_Inr by blast
  have o: "owners_ok (mg_sources m) (mg_fieldOwners m)" using ok by (simp add: manager_ok_def)
  then have oo: "omap_ok (mg_fieldOwners m)" by (simp add: owners_ok_def)
  note lk = fold_oput_const(2)[OF oo, of "src_name s" "src_owned s"]
  have own: "(map_of (mg_fieldOwners m') f = Some n) \<longleftrightarrow>
      (\<exists>t \<in> set (mg_sources m'). src_name t = n \<and> f \<in> set (src_owned t))" for f n
  proof -
    have old: "(map_of (mg_fieldOwners m) f = Some n) \<longleftrightarrow>
        (\<exists>t \<in> set (mg_sources m). src_name t = n \<and> f \<in> set (src_owned t))"
      using o by (simp add: owners_ok_def)
    have fresh: "f \<in> set (src_owned s) \<Longrightarrow> \<not> (\<exists>t \<in> set (mg_sources m). f \<in> set (src_owned t))"
      using o s(3)[of f] unfolding owners_ok_def by (metis option.distinct(1))
    show ?thesis using old fresh by (auto simp: m' lk)
  qed
  have "owners_ok (mg_sources m') (mg_fieldOwners m')"
    using o s own fold_oput_const(1)[OF oo] unfolding owners_ok_def m' by auto
  moreover have "snapshot_ok (mg_fieldOwners m') (mg_snapshot m')"
    using ok by (auto simp: manager_ok_def snapshot_ok_def m' lk split: if_splits)
  ultimately show ?thesis using ok by (auto simp: manager_ok_def m')
qed



section \<open>One source in one refresh\<close>

text \<open>The fields a refresh accepts from a source: none when \<open>collect\<close> fails or names metadata.\<close>

definition accepted :: "(string \<Rightarrow> source_answer) \<Rightarrow> inventory_source \<Rightarrow> inventory_fields option" where
  "accepted ask s =
     (case snd (ask (src_name s)) of
        Inl err \<Rightarrow> None
      | Inr raw \<Rightarrow> if \<exists>f \<in> keys raw. is_metadata_field f then None
                   else Some (filter (\<lambda>kv. fst kv \<in> set (src_owned s)) raw))"

lemma fold_oerase_undeclared:
  "fold oerase (getUndeclaredFields raw owned) raw = filter (\<lambda>kv. fst kv \<in> set owned) raw"
proof -
  have "fold oerase ks m = filter (\<lambda>kv. fst kv \<notin> set ks) m" for ks and m :: inventory_fields
    by (induction ks arbitrary: m) (simp_all add: oerase_def conj_commute)
  then show ?thesis by (auto simp: getUndeclaredFields_def intro!: filter_cong)
qed

lemma collect_source_fields:
  "cr_name (collect_source ask a t s) = src_name s"
  "ss_health (cr_state (collect_source ask a t s)) = HealthOk \<longleftrightarrow> accepted ask s \<noteq> None"
  "accepted ask s = Some fs \<Longrightarrow> cr_collectedFields (collect_source ask a t s) = fs"
proof -
  have sub: "isSubsetOfOwnedFields raw owned \<Longrightarrow> raw = filter (\<lambda>kv. fst kv \<in> set owned) raw" for raw owned
    by (simp add: isSubsetOfOwnedFields_def list_all_iff)
  have meta: "contains_reserved_metadata_fields raw \<longleftrightarrow> (\<exists>f \<in> keys raw. is_metadata_field f)" for raw
    by (auto simp: contains_reserved_metadata_fields_def list_ex_iff)
  show "cr_name (collect_source ask a t s) = src_name s"
    by (simp add: collect_source_def Let_def split: sum.split)
  show "ss_health (cr_state (collect_source ask a t s)) = HealthOk \<longleftrightarrow> accepted ask s \<noteq> None"
    by (auto simp: collect_source_def Let_def accepted_def meta[simplified] split: sum.split)
  show "accepted ask s = Some fs \<Longrightarrow> cr_collectedFields (collect_source ask a t s) = fs"
    using sub
    by (auto simp: collect_source_def Let_def accepted_def meta[simplified] fold_oerase_undeclared
        split: sum.splits if_splits)
qed

text \<open>The answers are \<open>std::map\<close>s, hence ordered.\<close>

definition answers_ok :: "(string \<Rightarrow> source_answer) \<Rightarrow> bool" where
  "answers_ok ask \<longleftrightarrow> (\<forall>n raw. snd (ask n) = Inr raw \<longrightarrow> omap_ok raw)"

lemma accepted_fields:
  assumes "answers_ok ask" "accepted ask s = Some fs"
  shows "omap_ok fs" "keys fs \<subseteq> set (src_owned s)" "\<forall>f \<in> keys fs. \<not> is_metadata_field f"
proof -
  obtain raw where raw: "snd (ask (src_name s)) = Inr raw" "fs = filter (\<lambda>kv. fst kv \<in> set (src_owned s)) raw"
    "\<not> (\<exists>f \<in> keys raw. is_metadata_field f)"
    using assms(2) by (auto simp: accepted_def split: sum.splits if_splits)
  have "omap_ok raw" using assms(1) raw(1) by (auto simp: answers_ok_def)
  then show "omap_ok fs" unfolding raw(2) by (induction raw) auto
  show "keys fs \<subseteq> set (src_owned s)" "\<forall>f \<in> keys fs. \<not> is_metadata_field f"
    using raw by auto
qed


section \<open>The merge\<close>

lemma find_source:
  assumes "distinct (map src_name srcs)" "s \<in> set srcs"
  shows "find (\<lambda>t. src_name t = src_name s) srcs = Some s"
proof -
  have "find (\<lambda>t. src_name t = src_name s) srcs \<noteq> None" using assms(2) by (auto simp: find_None_iff)
  then obtain t where t: "find (\<lambda>t. src_name t = src_name s) srcs = Some t" by blast
  then have "t \<in> set srcs" "src_name t = src_name s" by (auto simp: find_Some_iff)
  then show ?thesis using t assms by (auto simp: distinct_map inj_on_def)
qed

lemma merge_result_fields:
  assumes m: "distinct (map src_name (mg_sources m))" "s \<in> set (mg_sources m)" and a: "answers_ok ask"
    and F: "omap_ok F"
  shows "map_of (fst (merge_result m (collect_source ask ta ts s) (F, S))) f =
           (case accepted ask s of
              Some fs \<Rightarrow> if f \<in> set (src_owned s) then map_of fs f else map_of F f
            | None \<Rightarrow> map_of F f)" (is "?map")
    and "omap_ok (fst (merge_result m (collect_source ask ta ts s) (F, S)))" (is "?ok")
proof -
  note D = collect_source_fields[where ask = ask and a = ta and t = ts and s = s] and fnd = find_source[OF m]
  have "?map \<and> ?ok"
  proof (cases "accepted ask s")
    case None
    then show ?thesis using F D fnd by (simp add: merge_result_def Let_def)
  next
    case (Some fs)
    note A = accepted_fields[OF a Some]
    have "map_of fs f = None" if "f \<notin> set (src_owned s)" using A(2) that by (auto simp: map_of_eq_None_iff)
    then show ?thesis using Some F D(1,2) D(3)[OF Some] fnd omap_ok_distinct[OF A(1)]
      by (auto simp: merge_result_def Let_def map_of_fold_oput omap_ok_fold_oerase omap_ok_fold_oput
          map_of_fold_oerase split: option.split)
  qed
  then show ?map ?ok by blast+
qed

text \<open>What the merge leaves of a field, given the sources whose results it merges.\<close>

definition merged_fields ::
  "(string \<Rightarrow> source_answer) \<Rightarrow> inventory_source list \<Rightarrow> inventory_source list \<Rightarrow> inventory_fields
     \<Rightarrow> inventory_fields \<Rightarrow> bool" where
  "merged_fields ask all srcs F G \<longleftrightarrow>
     omap_ok G \<and>
     (\<forall>s \<in> set all. \<forall>f \<in> set (src_owned s).
        map_of G f = (if s \<in> set srcs then (case accepted ask s of Some fs \<Rightarrow> map_of fs f | None \<Rightarrow> map_of F f)
                      else map_of F f)) \<and>
     (\<forall>f. (\<forall>s \<in> set all. f \<notin> set (src_owned s)) \<longrightarrow> map_of G f = map_of F f)"

lemma merged_fields_step:
  assumes o: "owners_ok all owners" and t: "t \<in> set all" and G: "merged_fields ask all srcs F' G"
    and F': "\<And>f. map_of F' f = (case accepted ask t of
              Some fs \<Rightarrow> if f \<in> set (src_owned t) then map_of fs f else map_of F f | None \<Rightarrow> map_of F f)"
  shows "merged_fields ask all (t # srcs) F G"
proof -
  have "map_of G f = (if s \<in> set (t # srcs) then (case accepted ask s of Some fs \<Rightarrow> map_of fs f | None \<Rightarrow> map_of F f)
                      else map_of F f)" if "s \<in> set all" "f \<in> set (src_owned s)" for s f
  proof -
    have "f \<in> set (src_owned t) \<Longrightarrow> s = t" using owner_unique[OF o that(1) t that(2)] by blast
    then show ?thesis using G F'[of f] that by (auto simp: merged_fields_def split: option.splits)
  qed
  moreover have "map_of G f = map_of F f" if "\<forall>s \<in> set all. f \<notin> set (src_owned s)" for f
    using that t G F'[of f] by (auto simp: merged_fields_def split: option.splits)
  ultimately show ?thesis using G by (simp add: merged_fields_def)
qed

lemma merge_fold_fields:
  assumes "owners_ok (mg_sources m) owners" "answers_ok ask"
  shows "set srcs \<subseteq> set (mg_sources m) \<Longrightarrow> omap_ok F \<Longrightarrow>
    merged_fields ask (mg_sources m) srcs F (fst (fold (merge_result m) (refresh_collect ask ta ts srcs) (F, S)))"
proof (induction srcs arbitrary: F S)
  case Nil
  then show ?case by (simp add: refresh_collect_def merged_fields_def)
next
  case (Cons t srcs)
  have d: "distinct (map src_name (mg_sources m))" using assms(1) by (simp add: owners_ok_def)
  have t: "t \<in> set (mg_sources m)" using Cons.prems by simp
  obtain F' S' where FS: "merge_result m (collect_source ask ta (ts (src_name t)) t) (F, S) = (F', S')"
    by fastforce
  note M = merge_result_fields[OF d t assms(2) Cons.prems(2), of ta "ts (src_name t)" S, unfolded FS fst_conv]
  have "merged_fields ask (mg_sources m) srcs F'
          (fst (fold (merge_result m) (refresh_collect ask ta ts srcs) (F', S')))"
    using Cons.IH[of F' S'] Cons.prems M(2) by simp
  then have "merged_fields ask (mg_sources m) (t # srcs) F
          (fst (fold (merge_result m) (refresh_collect ask ta ts srcs) (F', S')))"
    by (rule merged_fields_step[OF assms(1) t _ M(1)])
  then show ?case by (simp add: refresh_collect_def FS)
qed

lemma merge_fold_states:
  assumes "set srcs \<subseteq> set (mg_sources m)" "omap_ok S"
  shows "omap_ok (snd (fold (merge_result m) (refresh_collect ask ta ts srcs) (F, S))) \<and>
    keys (snd (fold (merge_result m) (refresh_collect ask ta ts srcs) (F, S)))
      \<subseteq> keys S \<union> src_name ` set (mg_sources m)"
  using assms
proof (induction srcs arbitrary: F S)
  case (Cons t srcs)
  obtain F' S' where FS: "merge_result m (collect_source ask ta (ts (src_name t)) t) (F, S) = (F', S')"
    by fastforce
  have n: "cr_name (collect_source ask ta (ts (src_name t)) t) = src_name t"
    by (rule collect_source_fields)
  have "S' = S \<or> (\<exists>v. S' = oput (src_name t) v S) \<or>
      (\<exists>v w. S' = oput (src_name t) w (oput (src_name t) v S))"
    using FS n by (auto simp: merge_result_def Let_def split: option.splits if_splits)
  then have "omap_ok S' \<and> keys S' \<subseteq> insert (src_name t) (keys S)"
    using Cons.prems(2) by (elim disjE exE) (simp_all add: omap_ok_oput subset_insertI)
  then show ?case using Cons.IH[of S' F'] Cons.prems(1) by (simp add: refresh_collect_def FS) blast
qed (simp add: refresh_collect_def)


section \<open>Refresh\<close>

lemma refresh_merge_parts:
  assumes "fold (merge_result m) results (is_fields (mg_snapshot m), mg_sourceStates m) = (F, S)"
    "refresh_merge now results m = (m', d)"
  shows "mg_sources m' = mg_sources m" "mg_fieldOwners m' = mg_fieldOwners m" "mg_sourceStates m' = S"
    "is_fields (mg_snapshot m') = F"
    "d = diffSourceOwnedFields (is_fields (mg_snapshot m)) F"
    "is_ready (mg_snapshot m') \<longleftrightarrow> is_ready (mg_snapshot m) \<or> allRequiredSourcesOk (mg_sources m) S"
    "is_phase (mg_snapshot m') = (if is_ready (mg_snapshot m') then INV_PHASE_LIVE else INV_PHASE_INITIALIZING)"
    "is_version (mg_snapshot m') = is_version (mg_snapshot m) + (if diff_empty d then 0 else 1)"
    "is_timestamp (mg_snapshot m') = (if diff_empty d then is_timestamp (mg_snapshot m) else now)"
  using assms unfolding refresh_merge_def Let_def
  by (cases "diff_empty (diffSourceOwnedFields (is_fields (mg_snapshot m)) F)"; force)+

lemma refresh_merge_ok:
  assumes ok: "manager_ok m" and a: "answers_ok ask" and srcs: "set srcs \<subseteq> set (mg_sources m)"
  shows "manager_ok (fst (refresh_merge now (refresh_collect ask ta ts srcs) m))"
proof -
  let ?F0 = "is_fields (mg_snapshot m)" and ?S0 = "mg_sourceStates m"
  obtain F S where FS: "fold (merge_result m) (refresh_collect ask ta ts srcs) (?F0, ?S0) = (F, S)" by fastforce
  obtain m' d where m': "refresh_merge now (refresh_collect ask ta ts srcs) m = (m', d)" by fastforce
  note P = refresh_merge_parts[OF FS m']
  have o: "owners_ok (mg_sources m) (mg_fieldOwners m)" and F0: "omap_ok ?F0" and S0: "omap_ok ?S0"
    "keys ?S0 \<subseteq> src_name ` set (mg_sources m)"
    "\<And>f. map_of (mg_fieldOwners m) f = None \<Longrightarrow> map_of ?F0 f = None"
    using ok by (auto simp: manager_ok_def snapshot_ok_def)
  have G: "merged_fields ask (mg_sources m) srcs ?F0 F"
    using merge_fold_fields[OF o a srcs F0, of ta ts ?S0] FS by simp
  have "map_of F f = None" if "map_of (mg_fieldOwners m) f = None" for f
  proof -
    have "\<forall>s \<in> set (mg_sources m). f \<notin> set (src_owned s)"
      using o that unfolding owners_ok_def by (metis option.distinct(1))
    then show ?thesis using G S0(3)[OF that] by (simp add: merged_fields_def)
  qed
  then have "snapshot_ok (mg_fieldOwners m') (mg_snapshot m')"
    using G P by (auto simp: snapshot_ok_def merged_fields_def)
  moreover have "omap_ok S" "keys S \<subseteq> src_name ` set (mg_sources m)"
    using merge_fold_states[OF srcs S0(1), of ask ta ts ?F0, unfolded FS snd_conv] S0(2) by blast+
  ultimately show ?thesis using o P m' by (simp add: manager_ok_def)
qed

lemma new_manager_ok: "manager_ok new_manager"
  by (simp add: manager_ok_def new_manager_def owners_ok_def snapshot_ok_def empty_inventory_snapshot_def)

text \<open>The diff and the fields it compares.\<close>

lemma diff_sets:
  assumes "omap_ok old" "omap_ok new"
  shows "f \<in> set (df_changedFields (diffSourceOwnedFields old new)) \<longleftrightarrow>
           map_of new f \<noteq> None \<and> map_of new f \<noteq> map_of old f"
    and "f \<in> set (df_removedFields (diffSourceOwnedFields old new)) \<longleftrightarrow>
           map_of old f \<noteq> None \<and> map_of new f = None"
proof -
  have "(f, v) \<in> set new \<longleftrightarrow> map_of new f = Some v" for v
    by (rule in_set_map_of[OF omap_ok_distinct[OF assms(2)]])
  then show "f \<in> set (df_changedFields (diffSourceOwnedFields old new)) \<longleftrightarrow>
           map_of new f \<noteq> None \<and> map_of new f \<noteq> map_of old f"
    by (force simp: diffSourceOwnedFields_def image_iff split: option.splits)
  show "f \<in> set (df_removedFields (diffSourceOwnedFields old new)) \<longleftrightarrow>
           map_of old f \<noteq> None \<and> map_of new f = None"
    by (auto simp: diffSourceOwnedFields_def map_of_eq_None_iff)
qed

lemma diff_empty_iff:
  assumes "omap_ok old" "omap_ok new"
  shows "diff_empty (diffSourceOwnedFields old new) \<longleftrightarrow> old = new"
proof
  assume e: "diff_empty (diffSourceOwnedFields old new)"
  have "map_of old f = map_of new f" for f
    using diff_sets[OF assms, of f] e by (cases "map_of new f"; cases "map_of old f") (auto simp: diff_empty_def)
  then show "old = new" using omap_eqI[OF assms] by blast
next
  assume "old = new"
  then have "f \<notin> set (df_changedFields (diffSourceOwnedFields old new))"
    "f \<notin> set (df_removedFields (diffSourceOwnedFields old new))" for f
    using diff_sets[OF assms, of f] by (cases "map_of new f"; simp)+
  then have "set (df_changedFields (diffSourceOwnedFields old new)) = {}"
    "set (df_removedFields (diffSourceOwnedFields old new)) = {}"
    by (intro equals0I; blast)+
  then show "diff_empty (diffSourceOwnedFields old new)" by (simp add: diff_empty_def)
qed



section \<open>Properties\<close>

text \<open>The states of the manager that registrations and refreshes can produce.\<close>

inductive manager_reachable :: "inventory_manager \<Rightarrow> bool" where
  start: "manager_reachable new_manager"
| register: "manager_reachable m \<Longrightarrow> addSource source m = Inr m' \<Longrightarrow> manager_reachable m'"
| refresh: "manager_reachable m \<Longrightarrow> answers_ok ask \<Longrightarrow> set srcs \<subseteq> set (mg_sources m) \<Longrightarrow>
    manager_reachable (fst (refresh_merge now (refresh_collect ask ta ts srcs) m))"

lemma manager_reachable_ok: "manager_reachable m \<Longrightarrow> manager_ok m"
  by (induction rule: manager_reachable.induct) (auto intro: new_manager_ok addSource_ok refresh_merge_ok)

text \<open>
  (C9) Field ownership is exclusive and reserved names are never owned, in every state that
  registrations and refreshes produce, also when sources register while a refresh collects: two
  sources that own a field are one source, every field of the snapshot is owned, and no metadata
  name is ever a snapshot field.
\<close>

theorem inventory_ownership:
  assumes "manager_reachable m"
  shows "manager_ok m \<and>
    (\<forall>s t f. s \<in> set (mg_sources m) \<and> t \<in> set (mg_sources m) \<and> f \<in> set (src_owned s) \<inter> set (src_owned t)
       \<longrightarrow> s = t) \<and>
    (\<forall>f v. map_of (is_fields (mg_snapshot m)) f = Some v \<longrightarrow>
       \<not> is_metadata_field f \<and> (\<exists>s \<in> set (mg_sources m). f \<in> set (src_owned s)))"
proof -
  have ok: "manager_ok m" by (rule manager_reachable_ok[OF assms])
  then have o: "owners_ok (mg_sources m) (mg_fieldOwners m)" by (simp add: manager_ok_def)
  have "\<not> is_metadata_field f \<and> (\<exists>s \<in> set (mg_sources m). f \<in> set (src_owned s))"
    if v: "map_of (is_fields (mg_snapshot m)) f = Some v" for f v
  proof -
    have "map_of (mg_fieldOwners m) f \<noteq> None"
      using ok v unfolding manager_ok_def snapshot_ok_def by (metis option.distinct(1))
    then obtain s where "s \<in> set (mg_sources m)" "f \<in> set (src_owned s)"
      using o by (auto simp: owners_ok_def)
    then show ?thesis using o by (auto simp: owners_ok_def)
  qed
  then show ?thesis using ok owner_unique[OF o] by blast
qed

definition sample_source :: inventory_source where
  "sample_source = \<lparr>src_name = ''uuid-file'', src_required = True, src_owned = [''uuid'']\<rparr>"

definition sample_manager :: inventory_manager where
  "sample_manager = new_manager\<lparr>mg_fieldOwners := [(''uuid'', ''uuid-file'')], mg_sources := [sample_source]\<rparr>"

lemma sample_manager_added: "addSource (Some sample_source) new_manager = Inr sample_manager"
  by (simp add: addSource_def validateSourceRegistration_def sample_source_def new_manager_def
      sample_manager_def is_metadata_field_def metadata_names)

lemma sample_manager_reachable: "manager_reachable sample_manager"
  using manager_reachable.register[OF manager_reachable.start sample_manager_added] .

definition sample_answer :: "string \<Rightarrow> source_answer" where
  "sample_answer n = (empty_source_state, Inr [(''extra'', FBool True), (''uuid'', FString ''42'')])"

lemma sample_answers_ok: "answers_ok sample_answer"
  by (auto simp: answers_ok_def sample_answer_def)

theorem inventory_ownership_witness:
  "manager_ok (fst (refreshAll sample_answer 7 (\<lambda>_. 8) 9 sample_manager))"
  using inventory_ownership[OF manager_reachable.refresh[OF sample_manager_reachable sample_answers_ok subset_refl]]
  by (simp add: refreshAll_def)

lemma refresh_exact_fields:
  assumes "manager_reachable m" "answers_ok ask" "refreshAll ask ta ts now m = (m', d)"
    "s \<in> set (mg_sources m)" "f \<in> set (src_owned s)"
  shows "map_of (is_fields (mg_snapshot m')) f =
    (case snd (ask (src_name s)) of
       Inl err \<Rightarrow> map_of (is_fields (mg_snapshot m)) f
     | Inr raw \<Rightarrow> if \<exists>k \<in> keys raw. is_metadata_field k then map_of (is_fields (mg_snapshot m)) f
                  else map_of raw f)"
proof -
  have ok: "manager_ok m" by (rule manager_reachable_ok[OF assms(1)])
  then have o: "owners_ok (mg_sources m) (mg_fieldOwners m)" and F0: "omap_ok (is_fields (mg_snapshot m))"
    by (simp_all add: manager_ok_def snapshot_ok_def)
  obtain F S where FS: "fold (merge_result m) (refresh_collect ask ta ts (mg_sources m))
      (is_fields (mg_snapshot m), mg_sourceStates m) = (F, S)" by fastforce
  note P = refresh_merge_parts[OF FS assms(3)[unfolded refreshAll_def]]
  have "merged_fields ask (mg_sources m) (mg_sources m) (is_fields (mg_snapshot m)) F"
    using merge_fold_fields[OF o assms(2) subset_refl F0, of ta ts "mg_sourceStates m"] FS by simp
  then have "map_of F f = (case accepted ask s of Some fs \<Rightarrow> map_of fs f
                           | None \<Rightarrow> map_of (is_fields (mg_snapshot m)) f)"
    using assms(4,5) by (simp add: merged_fields_def)
  moreover have "map_of (filter (\<lambda>kv. fst kv \<in> set (src_owned s)) raw) f = map_of raw f" for raw :: inventory_fields
    using assms(5) by (induction raw) auto
  ultimately show ?thesis by (auto simp: P(4) accepted_def split: sum.split)
qed

text \<open>
  (C10) A refresh is exact: a field of a source that answered takes the value the source gave, and
  disappears when the source left it out; a field of a source that failed, or that named a reserved
  field, keeps its value; a value for a field the source does not own is dropped.
\<close>

theorem refresh_exact:
  assumes "manager_reachable m" "answers_ok ask" "refreshAll ask ta ts now m = (m', d)"
    "s \<in> set (mg_sources m)" "f \<in> set (src_owned s)"
  shows "map_of (is_fields (mg_snapshot m')) f =
    (case snd (ask (src_name s)) of
       Inl err \<Rightarrow> map_of (is_fields (mg_snapshot m)) f
     | Inr raw \<Rightarrow> if \<exists>k \<in> keys raw. is_metadata_field k then map_of (is_fields (mg_snapshot m)) f
                  else map_of raw f)"
  using assms by (rule refresh_exact_fields)

theorem refresh_exact_witness:
  "map_of (is_fields (mg_snapshot (fst (refreshAll sample_answer 7 (\<lambda>_. 8) 9 sample_manager)))) ''uuid''
     = Some (FString ''42'')"
  using refresh_exact[OF sample_manager_reachable sample_answers_ok, of 7 "\<lambda>_. 8" 9 _ _ sample_source "''uuid''"]
  by (cases "refreshAll sample_answer 7 (\<lambda>_. 8) 9 sample_manager")
     (auto simp: sample_manager_def sample_source_def sample_answer_def is_metadata_field_def metadata_names)

text \<open>
  (C11) The diff is exact and the version counts changes: \<open>changedFields\<close> are the fields present with
  a new value, \<open>removedFields\<close> those gone, each in order; the version grows by one (modulo
  \<open>2 ^ 64\<close>) exactly when the fields changed, and readiness, once reached, is kept.
\<close>

theorem refresh_diff_version:
  assumes "manager_reachable m" "answers_ok ask" "refreshAll ask ta ts now m = (m', d)"
  shows "(\<forall>f. f \<in> set (df_changedFields d) \<longleftrightarrow>
            map_of (is_fields (mg_snapshot m')) f \<noteq> None \<and>
            map_of (is_fields (mg_snapshot m')) f \<noteq> map_of (is_fields (mg_snapshot m)) f) \<and>
         (\<forall>f. f \<in> set (df_removedFields d) \<longleftrightarrow>
            map_of (is_fields (mg_snapshot m)) f \<noteq> None \<and> map_of (is_fields (mg_snapshot m')) f = None) \<and>
         manager_getVersion m' = manager_getVersion m +
           (if is_fields (mg_snapshot m') = is_fields (mg_snapshot m) then 0 else 1) \<and>
         (manager_isReady m \<longrightarrow> manager_isReady m')"
proof -
  have ok: "manager_ok m" by (rule manager_reachable_ok[OF assms(1)])
  then have F0: "omap_ok (is_fields (mg_snapshot m))" by (simp add: manager_ok_def snapshot_ok_def)
  have "manager_ok m'"
    using refresh_merge_ok[OF ok assms(2) subset_refl, of now ta ts] assms(3) by (simp add: refreshAll_def)
  then have F1: "omap_ok (is_fields (mg_snapshot m'))" by (simp add: manager_ok_def snapshot_ok_def)
  obtain F S where FS: "fold (merge_result m) (refresh_collect ask ta ts (mg_sources m))
      (is_fields (mg_snapshot m), mg_sourceStates m) = (F, S)" by fastforce
  note P = refresh_merge_parts[OF FS assms(3)[unfolded refreshAll_def]]
  show ?thesis
    using diff_sets[OF F0 F1] diff_empty_iff[OF F0 F1] P
    by (simp add: manager_getVersion_def manager_isReady_def)
qed

lemma sample_refresh_fields:
  "is_fields (mg_snapshot (fst (refreshAll sample_answer 7 (\<lambda>_. 8) 9 sample_manager))) \<noteq> []"
  by code_simp

theorem refresh_diff_version_witness:
  "manager_getVersion (fst (refreshAll sample_answer 7 (\<lambda>_. 8) 9 sample_manager)) = 1"
proof -
  have "is_fields (mg_snapshot sample_manager) = []" "manager_getVersion sample_manager = 0"
    by (simp_all add: sample_manager_def new_manager_def empty_inventory_snapshot_def manager_getVersion_def)
  then show ?thesis
    using refresh_diff_version[OF sample_manager_reachable sample_answers_ok prod.collapse[symmetric], of 7 "\<lambda>_. 8" 9]
      sample_refresh_fields by simp
qed

lemma merge_result_state:
  assumes "distinct (map src_name (mg_sources m))" "s \<in> set (mg_sources m)" "omap_ok S"
    "merge_result m (collect_source ask ta ts s) (F, S) = (F', S')"
  shows "omap_ok S'"
    "\<exists>st. map_of S' (src_name s) = Some st \<and> (ss_health st = HealthOk \<longleftrightarrow> accepted ask s \<noteq> None)"
    "n \<noteq> src_name s \<Longrightarrow> map_of S' n = map_of S n"
  using assms collect_source_fields(1,2)[where ask = ask and a = ta and t = ts and s = s] find_source[OF assms(1,2)]
  by (auto simp: merge_result_def Let_def omap_ok_oput map_of_oput split: if_splits option.splits)

lemma merge_fold_state:
  assumes "distinct (map src_name (mg_sources m))"
  shows "set srcs \<subseteq> set (mg_sources m) \<Longrightarrow> distinct (map src_name srcs) \<Longrightarrow> omap_ok S \<Longrightarrow>
    fold (merge_result m) (refresh_collect ask ta ts srcs) (F, S) = (F', S') \<Longrightarrow>
    (\<forall>s \<in> set srcs. \<exists>st. map_of S' (src_name s) = Some st \<and> (ss_health st = HealthOk \<longleftrightarrow> accepted ask s \<noteq> None)) \<and>
    (\<forall>n. n \<notin> src_name ` set srcs \<longrightarrow> map_of S' n = map_of S n)"
proof (induction srcs arbitrary: F S)
  case (Cons t srcs)
  obtain F1 S1 where FS: "merge_result m (collect_source ask ta (ts (src_name t)) t) (F, S) = (F1, S1)"
    by fastforce
  have t: "t \<in> set (mg_sources m)" using Cons.prems by simp
  note M = merge_result_state[OF assms t Cons.prems(3) FS]
  have "fold (merge_result m) (refresh_collect ask ta ts srcs) (F1, S1) = (F', S')"
    using Cons.prems(4) by (simp add: refresh_collect_def FS)
  then have IH: "(\<forall>s \<in> set srcs. \<exists>st. map_of S' (src_name s) = Some st \<and>
        (ss_health st = HealthOk \<longleftrightarrow> accepted ask s \<noteq> None))"
    "\<And>n. n \<notin> src_name ` set srcs \<Longrightarrow> map_of S' n = map_of S1 n"
    using Cons.IH[OF _ _ M(1)] Cons.prems(1,2) by auto
  have "src_name t \<notin> src_name ` set srcs" using Cons.prems(2) by auto
  then show ?case using IH M(2,3) by auto
qed (simp add: refresh_collect_def)

lemma allRequired_iff:
  "allRequiredSourcesOk srcs states \<longleftrightarrow>
   (\<forall>s \<in> set srcs. src_required s \<longrightarrow> (\<exists>st. map_of states (src_name s) = Some st \<and> ss_health st = HealthOk))"
  by (induction srcs) (auto split: option.splits)

lemma ready_iff_required:
  assumes "manager_reachable m" "answers_ok ask" "refreshAll ask ta ts now m = (m', d)"
  shows "(manager_isReady m' \<longleftrightarrow> manager_isReady m \<or>
            (\<forall>s \<in> set (mg_sources m). src_required s \<longrightarrow>
               (\<exists>raw. snd (ask (src_name s)) = Inr raw \<and> (\<forall>k \<in> keys raw. \<not> is_metadata_field k)))) \<and>
         manager_getPhase m' = (if manager_isReady m' then INV_PHASE_LIVE else INV_PHASE_INITIALIZING)"
proof -
  have ok: "manager_ok m" by (rule manager_reachable_ok[OF assms(1)])
  then have d: "distinct (map src_name (mg_sources m))" and S0: "omap_ok (mg_sourceStates m)"
    by (simp_all add: manager_ok_def owners_ok_def)
  obtain F S where FS: "fold (merge_result m) (refresh_collect ask ta ts (mg_sources m))
      (is_fields (mg_snapshot m), mg_sourceStates m) = (F, S)" by fastforce
  note P = refresh_merge_parts[OF FS assms(3)[unfolded refreshAll_def]]
  have st: "\<forall>s \<in> set (mg_sources m). \<exists>st. map_of S (src_name s) = Some st \<and>
      (ss_health st = HealthOk \<longleftrightarrow> accepted ask s \<noteq> None)"
    using merge_fold_state[OF d subset_refl d S0 FS] by blast
  have "accepted ask s \<noteq> None \<longleftrightarrow>
      (\<exists>raw. snd (ask (src_name s)) = Inr raw \<and> (\<forall>k \<in> keys raw. \<not> is_metadata_field k))" for s
    by (auto simp: accepted_def split: sum.split)
  then have "allRequiredSourcesOk (mg_sources m) S \<longleftrightarrow> (\<forall>s \<in> set (mg_sources m). src_required s \<longrightarrow>
      (\<exists>raw. snd (ask (src_name s)) = Inr raw \<and> (\<forall>k \<in> keys raw. \<not> is_metadata_field k)))"
    unfolding allRequired_iff using st by fastforce
  then show ?thesis using P by (simp add: manager_isReady_def manager_getPhase_def)
qed

text \<open>
  The manager becomes ready exactly in a refresh in which every required source answers without
  error and names no reserved field; optional sources never delay it, and the phase says \<open>live\<close> from
  then on and \<open>initializing\<close> before.
\<close>

theorem refresh_ready_iff:
  assumes "manager_reachable m" "answers_ok ask" "refreshAll ask ta ts now m = (m', d)"
  shows "(manager_isReady m' \<longleftrightarrow> manager_isReady m \<or>
            (\<forall>s \<in> set (mg_sources m). src_required s \<longrightarrow>
               (\<exists>raw. snd (ask (src_name s)) = Inr raw \<and> (\<forall>k \<in> keys raw. \<not> is_metadata_field k)))) \<and>
         manager_getPhase m' = (if manager_isReady m' then INV_PHASE_LIVE else INV_PHASE_INITIALIZING)"
  using assms by (rule ready_iff_required)

theorem refresh_ready_iff_witness:
  "manager_isReady (fst (refreshAll sample_answer 7 (\<lambda>_. 8) 9 sample_manager)) \<and>
   \<not> manager_isReady (fst (refreshAll (\<lambda>_. (empty_source_state, Inl ''io'')) 7 (\<lambda>_. 8) 9 sample_manager))"
proof -
  have fail: "answers_ok (\<lambda>_. (empty_source_state, Inl ''io''))" by (simp add: answers_ok_def)
  show ?thesis
    using refresh_ready_iff[OF sample_manager_reachable sample_answers_ok prod.collapse[symmetric], of 7 "\<lambda>_. 8" 9]
      refresh_ready_iff[OF sample_manager_reachable fail prod.collapse[symmetric], of 7 "\<lambda>_. 8" 9]
    by (simp add: sample_manager_def sample_source_def sample_answer_def new_manager_def
        empty_inventory_snapshot_def manager_isReady_def is_metadata_field_def metadata_names)
qed

text \<open>
  Issues mirror source states: a source has an issue exactly when it is unhealthy or stale, the
  issue is an error exactly when the source failed and is required, and its message is the source's
  own error text when there is one.
\<close>

theorem issues_mirror_states:
  assumes "omap_ok states"
  shows "map_of (deriveIssues states) n =
    (case map_of states n of
       None \<Rightarrow> None
     | Some st \<Rightarrow> if ss_health st = HealthOk \<and> \<not> ss_stale st then None else Some (source_issue st)) \<and>
    map_of (source_issue st) ISSUE_SEVERITY =
      Some (FString (if ss_health st = HealthFailed \<and> ss_required st then SEVERITY_ERROR else SEVERITY_WARNING)) \<and>
    (\<forall>err. ss_lastError st = Some err \<and> err \<noteq> [] \<longrightarrow> map_of (source_issue st) ISSUE_MESSAGE = Some (FString err))"
proof -
  have "map_of (deriveIssues states) n =
    (case map_of states n of
       None \<Rightarrow> None
     | Some st \<Rightarrow> if ss_health st = HealthOk \<and> \<not> ss_stale st then None else Some (source_issue st))"
    using omap_ok_distinct[OF assms] unfolding deriveIssues_def
    by (simp add: map_of_map_value map_of_filter_value split: option.split)
  moreover have "map_of (source_issue st) ISSUE_SEVERITY =
      Some (FString (if ss_health st = HealthFailed \<and> ss_required st then SEVERITY_ERROR else SEVERITY_WARNING))"
    by (auto simp: source_issue_def Let_def map_of_oput omap_ok_oput issue_names split: option.split)
  moreover have "map_of (source_issue st) ISSUE_MESSAGE = Some (FString err)"
    if "ss_lastError st = Some err" "err \<noteq> []" for err
    using that by (auto simp: source_issue_def Let_def map_of_oput omap_ok_oput issue_names split: option.split)
  ultimately show ?thesis by blast
qed

theorem issues_mirror_states_witness:
  "map_of (deriveIssues [(''a'', empty_source_state\<lparr>ss_required := True\<rparr>)]) ''a'' \<noteq> None"
  using issues_mirror_states[of "[(''a'', empty_source_state\<lparr>ss_required := True\<rparr>)]" "''a''" undefined]
  by (simp add: empty_source_state_def)


section \<open>File-backed sources\<close>

text \<open>
  (C12) Reading a file is bounded and complete: whatever the calls return, what is returned never
  exceeds the size limit and is the concatenation of the chunks read before the end of the file;
  and a regular file within the limit whose reads only ever fail by interruption is returned.
\<close>

theorem read_file_bounded:
  assumes "readFileContents path calls = Some (Inr contents)"
  shows "length contents \<le> kMaxFileBytes \<and> contents = chunks_before_eof (fc_reads calls) \<and>
         fc_open calls = None \<and> (\<exists>st. fc_fstat calls = Inr st \<and> fst_isreg st \<and> 0 \<le> fst_size st)"
  using assms read_loop_bound[of path "fc_reads calls" "[]"] read_loop_contents[of path "fc_reads calls" "[]"]
  by (auto simp: readFileContents_def split: option.splits sum.splits if_splits)

definition sample_calls_file :: file_calls where
  "sample_calls_file = \<lparr>fc_open = None, fc_fstat = Inr \<lparr>fst_isreg = True, fst_size = 4\<rparr>,
     fc_reads = [ReadError EINTR, ReadBytes '' ab'', ReadBytes ''c'', ReadBytes []]\<rparr>"

theorem read_file_bounded_witness:
  "length '' abc'' \<le> kMaxFileBytes \<and> '' abc'' = chunks_before_eof (fc_reads sample_calls_file)"
proof -
  have "readFileContents ''/f'' sample_calls_file = Some (Inr '' abc'')"
    by (simp add: readFileContents_def sample_calls_file_def kMaxFileBytes_def)
  then show ?thesis using read_file_bounded by blast
qed

text \<open>
  A source that reports failure stays observable and a source that succeeds is healthy:
  \<open>collect\<close> returns once the reads end, its health says whether it threw, a recorded error is
  bounded, and name, path and owned fields never change.
\<close>

theorem file_collect_state:
  assumes "file_collect what parse calls s = Some (s', r)"
  shows "(ss_health (fs_state s') = HealthOk \<longleftrightarrow> (\<exists>fs. r = Inr fs)) \<and>
         (ss_lastError (fs_state s') = None \<longleftrightarrow> (\<exists>fs. r = Inr fs)) \<and>
         (\<forall>err. ss_lastError (fs_state s') = Some err \<longrightarrow> length err \<le> kMaxErrorBytes + 3) \<and>
         fs_name s' = fs_name s \<and> fs_filePath s' = fs_filePath s \<and> fs_ownedFields s' = fs_ownedFields s"
  using assms boundedErrorText_length
  by (auto simp: file_collect_def noteSuccess_def noteFailure_def split: option.splits sum.splits)

theorem file_collect_state_witness:
  "\<exists>s' r. file_collect (\<lambda>_. ''e'') (\<lambda>c. scalar_fieldsFromContents s' c) sample_calls_file
            \<lparr>fs_name = ''uuid-file'', fs_required = True, fs_filePath = ''/f'', fs_ownedFields = [''uuid''],
             fs_state = empty_source_state\<rparr> = Some (s', r)
     \<and> ss_health (fs_state s') = HealthOk"
proof -
  define s0 :: file_source where "s0 = \<lparr>fs_name = ''uuid-file'', fs_required = True, fs_filePath = ''/f'',
     fs_ownedFields = [''uuid''], fs_state = empty_source_state\<rparr>"
  have r: "file_collect (\<lambda>_. ''e'') (\<lambda>c. scalar_fieldsFromContents (noteSuccess s0) c) sample_calls_file s0
      = Some (noteSuccess s0, Inr [(''uuid'', FString ''abc'')])"
    by (simp add: file_collect_def readFileContents_def sample_calls_file_def kMaxFileBytes_def s0_def
        scalar_fieldsFromContents_def scalarFromContents_def is_ws_def noteSuccess_def Let_def)
  then show ?thesis using file_collect_state[OF r] unfolding s0_def by blast
qed

end
