(* ===== verification/Dbus_Variant.thy ===== *)
theory Dbus_Variant
  imports Contract_Types "HOL-Library.Word"
begin

text \<open>
  What the two D-Bus codecs share. \<open>DBus::Variant\<close> belongs to the dbus-cxx library: it is a record
  \<open>'v variant_ops\<close> of the operations the codecs call, and \<open>variant_ok\<close> states its documented
  behaviour, that a variant built from a value has that value's type and returns the value.
  \<open>DecodeError\<close> is its code; the message text is not modelled. \<open>put_all\<close> is the loop
  \<open>for ([k, v] : m) out[k] = f(k, v)\<close> whose body may throw. The locale \<open>checked_codec\<close> is the
  contract of a codec: a value within the limits encodes, and decoding returns it.
\<close>

datatype dbus_type =
    TypeBool | TypeInt32 | TypeInt64 | TypeUInt32 | TypeUInt64 | TypeString | TypeArray | TypeOther

datatype decode_error =
    LimitExceeded
  | MissingRequiredField
  | InvalidType
  | InvalidValue
  | ReservedKeyPresent string

record 'v variant_ops =
  vo_type :: "'v \<Rightarrow> dbus_type"
  vo_of_bool :: "bool \<Rightarrow> 'v"
  vo_to_bool :: "'v \<Rightarrow> bool"
  vo_of_int32 :: "32 word \<Rightarrow> 'v"
  vo_to_int32 :: "'v \<Rightarrow> 32 word"
  vo_of_int64 :: "64 word \<Rightarrow> 'v"
  vo_to_int64 :: "'v \<Rightarrow> 64 word"
  vo_to_uint32 :: "'v \<Rightarrow> 32 word"
  vo_of_uint64 :: "64 word \<Rightarrow> 'v"
  vo_to_uint64 :: "'v \<Rightarrow> 64 word"
  vo_of_string :: "string \<Rightarrow> 'v"
  vo_to_string :: "'v \<Rightarrow> string"
  vo_of_vector :: "'v list \<Rightarrow> 'v"
  vo_to_vector :: "'v \<Rightarrow> 'v list option"
  vo_of_map :: "'v omap \<Rightarrow> 'v"
  vo_to_map :: "'v \<Rightarrow> 'v omap option"

definition variant_ok :: "'v variant_ops \<Rightarrow> bool" where
  "variant_ok V \<longleftrightarrow>
     (\<forall>b. vo_type V (vo_of_bool V b) = TypeBool \<and> vo_to_bool V (vo_of_bool V b) = b) \<and>
     (\<forall>n. vo_type V (vo_of_int32 V n) = TypeInt32 \<and> vo_to_int32 V (vo_of_int32 V n) = n) \<and>
     (\<forall>n. vo_type V (vo_of_int64 V n) = TypeInt64 \<and> vo_to_int64 V (vo_of_int64 V n) = n) \<and>
     (\<forall>n. vo_type V (vo_of_uint64 V n) = TypeUInt64 \<and> vo_to_uint64 V (vo_of_uint64 V n) = n) \<and>
     (\<forall>s. vo_type V (vo_of_string V s) = TypeString \<and> vo_to_string V (vo_of_string V s) = s) \<and>
     (\<forall>vs. vo_to_vector V (vo_of_vector V vs) = Some vs) \<and>
     (\<forall>m. vo_to_map V (vo_of_map V m) = Some m)"

lemma variant_okD:
  assumes "variant_ok V"
  shows "vo_type V (vo_of_bool V b) = TypeBool" "vo_to_bool V (vo_of_bool V b) = b"
    "vo_type V (vo_of_int32 V n) = TypeInt32" "vo_to_int32 V (vo_of_int32 V n) = n"
    "vo_type V (vo_of_int64 V i) = TypeInt64" "vo_to_int64 V (vo_of_int64 V i) = i"
    "vo_type V (vo_of_uint64 V u) = TypeUInt64" "vo_to_uint64 V (vo_of_uint64 V u) = u"
    "vo_type V (vo_of_string V s) = TypeString" "vo_to_string V (vo_of_string V s) = s"
    "vo_to_vector V (vo_of_vector V vs) = Some vs" "vo_to_map V (vo_of_map V m) = Some m"
  using assms by (simp_all add: variant_ok_def)

text \<open>A concrete variant, for evaluation.\<close>

datatype dvariant =
    DBool bool | DInt32 "32 word" | DInt64 "64 word" | DUInt32 "32 word" | DUInt64 "64 word"
  | DString string | DVector "dvariant list" | DMap "(string \<times> dvariant) list"

definition dvariant_ops :: "dvariant variant_ops" where
  "dvariant_ops = \<lparr>
     vo_type = (\<lambda>v. case v of DBool b \<Rightarrow> TypeBool | DInt32 n \<Rightarrow> TypeInt32 | DInt64 n \<Rightarrow> TypeInt64
                  | DUInt32 n \<Rightarrow> TypeUInt32 | DUInt64 n \<Rightarrow> TypeUInt64 | DString s \<Rightarrow> TypeString
                  | DVector vs \<Rightarrow> TypeArray | DMap m \<Rightarrow> TypeOther),
     vo_of_bool = DBool, vo_to_bool = (\<lambda>v. case v of DBool b \<Rightarrow> b | _ \<Rightarrow> False),
     vo_of_int32 = DInt32, vo_to_int32 = (\<lambda>v. case v of DInt32 n \<Rightarrow> n | _ \<Rightarrow> 0),
     vo_of_int64 = DInt64, vo_to_int64 = (\<lambda>v. case v of DInt64 n \<Rightarrow> n | _ \<Rightarrow> 0),
     vo_to_uint32 = (\<lambda>v. case v of DUInt32 n \<Rightarrow> n | _ \<Rightarrow> 0),
     vo_of_uint64 = DUInt64, vo_to_uint64 = (\<lambda>v. case v of DUInt64 n \<Rightarrow> n | _ \<Rightarrow> 0),
     vo_of_string = DString, vo_to_string = (\<lambda>v. case v of DString s \<Rightarrow> s | _ \<Rightarrow> []),
     vo_of_vector = DVector, vo_to_vector = (\<lambda>v. case v of DVector vs \<Rightarrow> Some vs | _ \<Rightarrow> None),
     vo_of_map = DMap, vo_to_map = (\<lambda>v. case v of DMap m \<Rightarrow> Some m | _ \<Rightarrow> None)\<rparr>"

lemma dvariant_ok: "variant_ok dvariant_ops"
  by (simp add: variant_ok_def dvariant_ops_def)


section \<open>Loops over maps that may throw\<close>

fun put_all :: "(string \<Rightarrow> 'a \<Rightarrow> 'e + 'b) \<Rightarrow> 'a omap \<Rightarrow> 'b omap \<Rightarrow> 'e + 'b omap" where
  "put_all f [] out = Inr out"
| "put_all f ((k, v) # m) out = rbind (f k v) (\<lambda>v'. put_all f m (oput k v' out))"

fun all_ok :: "('a \<Rightarrow> 'e + unit) \<Rightarrow> 'a list \<Rightarrow> 'e + unit" where
  "all_ok f [] = Inr ()"
| "all_ok f (x # xs) = rbind (f x) (\<lambda>_. all_ok f xs)"

lemma all_ok_Inr: "all_ok f xs = Inr u \<longleftrightarrow> (\<forall>x \<in> set xs. f x = Inr ())"
  by (induction xs) auto

lemma oput_last: "\<forall>k' \<in> keys m. k' < k \<Longrightarrow> oput k v m = m @ [(k, v)]"
  by (induction m) auto

lemma put_all_append:
  assumes "omap_ok m" "\<And>k v. (k, v) \<in> set m \<Longrightarrow> f k v = Inr (g k v)"
    "\<forall>k' \<in> keys out. \<forall>k \<in> keys m. k' < k"
  shows "put_all f m out = Inr (out @ map (\<lambda>(k, v). (k, g k v)) m)"
  using assms
proof (induction m arbitrary: out)
  case (Cons kv m)
  obtain k v where kv: "kv = (k, v)" by (cases kv)
  have "oput k (g k v) out = out @ [(k, g k v)]" using Cons.prems(3) kv by (intro oput_last) auto
  moreover have "f k v = Inr (g k v)" using Cons.prems(2) kv by simp
  moreover have "put_all f m (out @ [(k, g k v)]) = Inr ((out @ [(k, g k v)]) @ map (\<lambda>(k, v). (k, g k v)) m)"
    using Cons.prems kv by (intro Cons.IH) auto
  ultimately show ?case using kv by simp
qed simp

lemma put_all_map:
  assumes "omap_ok m" "\<And>k v. (k, v) \<in> set m \<Longrightarrow> f k v = Inr (g k v)"
  shows "put_all f m [] = Inr (map (\<lambda>(k, v). (k, g k v)) m)"
  using put_all_append[OF assms, where out = "[]"] by simp

lemma put_all_Inr_keys: "put_all f m out = Inr out' \<Longrightarrow> keys out' = keys m \<union> keys out"
proof (induction f m out rule: put_all.induct)
  case (2 f k v m out)
  then obtain v' where "f k v = Inr v'" "put_all f m (oput k v' out) = Inr out'" by auto
  with 2(1)[of v'] show ?case by auto
qed simp

lemma put_all_Inl: "(\<exists>e. put_all f m out = Inl e) \<longleftrightarrow> (\<exists>k v e. (k, v) \<in> set m \<and> f k v = Inl e)"
proof (induction f m out rule: put_all.induct)
  case (2 f k v m out)
  then show ?case by (cases "f k v") auto
qed simp

lemma set_oput: "set (oput k v m) \<subseteq> insert (k, v) (set m)"
  by (induction k v m rule: oput.induct) auto

lemma length_oput: "length m \<le> n \<Longrightarrow> length (oput k v m) \<le> Suc n"
proof -
  have "length (oput k v m) \<le> Suc (length m)" by (induction k v m rule: oput.induct) auto
  then show "length m \<le> n \<Longrightarrow> length (oput k v m) \<le> Suc n" by simp
qed

text \<open>What a loop that did not throw has stored.\<close>

lemma put_all_result:
  assumes "put_all f m out = Inr out'"
  shows "omap_ok out \<Longrightarrow> omap_ok out'" "length out' \<le> length out + length m"
    "(k, w) \<in> set out' \<Longrightarrow> (k, w) \<in> set out \<or> (\<exists>v. (k, v) \<in> set m \<and> f k v = Inr w)"
proof -
  have "(omap_ok out \<longrightarrow> omap_ok out') \<and> length out' \<le> length out + length m \<and>
    ((k, w) \<in> set out' \<longrightarrow> (k, w) \<in> set out \<or> (\<exists>v. (k, v) \<in> set m \<and> f k v = Inr w))"
    using assms
  proof (induction f m out rule: put_all.induct)
    case (2 f k0 v0 m out)
    then obtain v' where v': "f k0 v0 = Inr v'" "put_all f m (oput k0 v' out) = Inr out'" by auto
    have "length out' \<le> length (oput k0 v' out) + length m" using 2(1)[OF v'] by blast
    then have "length out' \<le> length out + length ((k0, v0) # m)"
      using length_oput[of out "length out" k0 v'] by simp
    then show ?case using 2(1)[OF v'] omap_ok_oput[of out k0 v'] set_oput[of k0 v' out] v'(1) by auto
  qed simp
  then show "omap_ok out \<Longrightarrow> omap_ok out'" "length out' \<le> length out + length m"
    "(k, w) \<in> set out' \<Longrightarrow> (k, w) \<in> set out \<or> (\<exists>v. (k, v) \<in> set m \<and> f k v = Inr w)" by blast+
qed

text \<open>The loop over a container in any order.\<close>

lemma put_all_map_of:
  assumes "distinct_keys m" "\<And>k v. (k, v) \<in> set m \<Longrightarrow> f k v = Inr (g k v)" "omap_ok out"
  shows "\<exists>w. put_all f m out = Inr w \<and> omap_ok w \<and>
    (\<forall>k. map_of w k = (case map_of m k of Some v \<Rightarrow> Some (g k v) | None \<Rightarrow> map_of out k))"
  using assms
proof (induction m arbitrary: out)
  case (Cons kv m)
  obtain k v where kv: "kv = (k, v)" by (cases kv)
  have none: "map_of m k = None" using Cons.prems(1) kv by (simp add: map_of_eq_None_iff)
  obtain w where w: "put_all f m (oput k (g k v) out) = Inr w" "omap_ok w"
    "\<And>j. map_of w j = (case map_of m j of Some v \<Rightarrow> Some (g j v) | None \<Rightarrow> map_of (oput k (g k v) out) j)"
    using Cons.IH[of "oput k (g k v) out"] Cons.prems kv by (auto simp: omap_ok_oput)
  have "put_all f (kv # m) out = Inr w" using w(1) Cons.prems(2)[of k v] kv by simp
  moreover have "map_of w j = (case map_of (kv # m) j of Some v \<Rightarrow> Some (g j v) | None \<Rightarrow> map_of out j)" for j
    using w(3)[of j] none kv Cons.prems(3) by (simp add: map_of_oput split: option.splits)
  ultimately show ?case using w(2) by blast
qed simp

lemma put_all_lookup:
  assumes "distinct_keys m" "\<And>k v. (k, v) \<in> set m \<Longrightarrow> f k v = Inr (g k v)"
  obtains w where "put_all f m [] = Inr w" "omap_ok w" "\<And>k. map_of w k = map_option (g k) (map_of m k)"
proof -
  have "\<exists>w. put_all f m [] = Inr w \<and> omap_ok w \<and>
    (\<forall>k. map_of w k = (case map_of m k of Some v \<Rightarrow> Some (g k v) | None \<Rightarrow> map_of [] k))"
    by (rule put_all_map_of[where f = f and g = g]) (use assms in auto)
  then obtain w where w: "put_all f m [] = Inr w" "omap_ok w"
    "\<forall>k. map_of w k = (case map_of m k of Some v \<Rightarrow> Some (g k v) | None \<Rightarrow> map_of [] k)"
    by blast
  have "map_of w k = map_option (g k) (map_of m k)" for k
    using w(3) by (cases "map_of m k") simp_all
  with w(1,2) show thesis by (rule that)
qed

text \<open>Encoding and decoding a map entry by entry.\<close>

lemma put_all_round_trip:
  assumes "omap_ok m" "\<And>k v. (k, v) \<in> set m \<Longrightarrow> enc k v = Inr (w k v)"
    "\<And>k v. (k, v) \<in> set m \<Longrightarrow> dec k (w k v) = Inr v"
  shows "put_all enc m [] = Inr (map (\<lambda>(k, v). (k, w k v)) m)"
    "put_all dec (map (\<lambda>(k, v). (k, w k v)) m) [] = Inr m"
proof -
  let ?m = "map (\<lambda>(k, v). (k, w k v)) m"
  show "put_all enc m [] = Inr ?m" by (rule put_all_map[OF assms(1,2)])
  have "put_all dec (map (\<lambda>(k, v). (k, w k v)) xs) out = Inr (out @ xs)"
    if "\<forall>k' \<in> keys out. \<forall>k \<in> keys xs. k' < k" "omap_ok xs" "set xs \<subseteq> set m" for xs out
    using that
  proof (induction xs arbitrary: out)
    case (Cons kv xs)
    obtain k v where kv: "kv = (k, v)" by (cases kv)
    have "dec k (w k v) = Inr v" using assms(3) Cons.prems(3) kv by simp
    moreover have "oput k v out = out @ [(k, v)]" using Cons.prems(1) kv by (intro oput_last) auto
    ultimately show ?case using Cons.IH[of "out @ [(k, v)]"] Cons.prems kv by auto
  qed simp
  then show "put_all dec ?m [] = Inr m" using assms(1) by simp
qed


section \<open>The contract of a codec\<close>

locale checked_codec =
  fixes enc :: "'a \<Rightarrow> 'e + 'w" and dec :: "'w \<Rightarrow> 'e + 'a" and fits :: "'a \<Rightarrow> bool"
  assumes round_trip: "fits a \<Longrightarrow> \<exists>w. enc a = Inr w \<and> dec w = Inr a"
begin

lemma encodes: "fits a \<Longrightarrow> \<exists>w. enc a = Inr w"
  using round_trip by blast

lemma injective: "fits a \<Longrightarrow> fits b \<Longrightarrow> enc a = enc b \<Longrightarrow> a = b"
  using round_trip[of a] round_trip[of b] by auto

lemma decode_encoded: "fits a \<Longrightarrow> enc a = Inr w \<Longrightarrow> dec w = Inr a"
  using round_trip[of a] by auto

end

text \<open>Key and string limits.\<close>

definition validateKey :: "string \<Rightarrow> decode_error + unit" where
  "validateKey key = (if length key > kMaxKeyLength then Inl LimitExceeded else Inr ())"

definition validateString :: "string \<Rightarrow> decode_error + unit" where
  "validateString s = (if length s > kMaxStringLength then Inl LimitExceeded else Inr ())"

definition requireField :: "'v omap \<Rightarrow> string \<Rightarrow> decode_error + 'v" where
  "requireField m key = (case map_of m key of None \<Rightarrow> Inl MissingRequiredField | Some v \<Rightarrow> Inr v)"

abbreviation key_fits :: "string \<Rightarrow> bool" where
  "key_fits k \<equiv> length k \<le> kMaxKeyLength"

abbreviation string_fits :: "string \<Rightarrow> bool" where
  "string_fits s \<equiv> length s \<le> kMaxStringLength"

lemma validate_simps [simp]:
  "validateKey k = Inr u \<longleftrightarrow> key_fits k" "validateString s = Inr u \<longleftrightarrow> string_fits s"
  "key_fits k \<Longrightarrow> validateKey k = Inr ()" "string_fits s \<Longrightarrow> validateString s = Inr ()"
  by (auto simp: validateKey_def validateString_def)

end
