(* ===== verification/Inventory_Codec.thy ===== *)
theory Inventory_Codec
  imports Dbus_Variant Inventory_Contract
begin

text \<open>
  \<open>rmc-inventory/transports/dbus/InventoryDbusCodec\<close>: the encoding of inventory values as D-Bus
  variants and the checked decoding a client applies. Widening conversions between the integer types
  are written out on words: a signed source is extended by \<open>sint\<close>, an unsigned one by \<open>uint\<close>.
\<close>

definition SOURCE_STATE_HEALTH :: string where "SOURCE_STATE_HEALTH = ''health''"
definition SOURCE_STATE_REQUIRED :: string where "SOURCE_STATE_REQUIRED = ''required''"
definition SOURCE_STATE_STALE :: string where "SOURCE_STATE_STALE = ''stale''"
definition SOURCE_STATE_LAST_ATTEMPT_TS :: string where "SOURCE_STATE_LAST_ATTEMPT_TS = ''lastAttemptTs''"
definition SOURCE_STATE_LAST_SUCCESS_TS :: string where "SOURCE_STATE_LAST_SUCCESS_TS = ''lastSuccessTs''"
definition SOURCE_STATE_LAST_ERROR :: string where "SOURCE_STATE_LAST_ERROR = ''lastError''"
definition SOURCE_STATE_ORIGIN :: string where "SOURCE_STATE_ORIGIN = ''origin''"

lemmas source_state_names = SOURCE_STATE_HEALTH_def SOURCE_STATE_REQUIRED_def SOURCE_STATE_STALE_def
  SOURCE_STATE_LAST_ATTEMPT_TS_def SOURCE_STATE_LAST_SUCCESS_TS_def SOURCE_STATE_LAST_ERROR_def
  SOURCE_STATE_ORIGIN_def

definition validateFieldMapSize :: "'v omap \<Rightarrow> nat \<Rightarrow> decode_error + unit" where
  "validateFieldMapSize m limit = (if length m > limit then Inl LimitExceeded else Inr ())"

definition int64_max :: "64 word" where "int64_max = 0x7FFFFFFFFFFFFFFF"

definition varToInt64 :: "'v variant_ops \<Rightarrow> 'v \<Rightarrow> decode_error + 64 word" where
  "varToInt64 V v =
     (case vo_type V v of
        TypeInt32 \<Rightarrow> Inr (word_of_int (sint (vo_to_int32 V v)))
      | TypeInt64 \<Rightarrow> Inr (vo_to_int64 V v)
      | TypeUInt32 \<Rightarrow> Inr (word_of_int (uint (vo_to_uint32 V v)))
      | TypeUInt64 \<Rightarrow> (if vo_to_uint64 V v > int64_max then Inl InvalidValue else Inr (vo_to_uint64 V v))
      | _ \<Rightarrow> Inl InvalidType)"

definition varToUint64 :: "'v variant_ops \<Rightarrow> 'v \<Rightarrow> decode_error + 64 word" where
  "varToUint64 V v =
     (case vo_type V v of
        TypeUInt32 \<Rightarrow> Inr (word_of_int (uint (vo_to_uint32 V v)))
      | TypeUInt64 \<Rightarrow> Inr (vo_to_uint64 V v)
      | TypeInt32 \<Rightarrow> (if sint (vo_to_int32 V v) < 0 then Inl InvalidValue
                      else Inr (word_of_int (sint (vo_to_int32 V v))))
      | TypeInt64 \<Rightarrow> (if sint (vo_to_int64 V v) < 0 then Inl InvalidValue else Inr (vo_to_int64 V v))
      | _ \<Rightarrow> Inl InvalidType)"

definition inv_requireBool :: "'v variant_ops \<Rightarrow> 'v omap \<Rightarrow> string \<Rightarrow> decode_error + bool" where
  "inv_requireBool V m key =
     rbind (requireField m key)
       (\<lambda>f. if vo_type V f \<noteq> TypeBool then Inl InvalidType else Inr (vo_to_bool V f))"

definition inv_requireString :: "'v variant_ops \<Rightarrow> 'v omap \<Rightarrow> string \<Rightarrow> decode_error + string" where
  "inv_requireString V m key =
     rbind (requireField m key)
       (\<lambda>f. if vo_type V f \<noteq> TypeString then Inl InvalidType
            else rbind (validateString (vo_to_string V f)) (\<lambda>_. Inr (vo_to_string V f)))"

fun healthToString :: "source_health \<Rightarrow> string" where
  "healthToString HealthOk = ''ok''"
| "healthToString HealthDegraded = ''degraded''"
| "healthToString HealthFailed = ''failed''"

definition healthFromString :: "string \<Rightarrow> decode_error + source_health" where
  "healthFromString s =
     (if s = ''ok'' then Inr HealthOk
      else if s = ''degraded'' then Inr HealthDegraded
      else if s = ''failed'' then Inr HealthFailed
      else Inl InvalidValue)"


section \<open>Encoding\<close>

fun encodeFieldValue :: "'v variant_ops \<Rightarrow> field_value \<Rightarrow> 'v" where
  "encodeFieldValue V (FBool b) = vo_of_bool V b"
| "encodeFieldValue V (FInt n) = vo_of_int64 V n"
| "encodeFieldValue V (FUInt n) = vo_of_uint64 V n"
| "encodeFieldValue V (FString s) = vo_of_string V s"

definition encodeFields :: "'v variant_ops \<Rightarrow> inventory_fields \<Rightarrow> 'v omap" where
  "encodeFields V fs = fold (\<lambda>(key, v). oput key (encodeFieldValue V v)) fs []"

definition validateNoReservedKeysInFields :: "inventory_fields \<Rightarrow> decode_error + unit" where
  "validateNoReservedKeysInFields fs =
     (let key = first_reserved_metadata_field fs
      in if key \<noteq> [] then Inl (ReservedKeyPresent key) else Inr ())"

definition encodeSnapshot :: "'v variant_ops \<Rightarrow> inventory_snapshot \<Rightarrow> decode_error + 'v omap" where
  "encodeSnapshot V s =
     rbind (validateNoReservedKeysInFields (is_fields s))
       (\<lambda>_. Inr (oput FIELD_PHASE (vo_of_string V (is_phase s))
                 (oput FIELD_READY (vo_of_bool V (is_ready s))
                   (oput FIELD_TIMESTAMP (vo_of_int64 V (is_timestamp s))
                     (oput FIELD_VERSION (vo_of_uint64 V (is_version s))
                       (encodeFields V (is_fields s)))))))"

definition encodeSourceState :: "'v variant_ops \<Rightarrow> source_state \<Rightarrow> 'v omap" where
  "encodeSourceState V s =
     (let m = oput SOURCE_STATE_LAST_SUCCESS_TS (vo_of_int64 V (ss_lastSuccessTs s))
              (oput SOURCE_STATE_LAST_ATTEMPT_TS (vo_of_int64 V (ss_lastAttemptTs s))
                (oput SOURCE_STATE_STALE (vo_of_bool V (ss_stale s))
                  (oput SOURCE_STATE_REQUIRED (vo_of_bool V (ss_required s))
                    (oput SOURCE_STATE_HEALTH (vo_of_string V (healthToString (ss_health s))) []))));
          m1 = (case ss_lastError s of
                  Some e \<Rightarrow> oput SOURCE_STATE_LAST_ERROR (vo_of_string V e) m | None \<Rightarrow> m)
      in (case ss_origin s of
            Some orig \<Rightarrow> oput SOURCE_STATE_ORIGIN (vo_of_string V orig) m1 | None \<Rightarrow> m1))"

definition encodeSourceStates :: "'v variant_ops \<Rightarrow> source_state_map \<Rightarrow> 'v omap omap" where
  "encodeSourceStates V states = fold (\<lambda>(name, s). oput name (encodeSourceState V s)) states []"

definition inv_encodeIssues :: "'v variant_ops \<Rightarrow> inventory_issues \<Rightarrow> 'v omap omap" where
  "inv_encodeIssues V issues = fold (\<lambda>(name, issue). oput name (encodeFields V issue)) issues []"


section \<open>Decoding\<close>

definition decodeFieldValue :: "'v variant_ops \<Rightarrow> 'v \<Rightarrow> decode_error + field_value" where
  "decodeFieldValue V v =
     (case vo_type V v of
        TypeBool \<Rightarrow> Inr (FBool (vo_to_bool V v))
      | TypeInt32 \<Rightarrow> Inr (FInt (word_of_int (sint (vo_to_int32 V v))))
      | TypeInt64 \<Rightarrow> Inr (FInt (vo_to_int64 V v))
      | TypeUInt32 \<Rightarrow> Inr (FUInt (word_of_int (uint (vo_to_uint32 V v))))
      | TypeUInt64 \<Rightarrow> Inr (FUInt (vo_to_uint64 V v))
      | TypeString \<Rightarrow> rbind (validateString (vo_to_string V v)) (\<lambda>_. Inr (FString (vo_to_string V v)))
      | _ \<Rightarrow> Inl InvalidType)"

definition decodeFields :: "'v variant_ops \<Rightarrow> 'v omap \<Rightarrow> decode_error + inventory_fields" where
  "decodeFields V m =
     rbind (validateFieldMapSize m kMaxFields)
       (\<lambda>_. put_all (\<lambda>key v. rbind (validateKey key) (\<lambda>_. decodeFieldValue V v)) m [])"

fun decode_snapshot_fields ::
  "'v variant_ops \<Rightarrow> 'v omap \<Rightarrow> inventory_fields \<Rightarrow> decode_error + inventory_fields" where
  "decode_snapshot_fields V [] out = Inr out"
| "decode_snapshot_fields V ((key, v) # m) out =
     rbind (validateKey key)
       (\<lambda>_. if key = FIELD_VERSION \<or> key = FIELD_TIMESTAMP \<or> key = FIELD_READY \<or> key = FIELD_PHASE
            then decode_snapshot_fields V m out
            else rbind (decodeFieldValue V v) (\<lambda>x. decode_snapshot_fields V m (oput key x out)))"

definition decodeSnapshot :: "'v variant_ops \<Rightarrow> 'v omap \<Rightarrow> decode_error + inventory_snapshot" where
  "decodeSnapshot V m =
     rbind (validateFieldMapSize m (kMaxFields + 4)) (\<lambda>_.
     rbind (rbind (requireField m FIELD_VERSION) (varToUint64 V)) (\<lambda>version.
     rbind (rbind (requireField m FIELD_TIMESTAMP) (varToInt64 V)) (\<lambda>timestamp.
     rbind (inv_requireBool V m FIELD_READY) (\<lambda>ready.
     rbind (inv_requireString V m FIELD_PHASE) (\<lambda>phase.
     rbind (decode_snapshot_fields V m []) (\<lambda>fs.
       Inr \<lparr>is_version = version, is_timestamp = timestamp, is_ready = ready, is_phase = phase,
            is_fields = fs\<rparr>))))))"

definition inv_optionalString ::
  "'v variant_ops \<Rightarrow> 'v omap \<Rightarrow> string \<Rightarrow> decode_error + string option" where
  "inv_optionalString V m key =
     (case map_of m key of
        None \<Rightarrow> Inr None
      | Some f \<Rightarrow> if vo_type V f \<noteq> TypeString then Inl InvalidType
                  else rbind (validateString (vo_to_string V f)) (\<lambda>_. Inr (Some (vo_to_string V f))))"

definition decodeSourceState :: "'v variant_ops \<Rightarrow> string \<Rightarrow> 'v omap \<Rightarrow> decode_error + source_state" where
  "decodeSourceState V sourceName m =
     rbind (validateFieldMapSize m 7) (\<lambda>_.
     rbind (validateString sourceName) (\<lambda>_.
     rbind (rbind (inv_requireString V m SOURCE_STATE_HEALTH) healthFromString) (\<lambda>health.
     rbind (inv_requireBool V m SOURCE_STATE_REQUIRED) (\<lambda>required.
     rbind (inv_requireBool V m SOURCE_STATE_STALE) (\<lambda>stale.
     rbind (rbind (requireField m SOURCE_STATE_LAST_ATTEMPT_TS) (varToInt64 V)) (\<lambda>lastAttempt.
     rbind (rbind (requireField m SOURCE_STATE_LAST_SUCCESS_TS) (varToInt64 V)) (\<lambda>lastSuccess.
     rbind (inv_optionalString V m SOURCE_STATE_LAST_ERROR) (\<lambda>lastError.
     rbind (inv_optionalString V m SOURCE_STATE_ORIGIN) (\<lambda>orig.
       Inr \<lparr>ss_name = sourceName, ss_required = required, ss_stale = stale, ss_health = health,
            ss_lastAttemptTs = lastAttempt, ss_lastSuccessTs = lastSuccess,
            ss_lastError = lastError, ss_origin = orig\<rparr>)))))))))"

definition decodeSourceStates :: "'v variant_ops \<Rightarrow> 'v omap omap \<Rightarrow> decode_error + source_state_map" where
  "decodeSourceStates V states =
     (if length states > kMaxSources then Inl LimitExceeded
      else put_all (\<lambda>name inner. rbind (validateKey name) (\<lambda>_. decodeSourceState V name inner)) states [])"

definition inv_decodeIssues :: "'v variant_ops \<Rightarrow> 'v omap omap \<Rightarrow> decode_error + inventory_issues" where
  "inv_decodeIssues V m =
     (if length m > inv_kMaxIssues then Inl LimitExceeded
      else put_all (\<lambda>name inner. rbind (validateKey name)
             (\<lambda>_. rbind (validateFieldMapSize inner inv_kMaxIssueFields) (\<lambda>_. decodeFields V inner))) m [])"


section \<open>Round trips\<close>

fun value_fits :: "field_value \<Rightarrow> bool" where
  "value_fits (FString s) = string_fits s"
| "value_fits _ = True"

definition fields_fit :: "nat \<Rightarrow> inventory_fields \<Rightarrow> bool" where
  "fields_fit limit fs \<longleftrightarrow> omap_ok fs \<and> length fs \<le> limit \<and>
     (\<forall>(k, v) \<in> set fs. key_fits k \<and> value_fits v)"

lemma decode_encode_value: "variant_ok V \<Longrightarrow> value_fits v \<Longrightarrow> decodeFieldValue V (encodeFieldValue V v) = Inr v"
  by (cases v) (simp_all add: decodeFieldValue_def variant_okD)

lemma fold_oput_map:
  assumes "omap_ok m"
  shows "fold (\<lambda>(k, v). oput k (g v)) m [] = map (\<lambda>(k, v). (k, g v)) m"
proof -
  have "put_all (\<lambda>k v. Inr (g v) :: unit + _) xs out = Inr (fold (\<lambda>(k, v). oput k (g v)) xs out)" for xs out
    by (induction xs arbitrary: out) auto
  then show ?thesis using put_all_map[OF assms, of "\<lambda>k v. Inr (g v) :: unit + _" "\<lambda>k v. g v"] by simp
qed

lemma encodeFields_map: "omap_ok fs \<Longrightarrow> encodeFields V fs = map (\<lambda>(k, v). (k, encodeFieldValue V v)) fs"
  by (simp add: encodeFields_def fold_oput_map)

lemma decode_encode_fields:
  assumes "variant_ok V" "fields_fit kMaxFields fs"
  shows "decodeFields V (encodeFields V fs) = Inr fs"
proof -
  have f: "omap_ok fs" "length fs \<le> kMaxFields" "\<And>k v. (k, v) \<in> set fs \<Longrightarrow> key_fits k \<and> value_fits v"
    using assms(2) by (auto simp: fields_fit_def)
  have "put_all (\<lambda>key v. rbind (validateKey key) (\<lambda>_. decodeFieldValue V v))
          (map (\<lambda>(k, v). (k, encodeFieldValue V v)) fs) [] = Inr fs"
    by (rule put_all_round_trip(2)[where enc = "\<lambda>k v. Inr (encodeFieldValue V v)"])
       (use f decode_encode_value[OF assms(1)] in auto)
  then show ?thesis using f by (simp add: decodeFields_def encodeFields_map validateFieldMapSize_def)
qed

text \<open>The metadata entries are put next to the fields, and skipped when the fields are read back.\<close>

lemma omap_ok_filter: "omap_ok m \<Longrightarrow> omap_ok (filter P m)"
  by (induction m) auto

lemma decode_snapshot_fields_filter:
  assumes "\<forall>k \<in> keys m. key_fits k"
  shows "decode_snapshot_fields V m out
    = put_all (\<lambda>key v. decodeFieldValue V v) (filter (\<lambda>kv. \<not> is_metadata_field (fst kv)) m) out"
  using assms
proof (induction V m out rule: decode_snapshot_fields.induct)
  case (2 V key v m out)
  then show ?case by (cases "decodeFieldValue V v") (auto simp: is_metadata_field_def)
qed simp

definition snapshot_fits :: "inventory_snapshot \<Rightarrow> bool" where
  "snapshot_fits s \<longleftrightarrow> fields_fit kMaxFields (is_fields s) \<and> string_fits (is_phase s) \<and>
     (\<forall>f \<in> keys (is_fields s). \<not> is_metadata_field f)"

lemma metadata_fields [simp]:
  "is_metadata_field FIELD_VERSION" "is_metadata_field FIELD_TIMESTAMP"
  "is_metadata_field FIELD_READY" "is_metadata_field FIELD_PHASE"
  by (simp_all add: is_metadata_field_def)

lemma metadata_fits: "is_metadata_field f \<Longrightarrow> key_fits f"
  by (auto simp: is_metadata_field_def metadata_names kMaxKeyLength_def)

lemma snapshot_fits_reserved:
  "snapshot_fits s \<Longrightarrow> validateNoReservedKeysInFields (is_fields s) = Inr ()"
  using first_reserved_some(1)[of "is_fields s"]
  by (auto simp: snapshot_fits_def validateNoReservedKeysInFields_def contains_reserved_metadata_fields_def
      list_ex_iff)

lemma snapshot_round_trip:
  assumes V: "variant_ok V" and s: "snapshot_fits s"
  shows "\<exists>w. encodeSnapshot V s = Inr w \<and> decodeSnapshot V w = Inr s"
proof -
  let ?e = "encodeFields V (is_fields s)"
  let ?nm = "filter (\<lambda>kv. \<not> is_metadata_field (fst kv))"
  have f: "omap_ok (is_fields s)" "length (is_fields s) \<le> kMaxFields"
    "\<And>k v. (k, v) \<in> set (is_fields s) \<Longrightarrow> key_fits k \<and> value_fits v"
    "\<And>k. k \<in> keys (is_fields s) \<Longrightarrow> \<not> is_metadata_field k"
    using s by (auto simp: snapshot_fits_def fields_fit_def)
  have e: "?e = map (\<lambda>(k, v). (k, encodeFieldValue V v)) (is_fields s)" by (rule encodeFields_map[OF f(1)])
  have ek: "map fst ?e = map fst (is_fields s)" unfolding e by (induction "is_fields s") auto
  have eo: "omap_ok ?e" using f(1) by (simp only: ek)
  define w where "w = oput FIELD_PHASE (vo_of_string V (is_phase s))
     (oput FIELD_READY (vo_of_bool V (is_ready s)) (oput FIELD_TIMESTAMP (vo_of_int64 V (is_timestamp s))
     (oput FIELD_VERSION (vo_of_uint64 V (is_version s)) ?e)))"
  have enc: "encodeSnapshot V s = Inr w"
    using snapshot_fits_reserved[OF s] by (simp add: encodeSnapshot_def w_def)
  have wo: "omap_ok w" using eo by (simp add: w_def omap_ok_oput)
  have wm: "map_of w = (map_of ?e)(FIELD_VERSION \<mapsto> vo_of_uint64 V (is_version s),
      FIELD_TIMESTAMP \<mapsto> vo_of_int64 V (is_timestamp s), FIELD_READY \<mapsto> vo_of_bool V (is_ready s),
      FIELD_PHASE \<mapsto> vo_of_string V (is_phase s))"
    using eo by (simp add: w_def omap_ok_oput map_of_oput)
  have "length w \<le> Suc (Suc (Suc (Suc kMaxFields)))"
    unfolding w_def using f(2) by (intro length_oput) (simp add: e)
  then have len: "validateFieldMapSize w (kMaxFields + 4) = Inr ()" by (simp add: validateFieldMapSize_def)
  have "?nm w = ?e"
  proof (rule omap_eqI)
    show "omap_ok (?nm w)" "omap_ok ?e" using wo eo by (simp_all add: omap_ok_filter)
    have off: "is_metadata_field k \<Longrightarrow> map_of ?e k = None" for k
      using f(4)[of k] ek by (auto simp: map_of_eq_None_iff simp flip: set_map)
    have "map_of (?nm w) k = (if is_metadata_field k then None else map_of w k)" for k
      using map_of_filter_key[of "\<lambda>k. \<not> is_metadata_field k" w k] by simp
    moreover have "\<not> is_metadata_field k \<Longrightarrow> map_of w k = map_of ?e k" for k
      by (auto simp: wm is_metadata_field_def)
    ultimately show "map_of (?nm w) = map_of ?e" using off by (auto simp: fun_eq_iff)
  qed
  moreover have "key_fits k" if "k \<in> keys w" for k
  proof -
    have "k \<in> keys ?e \<or> is_metadata_field k" using that by (auto simp: w_def)
    then show ?thesis using metadata_fits f(3) unfolding ek by force
  qed
  moreover have "put_all (\<lambda>key v. decodeFieldValue V v) ?e [] = Inr (is_fields s)"
    unfolding e
    by (rule put_all_round_trip(2)[where enc = "\<lambda>k v. Inr (encodeFieldValue V v)"])
       (use f decode_encode_value[OF V] in auto)
  ultimately have "decode_snapshot_fields V w [] = Inr (is_fields s)"
    using decode_snapshot_fields_filter[of w V "[]"] by metis
  moreover have "string_fits (is_phase s)" using s by (simp add: snapshot_fits_def)
  ultimately have "decodeSnapshot V w = Inr s"
    by (simp add: decodeSnapshot_def len requireField_def wm inv_requireBool_def inv_requireString_def
        varToUint64_def varToInt64_def variant_okD[OF V])
       (simp add: metadata_names requireField_def variant_okD[OF V] varToUint64_def varToInt64_def)
  with enc show ?thesis by blast
qed


text \<open>Source states: the name travels as the key of the outer map.\<close>

definition state_fits :: "string \<Rightarrow> source_state \<Rightarrow> bool" where
  "state_fits name s \<longleftrightarrow> ss_name s = name \<and> key_fits name \<and>
     (\<forall>e. ss_lastError s = Some e \<longrightarrow> string_fits e) \<and> (\<forall>e. ss_origin s = Some e \<longrightarrow> string_fits e)"

lemma key_string_fits: "key_fits k \<Longrightarrow> string_fits k"
  by (simp add: kMaxKeyLength_def kMaxStringLength_def)

lemma health_round_trip [simp]:
  "healthFromString (healthToString h) = Inr h" "string_fits (healthToString h)"
  by (cases h; simp add: healthFromString_def kMaxStringLength_def)+

lemma decode_encode_state:
  assumes V: "variant_ok V" and s: "state_fits name s"
  shows "decodeSourceState V name (encodeSourceState V s) = Inr s"
proof -
  have "length (encodeSourceState V s) \<le> 7"
    unfolding encodeSourceState_def Let_def
    by (cases "ss_lastError s"; cases "ss_origin s") (simp_all add: source_state_names)
  moreover have "string_fits name" using s key_string_fits by (simp add: state_fits_def)
  ultimately show ?thesis using s
    unfolding decodeSourceState_def encodeSourceState_def Let_def
    by (cases "ss_lastError s"; cases "ss_origin s")
       (simp_all add: source_state_names validateFieldMapSize_def inv_requireString_def inv_requireBool_def
         inv_optionalString_def requireField_def varToInt64_def variant_okD[OF V] state_fits_def)
qed

definition states_fit :: "source_state_map \<Rightarrow> bool" where
  "states_fit states \<longleftrightarrow> omap_ok states \<and> length states \<le> kMaxSources \<and>
     (\<forall>(n, s) \<in> set states. state_fits n s)"

lemma decode_encode_states:
  assumes "variant_ok V" "states_fit states"
  shows "decodeSourceStates V (encodeSourceStates V states) = Inr states"
proof -
  have f: "omap_ok states" "length states \<le> kMaxSources" "\<And>n s. (n, s) \<in> set states \<Longrightarrow> state_fits n s"
    using assms(2) by (auto simp: states_fit_def)
  have d: "rbind (validateKey n) (\<lambda>_. decodeSourceState V n (encodeSourceState V s)) = Inr s"
    if "(n, s) \<in> set states" for n s
  proof -
    have "key_fits n" using f(3)[OF that] by (simp add: state_fits_def)
    then show ?thesis by (simp add: decode_encode_state[OF assms(1) f(3)[OF that]])
  qed
  have "put_all (\<lambda>name inner. rbind (validateKey name) (\<lambda>_. decodeSourceState V name inner))
          (map (\<lambda>(k, v). (k, encodeSourceState V v)) states) [] = Inr states"
    by (rule put_all_round_trip(2)[where enc = "\<lambda>k v. Inr (encodeSourceState V v)"])
       (use f(1) d in auto)
  then show ?thesis using f by (simp add: decodeSourceStates_def encodeSourceStates_def fold_oput_map)
qed

definition issues_fit :: "inventory_issues \<Rightarrow> bool" where
  "issues_fit issues \<longleftrightarrow> omap_ok issues \<and> length issues \<le> inv_kMaxIssues \<and>
     (\<forall>(n, i) \<in> set issues. key_fits n \<and> fields_fit inv_kMaxIssueFields i)"

lemma decode_encode_issues:
  assumes "variant_ok V" "issues_fit issues"
  shows "inv_decodeIssues V (inv_encodeIssues V issues) = Inr issues"
proof -
  have f: "omap_ok issues" "length issues \<le> inv_kMaxIssues"
    "\<And>n i. (n, i) \<in> set issues \<Longrightarrow> key_fits n \<and> fields_fit inv_kMaxIssueFields i"
    using assms(2) by (auto simp: issues_fit_def)
  have "fields_fit kMaxFields i" if "fields_fit inv_kMaxIssueFields i" for i
    using that by (auto simp: fields_fit_def inv_kMaxIssueFields_def kMaxFields_def)
  then have d: "rbind (validateKey n) (\<lambda>_. rbind (validateFieldMapSize (encodeFields V i) inv_kMaxIssueFields)
      (\<lambda>_. decodeFields V (encodeFields V i))) = Inr i" if "(n, i) \<in> set issues" for n i
    using f(3)[OF that] decode_encode_fields[OF assms(1)]
    by (simp add: validateFieldMapSize_def encodeFields_map fields_fit_def)
  have "put_all (\<lambda>name inner. rbind (validateKey name)
             (\<lambda>_. rbind (validateFieldMapSize inner inv_kMaxIssueFields) (\<lambda>_. decodeFields V inner)))
          (map (\<lambda>(k, v). (k, encodeFields V v)) issues) [] = Inr issues"
    by (rule put_all_round_trip(2)[where enc = "\<lambda>k v. Inr (encodeFields V v)"])
       (use f(1) d in auto)
  then show ?thesis using f by (simp add: inv_decodeIssues_def inv_encodeIssues_def fold_oput_map)
qed

interpretation fields_codec: checked_codec "\<lambda>fs. Inr (encodeFields V fs)" "decodeFields V"
  "\<lambda>fs. variant_ok V \<and> fields_fit kMaxFields fs" for V
  by unfold_locales (use decode_encode_fields in blast)

interpretation snapshot_codec: checked_codec "encodeSnapshot V" "decodeSnapshot V"
  "\<lambda>s. variant_ok V \<and> snapshot_fits s" for V
  by unfold_locales (use snapshot_round_trip in blast)

interpretation states_codec: checked_codec "\<lambda>s. Inr (encodeSourceStates V s)" "decodeSourceStates V"
  "\<lambda>s. variant_ok V \<and> states_fit s" for V
  by unfold_locales (use decode_encode_states in blast)

interpretation inv_issues_codec: checked_codec "\<lambda>i. Inr (inv_encodeIssues V i)" "inv_decodeIssues V"
  "\<lambda>i. variant_ok V \<and> issues_fit i" for V
  by unfold_locales (use decode_encode_issues in blast)


section \<open>Decoded values are within the limits\<close>

lemma decoded_value_fits: "decodeFieldValue V v = Inr x \<Longrightarrow> value_fits x"
  by (auto simp: decodeFieldValue_def split: dbus_type.splits)

lemma decoded_fields_fit:
  assumes "decodeFields V m = Inr fs"
  shows "fields_fit kMaxFields fs"
proof -
  have m: "length m \<le> kMaxFields"
    "put_all (\<lambda>key v. rbind (validateKey key) (\<lambda>_. decodeFieldValue V v)) m [] = Inr fs"
    using assms by (auto simp: decodeFields_def validateFieldMapSize_def split: if_splits)
  show ?thesis
    using m(1) put_all_result[OF m(2)] decoded_value_fits by (fastforce simp: fields_fit_def)
qed

end
