(* ===== verification/Observation_Codec.thy ===== *)
theory Observation_Codec
  imports Dbus_Variant
begin

text \<open>
  \<open>network-observation/transports/dbus/NetworkObservationDbusCodec\<close>: both directions of the codec of
  the observation service. A \<open>std::set<std::string>\<close> is encoded in its iteration order, the sorted
  list of its elements. The result of \<open>requireStringSet\<close> is the set of the decoded elements.
  \<open>LocalInterfaceState::ifindex\<close> is a C++ \<open>int\<close>: its values are the integers of 32 bits.
\<close>

section \<open>Names\<close>

definition OBS_ISSUE_FIELDS :: "string list" where
  "OBS_ISSUE_FIELDS =
     [''severity'', ''message'', ''component'', ''operation'', ''category'', ''identity'']"

definition K_IFINDEX :: string where "K_IFINDEX = ''ifindex''"
definition K_IFNAME :: string where "K_IFNAME = ''ifname''"
definition K_MAC :: string where "K_MAC = ''mac''"
definition K_ADMINUP :: string where "K_ADMINUP = ''adminUp''"
definition K_RUNNING :: string where "K_RUNNING = ''running''"
definition K_OPERSTATE :: string where "K_OPERSTATE = ''operstate''"
definition K_MASTER :: string where "K_MASTER = ''master''"
definition K_IPV4 :: string where "K_IPV4 = ''ipv4''"
definition K_IPV6 :: string where "K_IPV6 = ''ipv6''"
definition K_CLASSIFICATION :: string where "K_CLASSIFICATION = ''classification''"
definition K_STATUS :: string where "K_STATUS = ''status''"
definition K_SEEN_IN_FDB :: string where "K_SEEN_IN_FDB = ''seenInFdb''"
definition K_SEEN_IN_NEIGH :: string where "K_SEEN_IN_NEIGH = ''seenInNeigh''"
definition K_SEEN_IN_LLDP :: string where "K_SEEN_IN_LLDP = ''seenInLldp''"
definition K_BRIDGE_PORT :: string where "K_BRIDGE_PORT = ''bridgePort''"
definition K_REMOTE_CHASSIS_ID :: string where "K_REMOTE_CHASSIS_ID = ''remoteChassisId''"
definition K_REMOTE_PORT_ID :: string where "K_REMOTE_PORT_ID = ''remotePortId''"
definition K_REMOTE_SYSTEM_NAME :: string where "K_REMOTE_SYSTEM_NAME = ''remoteSystemName''"
definition K_NEIGHBOR_IFACES :: string where "K_NEIGHBOR_IFACES = ''neighborIfaces''"

lemmas wire_names = K_IFINDEX_def K_IFNAME_def K_MAC_def K_ADMINUP_def K_RUNNING_def K_OPERSTATE_def
  K_MASTER_def K_IPV4_def K_IPV6_def K_CLASSIFICATION_def K_STATUS_def K_SEEN_IN_FDB_def
  K_SEEN_IN_NEIGH_def K_SEEN_IN_LLDP_def K_BRIDGE_PORT_def K_REMOTE_CHASSIS_ID_def
  K_REMOTE_PORT_ID_def K_REMOTE_SYSTEM_NAME_def K_NEIGHBOR_IFACES_def


section \<open>Checked access\<close>

type_synonym observation_issue_fields = "string omap"
type_synonym observation_issues = "observation_issue_fields omap"

definition validateRequiredIssueFields :: "observation_issue_fields \<Rightarrow> decode_error + unit" where
  "validateRequiredIssueFields fs =
     all_ok (\<lambda>field. if map_of fs field = None then Inl MissingRequiredField else Inr ()) OBS_ISSUE_FIELDS"

definition validateStringSet :: "string set \<Rightarrow> decode_error + unit" where
  "validateStringSet values =
     (if card values > kMaxStringSetEntries then Inl LimitExceeded
      else all_ok validateString (sorted_list_of_set values))"

definition validateOptional :: "string option \<Rightarrow> decode_error + unit" where
  "validateOptional v = (case v of None \<Rightarrow> Inr () | Some s \<Rightarrow> validateString s)"

definition obs_requireString :: "'v variant_ops \<Rightarrow> 'v omap \<Rightarrow> string \<Rightarrow> decode_error + string" where
  "obs_requireString V m key =
     rbind (validateKey key) (\<lambda>_.
     rbind (requireField m key) (\<lambda>f.
       if vo_type V f \<noteq> TypeString then Inl InvalidType
       else rbind (validateString (vo_to_string V f)) (\<lambda>_. Inr (vo_to_string V f))))"

definition optionalString :: "'v variant_ops \<Rightarrow> 'v omap \<Rightarrow> string \<Rightarrow> decode_error + string option" where
  "optionalString V m key =
     (case map_of m key of
        None \<Rightarrow> Inr None
      | Some f \<Rightarrow> if vo_type V f \<noteq> TypeString then Inl InvalidType
                  else rbind (validateString (vo_to_string V f)) (\<lambda>_. Inr (Some (vo_to_string V f))))"

definition obs_requireBool :: "'v variant_ops \<Rightarrow> 'v omap \<Rightarrow> string \<Rightarrow> decode_error + bool" where
  "obs_requireBool V m key =
     rbind (validateKey key) (\<lambda>_.
     rbind (requireField m key) (\<lambda>f.
       if vo_type V f \<noteq> TypeBool then Inl InvalidType else Inr (vo_to_bool V f)))"

definition requireInt32 :: "'v variant_ops \<Rightarrow> 'v omap \<Rightarrow> string \<Rightarrow> decode_error + int" where
  "requireInt32 V m key =
     rbind (validateKey key) (\<lambda>_.
     rbind (requireField m key) (\<lambda>f.
       if vo_type V f \<noteq> TypeInt32 then Inl InvalidType else Inr (sint (vo_to_int32 V f))))"

fun decode_strings :: "'v variant_ops \<Rightarrow> 'v list \<Rightarrow> string set \<Rightarrow> decode_error + string set" where
  "decode_strings V [] out = Inr out"
| "decode_strings V (v # vs) out =
     (if vo_type V v \<noteq> TypeString then Inl InvalidType
      else rbind (validateString (vo_to_string V v)) (\<lambda>_. decode_strings V vs (insert (vo_to_string V v) out)))"

definition requireStringSet :: "'v variant_ops \<Rightarrow> 'v omap \<Rightarrow> string \<Rightarrow> decode_error + string set" where
  "requireStringSet V m key =
     rbind (validateKey key) (\<lambda>_.
     rbind (requireField m key) (\<lambda>f.
       case vo_to_vector V f of
         None \<Rightarrow> Inl InvalidType
       | Some vs \<Rightarrow> if length vs > kMaxStringSetEntries then Inl LimitExceeded
                    else decode_strings V vs {}))"

definition parseClassification :: "string \<Rightarrow> decode_error + candidate_classification" where
  "parseClassification v =
     (let parsed = classificationFromString v
      in if parsed = UnknownClass \<and> v \<noteq> ''Unknown'' then Inl InvalidValue else Inr parsed)"

definition parseStatus :: "string \<Rightarrow> decode_error + candidate_status" where
  "parseStatus v =
     (if v = ''Provisional'' then Inr Provisional
      else if v = ''Confirmed'' then Inr Confirmed
      else if v = ''Aged'' then Inr Aged
      else if v = ''Expired'' then Inr Expired
      else if v = ''Removed'' then Inr Removed
      else Inl InvalidValue)"

definition validateMapLimit :: "'v omap \<Rightarrow> nat \<Rightarrow> decode_error + unit" where
  "validateMapLimit m limit = (if length m > limit then Inl LimitExceeded else Inr ())"

definition string_vector :: "'v variant_ops \<Rightarrow> string set \<Rightarrow> 'v" where
  "string_vector V values = vo_of_vector V (map (vo_of_string V) (sorted_list_of_set values))"

definition put_optional :: "'v variant_ops \<Rightarrow> string \<Rightarrow> string option \<Rightarrow> 'v omap \<Rightarrow> 'v omap" where
  "put_optional V key v m = (case v of None \<Rightarrow> m | Some s \<Rightarrow> oput key (vo_of_string V s) m)"


section \<open>Encoding\<close>

definition toVariantMap_iface :: "'v variant_ops \<Rightarrow> local_interface_state \<Rightarrow> decode_error + 'v omap" where
  "toVariantMap_iface V i =
     rbind (validateString (li_ifname i)) (\<lambda>_.
     rbind (validateString (li_mac i)) (\<lambda>_.
     rbind (validateString (li_operstate i)) (\<lambda>_.
     rbind (validateOptional (li_masterIfname i)) (\<lambda>_.
     rbind (validateStringSet (li_ipv4 i)) (\<lambda>_.
     rbind (validateStringSet (li_ipv6 i)) (\<lambda>_.
       let d = oput K_OPERSTATE (vo_of_string V (li_operstate i))
               (oput K_RUNNING (vo_of_bool V (li_running i))
                 (oput K_ADMINUP (vo_of_bool V (li_adminUp i))
                   (oput K_MAC (vo_of_string V (li_mac i))
                     (oput K_IFNAME (vo_of_string V (li_ifname i))
                       (oput K_IFINDEX (vo_of_int32 V (word_of_int (li_ifindex i))) [])))));
           d1 = put_optional V K_MASTER (li_masterIfname i) d
       in Inr (oput K_IPV6 (string_vector V (li_ipv6 i))
                (oput K_IPV4 (string_vector V (li_ipv4 i)) d1))))))))"

definition toVariantMap_candidate :: "'v variant_ops \<Rightarrow> wire_candidate \<Rightarrow> decode_error + 'v omap" where
  "toVariantMap_candidate V c =
     rbind (validateString (wc_mac c)) (\<lambda>_.
     rbind (validateOptional (wc_bridgePort c)) (\<lambda>_.
     rbind (validateOptional (wc_remoteChassisId c)) (\<lambda>_.
     rbind (validateOptional (wc_remotePortId c)) (\<lambda>_.
     rbind (validateOptional (wc_remoteSystemName c)) (\<lambda>_.
     rbind (validateStringSet (wc_neighborIfaces c)) (\<lambda>_.
     rbind (validateStringSet (wc_ipv4 c)) (\<lambda>_.
     rbind (validateStringSet (wc_ipv6 c)) (\<lambda>_.
       let d = oput K_SEEN_IN_LLDP (vo_of_bool V (wc_seenInLldp c))
               (oput K_SEEN_IN_NEIGH (vo_of_bool V (wc_seenInNeigh c))
                 (oput K_SEEN_IN_FDB (vo_of_bool V (wc_seenInFdb c))
                   (oput K_STATUS (vo_of_string V (statusToString (wc_status c)))
                     (oput K_CLASSIFICATION (vo_of_string V (classificationToString (wc_classification c)))
                       (oput K_MAC (vo_of_string V (wc_mac c)) [])))));
           d1 = put_optional V K_BRIDGE_PORT (wc_bridgePort c) d;
           d2 = put_optional V K_REMOTE_CHASSIS_ID (wc_remoteChassisId c) d1;
           d3 = put_optional V K_REMOTE_PORT_ID (wc_remotePortId c) d2;
           d4 = put_optional V K_REMOTE_SYSTEM_NAME (wc_remoteSystemName c) d3
       in Inr (oput K_IPV6 (string_vector V (wc_ipv6 c))
                (oput K_IPV4 (string_vector V (wc_ipv4 c))
                  (oput K_NEIGHBOR_IFACES (string_vector V (wc_neighborIfaces c)) d4)))))))))))"

definition issue_field_enc :: "'v variant_ops \<Rightarrow> string \<Rightarrow> string \<Rightarrow> decode_error + 'v" where
  "issue_field_enc V name v =
     rbind (validateKey name) (\<lambda>_. rbind (validateString v) (\<lambda>_. Inr (vo_of_string V v)))"

definition obs_encodeIssues :: "'v variant_ops \<Rightarrow> observation_issues \<Rightarrow> decode_error + 'v omap omap" where
  "obs_encodeIssues V issues =
     (if length issues > obs_kMaxIssues then Inl LimitExceeded
      else put_all (\<lambda>issueCode fs.
             rbind (validateKey issueCode) (\<lambda>_.
             rbind (validateRequiredIssueFields fs) (\<lambda>_.
               if length fs > obs_kMaxIssueFields then Inl LimitExceeded
               else put_all (issue_field_enc V) fs []))) issues [])"

definition encodeLocalSnapshot ::
  "'v variant_ops \<Rightarrow> local_interface_state umap \<Rightarrow> decode_error + 'v omap" where
  "encodeLocalSnapshot V ifaces =
     (if length ifaces > kMaxInterfaces then Inl LimitExceeded
      else put_all (\<lambda>name i.
             rbind (validateKey name) (\<lambda>_.
               if name \<noteq> li_ifname i then Inl InvalidValue
               else rbind (toVariantMap_iface V i) (\<lambda>m. Inr (vo_of_map V m)))) ifaces [])"

definition encodeCandidateMacs :: "string list \<Rightarrow> decode_error + string list" where
  "encodeCandidateMacs macs =
     (if length macs > kMaxCandidates then Inl LimitExceeded
      else rbind (all_ok validateString macs) (\<lambda>_. Inr macs))"


section \<open>Decoding\<close>

definition fromVariantMapIface :: "'v variant_ops \<Rightarrow> 'v omap \<Rightarrow> decode_error + local_interface_state" where
  "fromVariantMapIface V m =
     rbind (validateMapLimit m 9) (\<lambda>_.
     rbind (requireInt32 V m K_IFINDEX) (\<lambda>ifindex.
     rbind (obs_requireString V m K_IFNAME) (\<lambda>ifname.
     rbind (obs_requireString V m K_MAC) (\<lambda>mac.
     rbind (obs_requireBool V m K_ADMINUP) (\<lambda>adminUp.
     rbind (obs_requireBool V m K_RUNNING) (\<lambda>running.
     rbind (obs_requireString V m K_OPERSTATE) (\<lambda>operstate.
     rbind (optionalString V m K_MASTER) (\<lambda>master.
     rbind (requireStringSet V m K_IPV4) (\<lambda>ipv4.
     rbind (requireStringSet V m K_IPV6) (\<lambda>ipv6.
       Inr \<lparr>li_ifindex = ifindex, li_ifname = ifname, li_mac = mac, li_adminUp = adminUp,
            li_running = running, li_operstate = operstate, li_masterIfname = master,
            li_ipv4 = ipv4, li_ipv6 = ipv6\<rparr>))))))))))"

definition fromVariantMapCandidate :: "'v variant_ops \<Rightarrow> 'v omap \<Rightarrow> decode_error + wire_candidate" where
  "fromVariantMapCandidate V m =
     rbind (validateMapLimit m 13) (\<lambda>_.
     rbind (obs_requireString V m K_MAC) (\<lambda>mac.
     rbind (rbind (obs_requireString V m K_CLASSIFICATION) parseClassification) (\<lambda>cls.
     rbind (rbind (obs_requireString V m K_STATUS) parseStatus) (\<lambda>status.
     rbind (obs_requireBool V m K_SEEN_IN_FDB) (\<lambda>fdb.
     rbind (obs_requireBool V m K_SEEN_IN_NEIGH) (\<lambda>neigh.
     rbind (obs_requireBool V m K_SEEN_IN_LLDP) (\<lambda>lldp.
     rbind (optionalString V m K_BRIDGE_PORT) (\<lambda>bridge.
     rbind (optionalString V m K_REMOTE_CHASSIS_ID) (\<lambda>chassis.
     rbind (optionalString V m K_REMOTE_PORT_ID) (\<lambda>port.
     rbind (optionalString V m K_REMOTE_SYSTEM_NAME) (\<lambda>system.
     rbind (requireStringSet V m K_NEIGHBOR_IFACES) (\<lambda>ifaces.
     rbind (requireStringSet V m K_IPV4) (\<lambda>ipv4.
     rbind (requireStringSet V m K_IPV6) (\<lambda>ipv6.
       Inr \<lparr>wc_mac = mac, wc_classification = cls, wc_status = status, wc_seenInFdb = fdb,
            wc_seenInNeigh = neigh, wc_seenInLldp = lldp, wc_bridgePort = bridge,
            wc_remoteChassisId = chassis, wc_remotePortId = port, wc_remoteSystemName = system,
            wc_neighborIfaces = ifaces, wc_ipv4 = ipv4, wc_ipv6 = ipv6\<rparr>))))))))))))))"

definition fromVariantMapLocalSnapshot ::
  "'v variant_ops \<Rightarrow> 'v omap \<Rightarrow> decode_error + local_interface_state umap" where
  "fromVariantMapLocalSnapshot V m =
     (if length m > kMaxInterfaces then Inl LimitExceeded
      else put_all (\<lambda>name v.
             rbind (validateKey name) (\<lambda>_.
               case vo_to_map V v of
                 None \<Rightarrow> Inl InvalidType
               | Some im \<Rightarrow> rbind (fromVariantMapIface V im)
                   (\<lambda>i. if name \<noteq> li_ifname i then Inl InvalidValue else Inr i))) m [])"

definition issue_field_dec :: "'v variant_ops \<Rightarrow> string \<Rightarrow> 'v \<Rightarrow> decode_error + string" where
  "issue_field_dec V name v =
     rbind (validateKey name) (\<lambda>_. if vo_type V v \<noteq> TypeString then Inl InvalidType
       else rbind (validateString (vo_to_string V v)) (\<lambda>_. Inr (vo_to_string V v)))"

definition obs_decodeIssues :: "'v variant_ops \<Rightarrow> 'v omap omap \<Rightarrow> decode_error + observation_issues" where
  "obs_decodeIssues V issues =
     (if length issues > obs_kMaxIssues then Inl LimitExceeded
      else put_all (\<lambda>issueCode fs.
             rbind (validateKey issueCode) (\<lambda>_.
               if length fs > obs_kMaxIssueFields then Inl LimitExceeded
               else rbind (put_all (issue_field_dec V) fs [])
                      (\<lambda>decoded. rbind (validateRequiredIssueFields decoded) (\<lambda>_. Inr decoded)))) issues [])"



section \<open>Round trips\<close>

definition set_fits :: "string set \<Rightarrow> bool" where
  "set_fits S \<longleftrightarrow> finite S \<and> card S \<le> kMaxStringSetEntries \<and> (\<forall>s \<in> S. string_fits s)"

definition option_fits :: "string option \<Rightarrow> bool" where
  "option_fits v \<longleftrightarrow> (case v of None \<Rightarrow> True | Some s \<Rightarrow> string_fits s)"

lemma wire_key_fits:
  "key_fits K_IFINDEX" "key_fits K_IFNAME" "key_fits K_MAC" "key_fits K_ADMINUP" "key_fits K_RUNNING"
  "key_fits K_OPERSTATE" "key_fits K_IPV4" "key_fits K_IPV6" "key_fits K_CLASSIFICATION"
  "key_fits K_STATUS" "key_fits K_SEEN_IN_FDB" "key_fits K_SEEN_IN_NEIGH" "key_fits K_SEEN_IN_LLDP"
  "key_fits K_NEIGHBOR_IFACES"
  by (simp_all add: wire_names kMaxKeyLength_def)

lemma validate_fits:
  "set_fits S \<Longrightarrow> validateStringSet S = Inr ()" "option_fits v \<Longrightarrow> validateOptional v = Inr ()"
  by (auto simp: validateStringSet_def set_fits_def all_ok_Inr validateOptional_def option_fits_def
      split: option.splits)

lemma decode_strings_encoded:
  "variant_ok V \<Longrightarrow> \<forall>x \<in> set xs. string_fits x \<Longrightarrow>
   decode_strings V (map (vo_of_string V) xs) out = Inr (out \<union> set xs)"
  by (induction xs arbitrary: out) (simp_all add: variant_okD)

text \<open>Reading back an entry of an encoded map.\<close>

lemma require_encoded:
  assumes V: "variant_ok V" and k: "key_fits k"
  shows "map_of m k = Some (vo_of_string V s) \<Longrightarrow> string_fits s \<Longrightarrow> obs_requireString V m k = Inr s"
    "map_of m k = Some (vo_of_bool V b) \<Longrightarrow> obs_requireBool V m k = Inr b"
    "map_of m k = Some (string_vector V S) \<Longrightarrow> set_fits S \<Longrightarrow> requireStringSet V m k = Inr S"
    "map_of m k = Some (vo_of_int32 V (word_of_int i)) \<Longrightarrow> - (2 ^ 31) \<le> i \<Longrightarrow> i < 2 ^ 31 \<Longrightarrow>
       requireInt32 V m k = Inr i"
proof -
  show "map_of m k = Some (vo_of_string V s) \<Longrightarrow> string_fits s \<Longrightarrow> obs_requireString V m k = Inr s"
    using k by (simp add: obs_requireString_def requireField_def variant_okD[OF V])
  show "map_of m k = Some (vo_of_bool V b) \<Longrightarrow> obs_requireBool V m k = Inr b"
    using k by (simp add: obs_requireBool_def requireField_def variant_okD[OF V])
  show "map_of m k = Some (string_vector V S) \<Longrightarrow> set_fits S \<Longrightarrow> requireStringSet V m k = Inr S"
    using k decode_strings_encoded[OF V, of "sorted_list_of_set S" "{}"]
    by (auto simp: requireStringSet_def requireField_def string_vector_def variant_okD[OF V] set_fits_def)
  show "map_of m k = Some (vo_of_int32 V (word_of_int i)) \<Longrightarrow> - (2 ^ 31) \<le> i \<Longrightarrow> i < 2 ^ 31 \<Longrightarrow>
       requireInt32 V m k = Inr i"
    using k by (simp add: requireInt32_def requireField_def variant_okD[OF V] sint_sbintrunc'
        signed_take_bit_int_eq_self)
qed

lemma optional_encoded:
  assumes "variant_ok V" "option_fits v" "map_of m k = map_option (vo_of_string V) v"
  shows "optionalString V m k = Inr v"
  using assms by (cases v) (simp_all add: optionalString_def variant_okD option_fits_def)

lemma put_optional_facts:
  "omap_ok m \<Longrightarrow> omap_ok (put_optional V k v m)"
  "omap_ok m \<Longrightarrow> map_of (put_optional V k v m)
     = (case v of None \<Rightarrow> map_of m | Some s \<Rightarrow> (map_of m)(k \<mapsto> vo_of_string V s))"
  "length m \<le> n \<Longrightarrow> length (put_optional V k v m) \<le> Suc n"
  by (auto simp: put_optional_def omap_ok_oput map_of_oput length_oput split: option.split)

definition iface_fits :: "local_interface_state \<Rightarrow> bool" where
  "iface_fits i \<longleftrightarrow> - (2 ^ 31) \<le> li_ifindex i \<and> li_ifindex i < 2 ^ 31 \<and>
     string_fits (li_ifname i) \<and> string_fits (li_mac i) \<and> string_fits (li_operstate i) \<and>
     option_fits (li_masterIfname i) \<and> set_fits (li_ipv4 i) \<and> set_fits (li_ipv6 i)"

lemma iface_round_trip:
  assumes V: "variant_ok V" and i: "iface_fits i"
  shows "\<exists>w. toVariantMap_iface V i = Inr w \<and> fromVariantMapIface V w = Inr i"
proof -
  define d where "d = oput K_OPERSTATE (vo_of_string V (li_operstate i))
               (oput K_RUNNING (vo_of_bool V (li_running i))
                 (oput K_ADMINUP (vo_of_bool V (li_adminUp i))
                   (oput K_MAC (vo_of_string V (li_mac i))
                     (oput K_IFNAME (vo_of_string V (li_ifname i))
                       (oput K_IFINDEX (vo_of_int32 V (word_of_int (li_ifindex i))) [])))))"
  define w where "w = oput K_IPV6 (string_vector V (li_ipv6 i))
                (oput K_IPV4 (string_vector V (li_ipv4 i)) (put_optional V K_MASTER (li_masterIfname i) d))"
  have enc: "toVariantMap_iface V i = Inr w"
    using i by (simp add: toVariantMap_iface_def iface_fits_def validate_fits d_def w_def Let_def del: oput.simps)
  have d: "omap_ok d" unfolding d_def by (intro omap_ok_oput) simp
  have dm: "map_of d = [K_IFINDEX \<mapsto> vo_of_int32 V (word_of_int (li_ifindex i)),
      K_IFNAME \<mapsto> vo_of_string V (li_ifname i), K_MAC \<mapsto> vo_of_string V (li_mac i),
      K_ADMINUP \<mapsto> vo_of_bool V (li_adminUp i), K_RUNNING \<mapsto> vo_of_bool V (li_running i),
      K_OPERSTATE \<mapsto> vo_of_string V (li_operstate i)]"
    by (simp add: d_def omap_ok_oput map_of_oput del: oput.simps)
  have wm: "map_of w = (map_of (put_optional V K_MASTER (li_masterIfname i) d))
      (K_IPV4 \<mapsto> string_vector V (li_ipv4 i), K_IPV6 \<mapsto> string_vector V (li_ipv6 i))"
    using d by (simp add: w_def put_optional_facts omap_ok_oput map_of_oput del: oput.simps)
  have "length w \<le> Suc (Suc (Suc (Suc (Suc (Suc (Suc (Suc (Suc 0))))))))"
    unfolding w_def d_def by (intro length_oput put_optional_facts(3)) simp
  then have lim: "validateMapLimit w 9 = Inr ()" by (simp add: validateMapLimit_def)
  have look: "map_of w K_IFINDEX = Some (vo_of_int32 V (word_of_int (li_ifindex i)))"
    "map_of w K_IFNAME = Some (vo_of_string V (li_ifname i))"
    "map_of w K_MAC = Some (vo_of_string V (li_mac i))"
    "map_of w K_ADMINUP = Some (vo_of_bool V (li_adminUp i))"
    "map_of w K_RUNNING = Some (vo_of_bool V (li_running i))"
    "map_of w K_OPERSTATE = Some (vo_of_string V (li_operstate i))"
    "map_of w K_MASTER = map_option (vo_of_string V) (li_masterIfname i)"
    "map_of w K_IPV4 = Some (string_vector V (li_ipv4 i))"
    "map_of w K_IPV6 = Some (string_vector V (li_ipv6 i))"
    by (simp_all add: wm put_optional_facts(2)[OF d] dm wire_names split: option.split)
  have fits: "- (2 ^ 31) \<le> li_ifindex i" "li_ifindex i < 2 ^ 31" "string_fits (li_ifname i)"
    "string_fits (li_mac i)" "string_fits (li_operstate i)" "option_fits (li_masterIfname i)"
    "set_fits (li_ipv4 i)" "set_fits (li_ipv6 i)"
    using i by (simp_all add: iface_fits_def)
  note R = require_encoded[OF V]
  have "fromVariantMapIface V w = Inr i"
    unfolding fromVariantMapIface_def lim rbind_simps
      R(4)[OF wire_key_fits(1) look(1) fits(1,2)] R(1)[OF wire_key_fits(2) look(2) fits(3)]
      R(1)[OF wire_key_fits(3) look(3) fits(4)] R(2)[OF wire_key_fits(4) look(4)]
      R(2)[OF wire_key_fits(5) look(5)] R(1)[OF wire_key_fits(6) look(6) fits(5)]
      optional_encoded[OF V fits(6) look(7)] R(3)[OF wire_key_fits(7) look(8) fits(7)]
      R(3)[OF wire_key_fits(8) look(9) fits(8)]
    by simp
  with enc show ?thesis by blast
qed

definition candidate_fits :: "wire_candidate \<Rightarrow> bool" where
  "candidate_fits c \<longleftrightarrow>
     string_fits (wc_mac c) \<and> option_fits (wc_bridgePort c) \<and> option_fits (wc_remoteChassisId c) \<and>
     option_fits (wc_remotePortId c) \<and> option_fits (wc_remoteSystemName c) \<and>
     set_fits (wc_neighborIfaces c) \<and> set_fits (wc_ipv4 c) \<and> set_fits (wc_ipv6 c)"

lemma parse_printed [simp]:
  "parseClassification (classificationToString c) = Inr c" "string_fits (classificationToString c)"
  "parseStatus (statusToString st) = Inr st" "string_fits (statusToString st)"
  by (cases c; simp add: parseClassification_def classificationFromString_def kMaxStringLength_def)+
     (cases st; simp add: parseStatus_def kMaxStringLength_def)+

lemma candidate_round_trip:
  assumes V: "variant_ok V" and c: "candidate_fits c"
  shows "\<exists>w. toVariantMap_candidate V c = Inr w \<and> fromVariantMapCandidate V w = Inr c"
proof -
  define d where "d = oput K_SEEN_IN_LLDP (vo_of_bool V (wc_seenInLldp c))
               (oput K_SEEN_IN_NEIGH (vo_of_bool V (wc_seenInNeigh c))
                 (oput K_SEEN_IN_FDB (vo_of_bool V (wc_seenInFdb c))
                   (oput K_STATUS (vo_of_string V (statusToString (wc_status c)))
                     (oput K_CLASSIFICATION (vo_of_string V (classificationToString (wc_classification c)))
                       (oput K_MAC (vo_of_string V (wc_mac c)) [])))))"
  define o1 where "o1 = put_optional V K_BRIDGE_PORT (wc_bridgePort c) d"
  define o2 where "o2 = put_optional V K_REMOTE_CHASSIS_ID (wc_remoteChassisId c) o1"
  define o3 where "o3 = put_optional V K_REMOTE_PORT_ID (wc_remotePortId c) o2"
  define o4 where "o4 = put_optional V K_REMOTE_SYSTEM_NAME (wc_remoteSystemName c) o3"
  define w where "w = oput K_IPV6 (string_vector V (wc_ipv6 c))
                (oput K_IPV4 (string_vector V (wc_ipv4 c))
                  (oput K_NEIGHBOR_IFACES (string_vector V (wc_neighborIfaces c)) o4))"
  note defs = d_def o1_def o2_def o3_def o4_def w_def
  have enc: "toVariantMap_candidate V c = Inr w"
    using c by (simp add: toVariantMap_candidate_def candidate_fits_def validate_fits defs Let_def del: oput.simps)
  have ok: "omap_ok d" "omap_ok o1" "omap_ok o2" "omap_ok o3" "omap_ok o4"
    unfolding defs by (intro omap_ok_oput put_optional_facts(1); simp)+
  have dm: "map_of d = [K_MAC \<mapsto> vo_of_string V (wc_mac c),
      K_CLASSIFICATION \<mapsto> vo_of_string V (classificationToString (wc_classification c)),
      K_STATUS \<mapsto> vo_of_string V (statusToString (wc_status c)),
      K_SEEN_IN_FDB \<mapsto> vo_of_bool V (wc_seenInFdb c), K_SEEN_IN_NEIGH \<mapsto> vo_of_bool V (wc_seenInNeigh c),
      K_SEEN_IN_LLDP \<mapsto> vo_of_bool V (wc_seenInLldp c)]"
    by (simp add: d_def omap_ok_oput map_of_oput del: oput.simps)
  have wm: "map_of w = (map_of o4)(K_NEIGHBOR_IFACES \<mapsto> string_vector V (wc_neighborIfaces c),
      K_IPV4 \<mapsto> string_vector V (wc_ipv4 c), K_IPV6 \<mapsto> string_vector V (wc_ipv6 c))"
    using ok by (simp add: w_def omap_ok_oput map_of_oput del: oput.simps)
  have om: "map_of o1 k = (if k = K_BRIDGE_PORT \<and> wc_bridgePort c \<noteq> None
        then map_option (vo_of_string V) (wc_bridgePort c) else map_of d k)"
    "map_of o2 k = (if k = K_REMOTE_CHASSIS_ID \<and> wc_remoteChassisId c \<noteq> None
        then map_option (vo_of_string V) (wc_remoteChassisId c) else map_of o1 k)"
    "map_of o3 k = (if k = K_REMOTE_PORT_ID \<and> wc_remotePortId c \<noteq> None
        then map_option (vo_of_string V) (wc_remotePortId c) else map_of o2 k)"
    "map_of o4 k = (if k = K_REMOTE_SYSTEM_NAME \<and> wc_remoteSystemName c \<noteq> None
        then map_option (vo_of_string V) (wc_remoteSystemName c) else map_of o3 k)" for k
    unfolding o1_def o2_def o3_def o4_def
    by (auto simp: put_optional_facts ok[unfolded o1_def o2_def o3_def o4_def] split: option.split)
  have "length w \<le> Suc (Suc (Suc (Suc (Suc (Suc (Suc (Suc (Suc (Suc (Suc (Suc (Suc 0))))))))))))"
    unfolding defs by (intro length_oput put_optional_facts(3)) simp
  then have lim: "validateMapLimit w 13 = Inr ()" by (simp add: validateMapLimit_def)
  have look: "map_of w K_MAC = Some (vo_of_string V (wc_mac c))"
    "map_of w K_CLASSIFICATION = Some (vo_of_string V (classificationToString (wc_classification c)))"
    "map_of w K_STATUS = Some (vo_of_string V (statusToString (wc_status c)))"
    "map_of w K_SEEN_IN_FDB = Some (vo_of_bool V (wc_seenInFdb c))"
    "map_of w K_SEEN_IN_NEIGH = Some (vo_of_bool V (wc_seenInNeigh c))"
    "map_of w K_SEEN_IN_LLDP = Some (vo_of_bool V (wc_seenInLldp c))"
    "map_of w K_BRIDGE_PORT = map_option (vo_of_string V) (wc_bridgePort c)"
    "map_of w K_REMOTE_CHASSIS_ID = map_option (vo_of_string V) (wc_remoteChassisId c)"
    "map_of w K_REMOTE_PORT_ID = map_option (vo_of_string V) (wc_remotePortId c)"
    "map_of w K_REMOTE_SYSTEM_NAME = map_option (vo_of_string V) (wc_remoteSystemName c)"
    "map_of w K_NEIGHBOR_IFACES = Some (string_vector V (wc_neighborIfaces c))"
    "map_of w K_IPV4 = Some (string_vector V (wc_ipv4 c))"
    "map_of w K_IPV6 = Some (string_vector V (wc_ipv6 c))"
    by (simp_all add: wm om dm wire_names)
  have fits: "string_fits (wc_mac c)" "option_fits (wc_bridgePort c)" "option_fits (wc_remoteChassisId c)"
    "option_fits (wc_remotePortId c)" "option_fits (wc_remoteSystemName c)"
    "set_fits (wc_neighborIfaces c)" "set_fits (wc_ipv4 c)" "set_fits (wc_ipv6 c)"
    using c by (simp_all add: candidate_fits_def)
  note R = require_encoded[OF V] and O = optional_encoded[OF V]
  have "fromVariantMapCandidate V w = Inr c"
    unfolding fromVariantMapCandidate_def lim rbind_simps
      R(1)[OF wire_key_fits(3) look(1) fits(1)] R(1)[OF wire_key_fits(9) look(2) parse_printed(2)]
      R(1)[OF wire_key_fits(10) look(3) parse_printed(4)] R(2)[OF wire_key_fits(11) look(4)]
      R(2)[OF wire_key_fits(12) look(5)] R(2)[OF wire_key_fits(13) look(6)]
      O[OF fits(2) look(7)] O[OF fits(3) look(8)] O[OF fits(4) look(9)] O[OF fits(5) look(10)]
      R(3)[OF wire_key_fits(14) look(11) fits(6)] R(3)[OF wire_key_fits(7) look(12) fits(7)]
      R(3)[OF wire_key_fits(8) look(13) fits(8)] parse_printed
    by simp
  with enc show ?thesis by blast
qed

text \<open>
  The snapshot travels as a map of maps. The container is unordered on both sides, so the round trip
  is equality of lookups.
\<close>

definition snapshot_ifaces_fit :: "local_interface_state umap \<Rightarrow> bool" where
  "snapshot_ifaces_fit m \<longleftrightarrow> distinct_keys m \<and> length m \<le> kMaxInterfaces \<and>
     (\<forall>(n, i) \<in> set m. key_fits n \<and> li_ifname i = n \<and> iface_fits i)"

lemma local_snapshot_round_trip:
  assumes V: "variant_ok V" and m: "snapshot_ifaces_fit m"
  shows "\<exists>w m'. encodeLocalSnapshot V m = Inr w \<and> fromVariantMapLocalSnapshot V w = Inr m' \<and> map_of m' = map_of m"
proof -
  let ?enc = "\<lambda>name i. rbind (validateKey name) (\<lambda>_. if name \<noteq> li_ifname i then Inl InvalidValue
               else rbind (toVariantMap_iface V i) (\<lambda>m. Inr (vo_of_map V m)))"
  let ?dec = "\<lambda>name v. rbind (validateKey name) (\<lambda>_. case vo_to_map V v of None \<Rightarrow> Inl InvalidType
               | Some im \<Rightarrow> rbind (fromVariantMapIface V im)
                   (\<lambda>i. if name \<noteq> li_ifname i then Inl InvalidValue else Inr i))"
  define enc where "enc i = (SOME w. toVariantMap_iface V i = Inr w \<and> fromVariantMapIface V w = Inr i)" for i
  have e: "toVariantMap_iface V i = Inr (enc i)" "fromVariantMapIface V (enc i) = Inr i" if "iface_fits i" for i
    using someI_ex[OF iface_round_trip[OF V that]] unfolding enc_def by blast+
  have d: "distinct_keys m" "length m \<le> kMaxInterfaces"
    "\<And>n i. (n, i) \<in> set m \<Longrightarrow> key_fits n \<and> li_ifname i = n \<and> iface_fits i"
    using m by (auto simp: snapshot_ifaces_fit_def)
  have en: "?enc n i = Inr (vo_of_map V (enc i))" if "(n, i) \<in> set m" for n i
    using d(3)[OF that] e(1)[of i] by simp
  obtain w where w: "put_all ?enc m [] = Inr w" "omap_ok w"
    "\<And>k. map_of w k = map_option (\<lambda>i. vo_of_map V (enc i)) (map_of m k)"
    using put_all_lookup[where f = ?enc and g = "\<lambda>n i. vo_of_map V (enc i)", OF d(1) en] by blast
  have wi: "\<exists>i. map_of m n = Some i \<and> v = vo_of_map V (enc i)" if "(n, v) \<in> set w" for n v
    using that w(3)[of n] in_set_map_of[OF omap_ok_distinct[OF w(2)]] by auto
  have de: "?dec n v = Inr (the (map_of m n))" if "(n, v) \<in> set w" for n v
    using wi[OF that] d(3)[OF map_of_SomeD] e(2) by (auto simp: variant_okD[OF V])
  obtain m' where m': "put_all ?dec w [] = Inr m'"
    "\<And>k. map_of m' k = map_option (\<lambda>_. the (map_of m k)) (map_of w k)"
    using put_all_lookup[where f = ?dec and g = "\<lambda>n v. the (map_of m n)", OF omap_ok_distinct[OF w(2)] de]
    by blast
  have "map_of m' k = map_of m k" for k by (cases "map_of m k") (simp_all add: m'(2) w(3))
  moreover have "length w \<le> kMaxInterfaces" using put_all_result(2)[OF w(1)] d(2) by simp
  ultimately show ?thesis
    using w(1) m'(1) d(2) by (auto simp: encodeLocalSnapshot_def fromVariantMapLocalSnapshot_def)
qed

definition obs_issue_fits :: "observation_issue_fields \<Rightarrow> bool" where
  "obs_issue_fits fs \<longleftrightarrow> omap_ok fs \<and> length fs \<le> obs_kMaxIssueFields \<and>
     set OBS_ISSUE_FIELDS \<subseteq> keys fs \<and> (\<forall>(n, v) \<in> set fs. key_fits n \<and> string_fits v)"

definition obs_issues_fit :: "observation_issues \<Rightarrow> bool" where
  "obs_issues_fit issues \<longleftrightarrow> omap_ok issues \<and> length issues \<le> obs_kMaxIssues \<and>
     (\<forall>(n, fs) \<in> set issues. key_fits n \<and> obs_issue_fits fs)"

lemma required_issue_fields: "set OBS_ISSUE_FIELDS \<subseteq> keys fs \<Longrightarrow> validateRequiredIssueFields fs = Inr ()"
  by (auto simp: validateRequiredIssueFields_def all_ok_Inr map_of_eq_None_iff)

lemma issue_round_trip:
  assumes V: "variant_ok V" and f: "obs_issue_fits fs"
  shows "put_all (issue_field_enc V) fs [] = Inr (map (\<lambda>(k, v). (k, vo_of_string V v)) fs)"
    "put_all (issue_field_dec V) (map (\<lambda>(k, v). (k, vo_of_string V v)) fs) [] = Inr fs"
proof -
  have e: "issue_field_enc V k v = Inr (vo_of_string V v)" "issue_field_dec V k (vo_of_string V v) = Inr v"
    if "(k, v) \<in> set fs" for k v
    using f that by (auto simp: obs_issue_fits_def issue_field_enc_def issue_field_dec_def variant_okD[OF V])
  have "omap_ok fs" using f by (simp add: obs_issue_fits_def)
  then show "put_all (issue_field_enc V) fs [] = Inr (map (\<lambda>(k, v). (k, vo_of_string V v)) fs)"
    "put_all (issue_field_dec V) (map (\<lambda>(k, v). (k, vo_of_string V v)) fs) [] = Inr fs"
    using put_all_round_trip[where enc = "issue_field_enc V" and dec = "issue_field_dec V"
        and w = "\<lambda>k v. vo_of_string V v" and m = fs] e by blast+
qed

lemma obs_issues_round_trip:
  assumes V: "variant_ok V" and i: "obs_issues_fit issues"
  shows "\<exists>w. obs_encodeIssues V issues = Inr w \<and> obs_decodeIssues V w = Inr issues"
proof -
  let ?w = "\<lambda>(n::string) fs. map (\<lambda>(k, v). (k, vo_of_string V v)) fs"
  let ?enc = "\<lambda>issueCode fs. rbind (validateKey issueCode) (\<lambda>_. rbind (validateRequiredIssueFields fs) (\<lambda>_.
               if length fs > obs_kMaxIssueFields then Inl LimitExceeded
               else put_all (issue_field_enc V) fs []))"
  let ?dec = "\<lambda>issueCode fs. rbind (validateKey issueCode) (\<lambda>_.
               if length fs > obs_kMaxIssueFields then Inl LimitExceeded
               else rbind (put_all (issue_field_dec V) fs [])
                      (\<lambda>decoded. rbind (validateRequiredIssueFields decoded) (\<lambda>_. Inr decoded)))"
  have f: "omap_ok issues" "length issues \<le> obs_kMaxIssues"
    "\<And>n fs. (n, fs) \<in> set issues \<Longrightarrow> key_fits n \<and> obs_issue_fits fs"
    using i by (auto simp: obs_issues_fit_def)
  have e: "?enc n fs = Inr (?w n fs)" "?dec n (?w n fs) = Inr fs" if "(n, fs) \<in> set issues" for n fs
  proof -
    have b: "key_fits n" "obs_issue_fits fs" "length fs \<le> obs_kMaxIssueFields"
      "validateRequiredIssueFields fs = Inr ()"
      using f(3)[OF that] required_issue_fields by (auto simp: obs_issue_fits_def)
    show "?enc n fs = Inr (?w n fs)" using b issue_round_trip(1)[OF V b(2)] by simp
    show "?dec n (?w n fs) = Inr fs" using b issue_round_trip(2)[OF V b(2)] by simp
  qed
  have "put_all ?enc issues [] = Inr (map (\<lambda>(k, v). (k, ?w k v)) issues)"
    by (rule put_all_round_trip(1)[where enc = ?enc and w = ?w and dec = ?dec, OF f(1) e])
  moreover have "put_all ?dec (map (\<lambda>(k, v). (k, ?w k v)) issues) [] = Inr issues"
    by (rule put_all_round_trip(2)[where enc = ?enc and w = ?w and dec = ?dec, OF f(1) e])
  ultimately show ?thesis using f(2)
    by (simp add: obs_encodeIssues_def obs_decodeIssues_def)
qed

interpretation iface_codec: checked_codec "toVariantMap_iface V" "fromVariantMapIface V"
  "\<lambda>i. variant_ok V \<and> iface_fits i" for V
  by unfold_locales (use iface_round_trip in blast)

interpretation candidate_codec: checked_codec "toVariantMap_candidate V" "fromVariantMapCandidate V"
  "\<lambda>c. variant_ok V \<and> candidate_fits c" for V
  by unfold_locales (use candidate_round_trip in blast)

interpretation obs_issues_codec: checked_codec "obs_encodeIssues V" "obs_decodeIssues V"
  "\<lambda>i. variant_ok V \<and> obs_issues_fit i" for V
  by unfold_locales (use obs_issues_round_trip in blast)

end
