(* ===== verification/Codec_Properties.thy ===== *)
theory Codec_Properties
  imports Inventory_Codec Observation_Codec Local_State
begin

text \<open>
  Correctness of the two D-Bus codecs: what the services encode a client decodes back, whatever a
  client decodes is within the ingress limits, and the one state of the local tracker that the
  encoder refuses.
\<close>

section \<open>Round trips\<close>

text \<open>
  A snapshot whose fields are within the limits and name no metadata encodes, and decoding
  returns it, metadata included: version, timestamp, readiness, phase and every field.
\<close>

theorem inventory_snapshot_round_trip:
  assumes "variant_ok V" "snapshot_fits s" "encodeSnapshot V s = Inr w"
  shows "decodeSnapshot V w = Inr s"
  using snapshot_codec.decode_encoded assms by blast

definition sample_snapshot :: inventory_snapshot where
  "sample_snapshot = \<lparr>is_version = 3, is_timestamp = 17, is_ready = True, is_phase = ''live'',
     is_fields = [(''nodeName'', FString ''n1''), (''uuid'', FUInt 42)]\<rparr>"

theorem inventory_snapshot_round_trip_witness:
  "\<exists>w. encodeSnapshot dvariant_ops sample_snapshot = Inr w \<and> decodeSnapshot dvariant_ops w = Inr sample_snapshot"
proof -
  have fits: "snapshot_fits sample_snapshot"
    by (simp add: snapshot_fits_def sample_snapshot_def fields_fit_def ingress_limits
        is_metadata_field_def metadata_names)
  obtain w where "encodeSnapshot dvariant_ops sample_snapshot = Inr w"
    using snapshot_codec.encodes[of dvariant_ops sample_snapshot] fits dvariant_ok by blast
  then show ?thesis using inventory_snapshot_round_trip[OF dvariant_ok fits] by blast
qed

text \<open>
  Source states and issues survive the wire: decoding the encoded maps returns them, with the
  source name carried by the key.
\<close>

theorem inventory_states_issues_round_trip:
  assumes "variant_ok V" "states_fit states" "issues_fit issues"
  shows "decodeSourceStates V (encodeSourceStates V states) = Inr states \<and>
         inv_decodeIssues V (inv_encodeIssues V issues) = Inr issues"
  using states_codec.decode_encoded[OF _ refl] inv_issues_codec.decode_encoded[OF _ refl] assms by blast

theorem inventory_states_issues_round_trip_witness:
  "decodeSourceStates dvariant_ops (encodeSourceStates dvariant_ops
      [(''a'', empty_source_state\<lparr>ss_name := ''a'', ss_lastError := Some ''io''\<rparr>)])
    = Inr [(''a'', empty_source_state\<lparr>ss_name := ''a'', ss_lastError := Some ''io''\<rparr>)]"
  using inventory_states_issues_round_trip[OF dvariant_ok,
      of "[(''a'', empty_source_state\<lparr>ss_name := ''a'', ss_lastError := Some ''io''\<rparr>)]" "[]"]
  by (simp add: states_fit_def state_fits_def issues_fit_def ingress_limits empty_source_state_def)

text \<open>
  A candidate within the limits survives the wire with every field: flags, classification,
  status, the optional identifiers (absent ones stay absent) and the three address sets.
\<close>

theorem candidate_wire_round_trip:
  assumes "variant_ok V" "candidate_fits c"
  shows "\<exists>w. toVariantMap_candidate V c = Inr w \<and> fromVariantMapCandidate V w = Inr c"
  using candidate_codec.round_trip assms by blast

definition sample_candidate :: wire_candidate where
  "sample_candidate = \<lparr>wc_mac = ''02:00:00:00:00:07'', wc_classification = RemoteEndpoint,
     wc_status = Confirmed, wc_seenInFdb = True, wc_seenInNeigh = False, wc_seenInLldp = False,
     wc_bridgePort = Some ''swp1'', wc_remoteChassisId = None, wc_remotePortId = None,
     wc_remoteSystemName = None, wc_neighborIfaces = {}, wc_ipv4 = {''10.0.0.7''}, wc_ipv6 = {}\<rparr>"

theorem candidate_wire_round_trip_witness:
  "\<exists>w. toVariantMap_candidate dvariant_ops sample_candidate = Inr w \<and>
       fromVariantMapCandidate dvariant_ops w = Inr sample_candidate"
  by (rule candidate_wire_round_trip[OF dvariant_ok])
     (simp add: candidate_fits_def sample_candidate_def option_fits_def set_fits_def ingress_limits)

text \<open>
  A local snapshot whose keys are the names of its interfaces survives the wire: the decoded
  container returns the same interface for every name.
\<close>

theorem local_snapshot_wire_round_trip:
  assumes "variant_ok V" "snapshot_ifaces_fit m"
  shows "\<exists>w m'. encodeLocalSnapshot V m = Inr w \<and> fromVariantMapLocalSnapshot V w = Inr m' \<and>
                map_of m' = map_of m"
  using local_snapshot_round_trip assms by blast

theorem local_snapshot_wire_round_trip_witness:
  "\<exists>w m'. encodeLocalSnapshot dvariant_ops [(''eth0'', empty_interface\<lparr>li_ifname := ''eth0'', li_ifindex := 2\<rparr>)] = Inr w \<and>
      fromVariantMapLocalSnapshot dvariant_ops w = Inr m' \<and>
      map_of m' ''eth0'' = Some (empty_interface\<lparr>li_ifname := ''eth0'', li_ifindex := 2\<rparr>)"
proof -
  have "snapshot_ifaces_fit [(''eth0'', empty_interface\<lparr>li_ifname := ''eth0'', li_ifindex := 2\<rparr>)]"
    by (simp add: snapshot_ifaces_fit_def iface_fits_def empty_interface_def option_fits_def set_fits_def
        ingress_limits)
  from local_snapshot_wire_round_trip[OF dvariant_ok this] show ?thesis by fastforce
qed

text \<open>
  Observation issues that carry the six required fields survive the wire.
\<close>

theorem observation_issues_round_trip:
  assumes "variant_ok V" "obs_issues_fit issues"
  shows "\<exists>w. obs_encodeIssues V issues = Inr w \<and> obs_decodeIssues V w = Inr issues"
  using obs_issues_codec.round_trip assms by blast

definition sample_issue :: observation_issue_fields where
  "sample_issue = [(''category'', ''input''), (''component'', ''lldp''), (''identity'', ''x''),
     (''message'', ''m''), (''operation'', ''start''), (''severity'', ''error'')]"

theorem observation_issues_round_trip_witness:
  "\<exists>w. obs_encodeIssues dvariant_ops [(''lldp'', sample_issue)] = Inr w \<and>
       obs_decodeIssues dvariant_ops w = Inr [(''lldp'', sample_issue)]"
  by (rule observation_issues_round_trip[OF dvariant_ok])
     (simp add: obs_issues_fit_def obs_issue_fits_def sample_issue_def OBS_ISSUE_FIELDS_def ingress_limits)


section \<open>Ingress limits\<close>

lemma decode_strings_fit:
  "decode_strings V vs out = Inr S \<Longrightarrow> finite out \<Longrightarrow> \<forall>x \<in> out. string_fits x \<Longrightarrow>
   finite S \<and> card S \<le> card out + length vs \<and> (\<forall>x \<in> S. string_fits x)"
proof (induction V vs out rule: decode_strings.induct)
  case (2 V v vs out)
  then have r: "string_fits (vo_to_string V v)" "decode_strings V vs (insert (vo_to_string V v) out) = Inr S"
    by (auto split: if_splits)
  have "card (insert (vo_to_string V v) out) \<le> Suc (card out)" using 2(3) by (simp add: card_insert_if)
  then show ?case using 2(1)[OF _ _ r(2)] 2 r(1) by (fastforce split: if_splits)
qed simp

lemma decoded_fits:
  "requireStringSet V m k = Inr S \<Longrightarrow> set_fits S"
  "optionalString V m k = Inr v \<Longrightarrow> option_fits v"
  "obs_requireString V m k = Inr s \<Longrightarrow> string_fits s"
  using decode_strings_fit[of V _ "{}" S]
  by (force simp: requireStringSet_def set_fits_def requireField_def split: option.splits if_splits)
     (auto simp: optionalString_def option_fits_def obs_requireString_def requireField_def
       split: option.splits if_splits)

text \<open>
  (C13) Whatever arrives, a decoder either reports an error or returns a value within the ingress
  limits: a decoded candidate and a decoded field map fit, so that they can be encoded again.
\<close>

theorem decoded_within_limits:
  assumes "fromVariantMapCandidate V m = Inr c" "decodeFields V m' = Inr fs"
  shows "candidate_fits c \<and> fields_fit kMaxFields fs"
proof -
  have "candidate_fits c"
    using assms(1) unfolding fromVariantMapCandidate_def
    by (auto simp: candidate_fits_def dest: decoded_fits)
  then show ?thesis using decoded_fields_fit[OF assms(2)] by blast
qed

theorem decoded_within_limits_witness:
  "candidate_fits sample_candidate \<and> fields_fit kMaxFields [(''uuid'', FUInt 42)]"
proof -
  obtain w where "fromVariantMapCandidate dvariant_ops w = Inr sample_candidate"
    using candidate_round_trip[OF dvariant_ok, of sample_candidate]
    by (auto simp: candidate_fits_def sample_candidate_def option_fits_def set_fits_def ingress_limits)
  moreover have "decodeFields dvariant_ops [(''uuid'', DUInt64 42)] = Inr [(''uuid'', FUInt 42)]"
    by (simp add: decodeFields_def validateFieldMapSize_def decodeFieldValue_def dvariant_ops_def ingress_limits)
  ultimately show ?thesis by (rule decoded_within_limits)
qed


section \<open>The tracker and the encoder\<close>

lemma address_stub:
  assumes "map_of (lt_interfaces t) (ao_ifname obs) = None"
  shows "\<exists>i. map_of (lt_interfaces (fst (tracker_onAddressObservation obs t))) (ao_ifname obs) = Some i
             \<and> li_ifname i = []"
proof -
  have "interface_or_default (ao_ifname obs) t = empty_interface"
    using assms by (simp add: interface_or_default_def)
  then show ?thesis
    by (simp add: tracker_onAddressObservation_def Let_def frame_simps empty_interface_def)
qed

text \<open>
  An address reported for an interface before its link leaves the tracker with an entry that has
  no name, and from then on the encoder refuses the whole local snapshot, not only that entry.
\<close>

theorem address_before_link_blocks_snapshot:
  assumes "map_of (lt_interfaces t) (ao_ifname obs) = None" "ao_ifname obs \<noteq> []"
  shows "\<exists>err. encodeLocalSnapshot V (lt_interfaces (fst (tracker_onAddressObservation obs t))) = Inl err"
proof -
  let ?m = "lt_interfaces (fst (tracker_onAddressObservation obs t))"
  obtain i where i: "map_of ?m (ao_ifname obs) = Some i" "li_ifname i = []"
    using address_stub[OF assms(1)] by blast
  have mem: "(ao_ifname obs, i) \<in> set ?m" by (rule map_of_SomeD[OF i(1)])
  have "\<exists>err. rbind (validateKey (ao_ifname obs)) (\<lambda>_. if ao_ifname obs \<noteq> li_ifname i then Inl InvalidValue
               else rbind (toVariantMap_iface V i) (\<lambda>m. Inr (vo_of_map V m))) = Inl err"
    using i(2) assms(2) by (cases "validateKey (ao_ifname obs)") simp_all
  then have "\<exists>err. put_all (\<lambda>name i. rbind (validateKey name) (\<lambda>_. if name \<noteq> li_ifname i then Inl InvalidValue
               else rbind (toVariantMap_iface V i) (\<lambda>m. Inr (vo_of_map V m)))) ?m [] = Inl err"
    unfolding put_all_Inl using mem by blast
  then show ?thesis unfolding encodeLocalSnapshot_def by simp
qed

theorem address_before_link_blocks_snapshot_witness:
  "\<exists>err. encodeLocalSnapshot dvariant_ops (lt_interfaces (fst (tracker_onAddressObservation
      \<lparr>ao_observedAt = 0, ao_ifname = ''eth0'', ao_event = Present, ao_family = AF_INET, ao_cidr = ''10.0.0.1/24''\<rparr>
      new_tracker))) = Inl err"
  by (rule address_before_link_blocks_snapshot) (simp_all add: new_tracker_def empty_snapshot_def)

end
