(* ===== verification/Netlink_Utils.thy ===== *)
theory Netlink_Utils
  imports Lldp_Identity Observation_Types "HOL-Library.Word"
begin

text \<open>
  \<open>inputs/netlink/public/NetlinkTypes.h\<close> and \<open>inputs/netlink/utils/NetlinkUtils\<close>: the events of the
  monitor, the process-wide interface-name cache (an explicit state here), and the formatting of
  addresses and keys. \<open>if_indextoname\<close> and \<open>inet_ntop\<close> are arguments. \<open>unsigned char\<close> and \<open>unsigned
  short\<close> are words of 8 and 16 bits, \<open>int\<close> values are integers.
\<close>

section \<open>Events\<close>

record link_event =
  le_ifindex :: int
  le_ifname :: string
  le_mac :: string
  le_adminUp :: bool
  le_running :: bool
  le_operState :: "8 word"
  le_masterIfindex :: "int option"
  le_masterIfname :: "string option"
  le_present :: bool

record interface_ip_event =
  ie_ifname :: string
  ie_family :: int
  ie_address :: string
  ie_prefixLen :: "8 word"
  ie_present :: bool

record fdb_event =
  fe_ifname :: string
  fe_mac :: string
  fe_present :: bool
  fe_local :: bool
  fe_permanent :: bool

record neighbor_event =
  ne_ifname :: string
  ne_mac :: string
  ne_family :: int
  ne_ip :: string
  ne_nudState :: "16 word"
  ne_present :: bool

record device_event =
  de_ifname :: string
  de_mac :: string
  de_ipv4Addrs :: "string set"
  de_ipv6Addrs :: "string set"
  de_present :: bool


section \<open>Decimal numbers\<close>

definition digit_char :: "nat \<Rightarrow> char" where
  "digit_char d = char_of (48 + d)"

fun decimal :: "nat \<Rightarrow> string" where
  "decimal n = (if n < 10 then [digit_char n] else decimal (n div 10) @ [digit_char (n mod 10)])"

declare decimal.simps [simp del]

definition to_string_int :: "int \<Rightarrow> string" where
  "to_string_int i = (if i < 0 then ''-'' @ decimal (nat (- i)) else decimal (nat i))"


section \<open>The interface-name cache\<close>

type_synonym ifindex_cache = "(32 word \<times> string) list"

definition cache_resolve ::
  "(32 word \<Rightarrow> string option) \<Rightarrow> 32 word \<Rightarrow> ifindex_cache \<Rightarrow> string \<times> ifindex_cache" where
  "cache_resolve indextoname ifindex cache =
     (case map_of cache ifindex of
        Some name \<Rightarrow> (name, cache)
      | None \<Rightarrow> (case indextoname ifindex of
                   Some ifname \<Rightarrow> (ifname, AList.update ifindex ifname cache)
                 | None \<Rightarrow> (decimal (unat ifindex), cache)))"

definition cache_put :: "32 word \<Rightarrow> string \<Rightarrow> ifindex_cache \<Rightarrow> ifindex_cache" where
  "cache_put ifindex ifname cache = AList.update ifindex ifname cache"

definition cache_remove :: "32 word \<Rightarrow> ifindex_cache \<Rightarrow> ifindex_cache" where
  "cache_remove ifindex cache = AList.delete ifindex cache"

definition ifIndexToName ::
  "(32 word \<Rightarrow> string option) \<Rightarrow> 32 word \<Rightarrow> ifindex_cache \<Rightarrow> string \<times> ifindex_cache" where
  "ifIndexToName indextoname ifindex cache = cache_resolve indextoname ifindex cache"

definition invalidateIfIndex :: "32 word \<Rightarrow> ifindex_cache \<Rightarrow> ifindex_cache" where
  "invalidateIfIndex ifindex cache = cache_remove ifindex cache"

definition updateIfIndexName :: "32 word \<Rightarrow> string \<Rightarrow> ifindex_cache \<Rightarrow> ifindex_cache" where
  "updateIfIndexName ifindex ifname cache = cache_put ifindex ifname cache"


section \<open>Formatting\<close>

definition formatIpAddress :: "(int \<Rightarrow> 8 word list \<Rightarrow> string option) \<Rightarrow> int \<Rightarrow> 8 word list \<Rightarrow> string" where
  "formatIpAddress ntop family data =
     (case ntop family data of Some s \<Rightarrow> s | None \<Rightarrow> ''<invalid>'')"

definition hex_digit :: "nat \<Rightarrow> char" where
  "hex_digit d = char_of (if d < 10 then 48 + d else 87 + d)"

definition hex_byte :: "8 word \<Rightarrow> string" where
  "hex_byte b = [hex_digit (unat b div 16), hex_digit (unat b mod 16)]"

definition formatMacAddress :: "8 word list \<Rightarrow> string" where
  "formatMacAddress data =
     (if length data < 6 then ''<invalid>''
      else hex_byte (data ! 0) @ '':'' @ hex_byte (data ! 1) @ '':'' @ hex_byte (data ! 2) @ '':'' @
           hex_byte (data ! 3) @ '':'' @ hex_byte (data ! 4) @ '':'' @ hex_byte (data ! 5))"

definition isIpv4 :: "int \<Rightarrow> bool" where "isIpv4 family \<longleftrightarrow> family = AF_INET"
definition isIpv6 :: "int \<Rightarrow> bool" where "isIpv6 family \<longleftrightarrow> family = AF_INET6"

definition NUD_NOARP :: "16 word" where "NUD_NOARP = 0x40"
definition NUD_PERMANENT :: "16 word" where "NUD_PERMANENT = 0x80"

definition isFdbLocal :: "16 word \<Rightarrow> bool" where
  "isFdbLocal state \<longleftrightarrow> and state NUD_NOARP \<noteq> 0"

definition isFdbPermanent :: "16 word \<Rightarrow> bool" where
  "isFdbPermanent state \<longleftrightarrow> and state NUD_PERMANENT \<noteq> 0"

definition makeNeighborKey :: "string \<Rightarrow> string \<Rightarrow> int \<Rightarrow> string \<Rightarrow> string" where
  "makeNeighborKey ifname mac family ip =
     ifname @ ''|'' @ mac @ ''|'' @ to_string_int family @ ''|'' @ ip"


section \<open>Facts\<close>

text \<open>A formatted MAC is a MAC in the normal form that LLDP identities use.\<close>

lemma of_hex_digit: "d < 16 \<Longrightarrow> (of_char (hex_digit d) :: nat) = (if d < 10 then 48 + d else 87 + d)"
  by (simp add: hex_digit_def)

lemma hex_digit_props:
  assumes "d < 16"
  shows "is_xdigit (hex_digit d)" "to_lower (hex_digit d) = hex_digit d" "hex_digit d \<noteq> CHR '':''"
proof -
  show "is_xdigit (hex_digit d)" "to_lower (hex_digit d) = hex_digit d"
    using assms by (auto simp: is_xdigit_def to_lower_def of_hex_digit Let_def)
  have "(of_char (CHR '':'') :: nat) = 58" by simp
  then show "hex_digit d \<noteq> CHR '':''" using of_hex_digit[OF assms] assms by (auto split: if_splits)
qed

lemma hex_digit_inj: "d < 16 \<Longrightarrow> e < 16 \<Longrightarrow> hex_digit d = hex_digit e \<Longrightarrow> d = e"
  by (drule arg_cong[where f = "of_char :: char \<Rightarrow> nat"]) (simp add: of_hex_digit split: if_splits)

lemma unat_byte: "unat (b :: 8 word) div 16 < 16" "unat b mod 16 < 16"
proof -
  have "unat b < 2 ^ 8" using unsigned_less[of b] by simp
  then show "unat b div 16 < 16" "unat b mod 16 < 16" by simp_all
qed

lemma hex_byte_inj: "hex_byte a = hex_byte b \<Longrightarrow> a = b"
proof -
  assume "hex_byte a = hex_byte b"
  then have "unat a div 16 = unat b div 16" "unat a mod 16 = unat b mod 16"
    using hex_digit_inj unat_byte by (auto simp: hex_byte_def)
  then have "unat a = unat b" by (metis div_mult_mod_eq)
  then show ?thesis by (simp add: word_unat_eq_iff)
qed

lemma formatMacAddress_macLike:
  assumes "6 \<le> length data"
  shows "isMacLike (formatMacAddress data)" "normalizeMac (formatMacAddress data) = formatMacAddress data"
proof -
  have h: "is_xdigit (hex_digit (unat b div 16))" "is_xdigit (hex_digit (unat b mod 16))"
    "to_lower (hex_digit (unat b div 16)) = hex_digit (unat b div 16)"
    "to_lower (hex_digit (unat b mod 16)) = hex_digit (unat b mod 16)" for b :: "8 word"
    using hex_digit_props unat_byte by blast+
  show "isMacLike (formatMacAddress data)"
    using assms by (simp add: formatMacAddress_def hex_byte_def isMacLike_def upt_rec h)
  show "normalizeMac (formatMacAddress data) = formatMacAddress data"
    using assms by (simp add: formatMacAddress_def hex_byte_def normalizeMac_def h)
qed

lemma hex_byte_append: "hex_byte a @ xs = hex_byte b @ ys \<longleftrightarrow> a = b \<and> xs = ys"
  using hex_byte_inj by (auto simp: hex_byte_def)

lemma formatMacAddress_inj:
  assumes "length a = 6" "length b = 6" "formatMacAddress a = formatMacAddress b"
  shows "a = b"
proof (rule nth_equalityI)
  have eq: "a ! 0 = b ! 0" "a ! 1 = b ! 1" "a ! 2 = b ! 2" "a ! 3 = b ! 3" "a ! 4 = b ! 4" "a ! 5 = b ! 5"
    using assms hex_byte_append[of "a ! 5" "[]" "b ! 5" "[]"]
    by (simp_all add: formatMacAddress_def hex_byte_append)
  fix i assume "i < length a"
  then have "i = 0 \<or> i = 1 \<or> i = 2 \<or> i = 3 \<or> i = 4 \<or> i = 5" using assms(1) by linarith
  then show "a ! i = b ! i" using eq by blast
qed (simp add: assms)

text \<open>Neighbour keys are unambiguous when neither name contains the separator.\<close>

lemma digit_char_bar: "d < 10 \<Longrightarrow> digit_char d \<noteq> CHR ''|''"
proof -
  assume "d < 10"
  then have "(of_char (digit_char d) :: nat) = 48 + d" by (simp add: digit_char_def)
  moreover have "(of_char (CHR ''|'') :: nat) = 124" by simp
  ultimately show ?thesis using \<open>d < 10\<close> by auto
qed

lemma decimal_bar: "CHR ''|'' \<notin> set (decimal n)"
proof (induction n rule: decimal.induct)
  case (1 n)
  show ?case
  proof (cases "n < 10")
    case True
    then show ?thesis using digit_char_bar[of n] by (simp add: decimal.simps[of n])
  next
    case False
    then show ?thesis using 1[OF False] digit_char_bar[of "n mod 10"] by (simp add: decimal.simps[of n])
  qed
qed

lemma digit_char_inj: "d < 10 \<Longrightarrow> e < 10 \<Longrightarrow> digit_char d = digit_char e \<Longrightarrow> d = e"
  by (drule arg_cong[where f = "of_char :: char \<Rightarrow> nat"]) (simp add: digit_char_def)

lemma decimal_nonempty: "decimal k \<noteq> []"
  by (subst decimal.simps) simp

lemma decimal_inj: "decimal m = decimal n \<Longrightarrow> m = n"
proof (induction m arbitrary: n rule: decimal.induct)
  case (1 m)
  have eq: "(if m < 10 then [digit_char m] else decimal (m div 10) @ [digit_char (m mod 10)])
      = (if n < 10 then [digit_char n] else decimal (n div 10) @ [digit_char (n mod 10)])"
    using "1.prems" by (simp only: decimal.simps[of m] decimal.simps[of n])
  show ?case
  proof (cases "m < 10")
    case True
    then have "n < 10" using eq decimal_nonempty[of "n div 10"] by (cases "n < 10") simp_all
    then show ?thesis using eq True digit_char_inj by simp
  next
    case False
    then have n: "\<not> n < 10" using eq decimal_nonempty[of "m div 10"] by (cases "n < 10") simp_all
    then have "m div 10 = n div 10" "m mod 10 = n mod 10"
      using eq False "1.IH"[OF False] digit_char_inj[of "m mod 10" "n mod 10"] by auto
    then show ?thesis by (metis div_mult_mod_eq)
  qed
qed

lemma split_at_bar:
  assumes "CHR ''|'' \<notin> set a" "CHR ''|'' \<notin> set b" "a @ CHR ''|'' # xs = b @ CHR ''|'' # ys"
  shows "a = b \<and> xs = ys"
proof -
  have "takeWhile (\<lambda>c. c \<noteq> CHR ''|'') (a @ CHR ''|'' # xs) = a"
    "takeWhile (\<lambda>c. c \<noteq> CHR ''|'') (b @ CHR ''|'' # ys) = b"
    using assms(1,2) by (auto simp: takeWhile_append)
  then show ?thesis using assms(3) by simp
qed

lemma to_string_int_bar: "0 \<le> f \<Longrightarrow> CHR ''|'' \<notin> set (to_string_int f)"
  using decimal_bar by (simp add: to_string_int_def)

lemma to_string_int_inj: "0 \<le> f \<Longrightarrow> 0 \<le> g \<Longrightarrow> to_string_int f = to_string_int g \<Longrightarrow> f = g"
  using decimal_inj[of "nat f" "nat g"] by (simp add: to_string_int_def eq_nat_nat_iff)

lemma makeNeighborKey_inj:
  assumes no_bar: "CHR ''|'' \<notin> set i1 \<union> set m1 \<union> set i2 \<union> set m2" and fam: "0 \<le> f1" "0 \<le> f2"
    and eq: "makeNeighborKey i1 m1 f1 p1 = makeNeighborKey i2 m2 f2 p2"
  shows "i1 = i2 \<and> m1 = m2 \<and> f1 = f2 \<and> p1 = p2"
proof -
  have b: "CHR ''|'' \<notin> set i1" "CHR ''|'' \<notin> set i2" "CHR ''|'' \<notin> set m1" "CHR ''|'' \<notin> set m2"
    using no_bar by blast+
  have "i1 @ CHR ''|'' # m1 @ CHR ''|'' # to_string_int f1 @ CHR ''|'' # p1
      = i2 @ CHR ''|'' # m2 @ CHR ''|'' # to_string_int f2 @ CHR ''|'' # p2"
    using eq unfolding makeNeighborKey_def append_Cons append_Nil .
  note 1 = split_at_bar[OF b(1,2) this]
  note 2 = split_at_bar[OF b(3,4) conjunct2[OF 1]]
  note 3 = split_at_bar[OF to_string_int_bar[OF fam(1)] to_string_int_bar[OF fam(2)] conjunct2[OF 2]]
  show ?thesis using 1 2 3 to_string_int_inj[OF fam] by blast
qed

end
