(* ===== verification/Netlink_State.thy ===== *)
theory Netlink_State
  imports Netlink_Utils
begin

text \<open>
  \<open>inputs/netlink/state/NetlinkState\<close>: the deduplicating state of the monitor. Each update returns the
  new state and the event to forward, if any; the updates that feed the merged per-MAC view also
  return the device event handed to \<open>onDevice\<close>.
\<close>

record interface_address_key =
  ak_ifname :: string
  ak_family :: int
  ak_address :: string
  ak_prefixLen :: "8 word"

record mac_aggregate =
  ma_fdb :: "fdb_event option"
  ma_ipv4Addrs :: "string set"
  ma_ipv6Addrs :: "string set"

definition empty_aggregate :: mac_aggregate where
  "empty_aggregate = \<lparr>ma_fdb = None, ma_ipv4Addrs = {}, ma_ipv6Addrs = {}\<rparr>"

record netlink_state =
  ns_linkStates :: "link_event umap"
  ns_interfaceAddresses :: "(interface_address_key \<times> bool) list"
  ns_fdbStatesByMac :: "fdb_event umap"
  ns_neighborStatesByKey :: "neighbor_event umap"
  ns_macAggregates :: "mac_aggregate umap"
  ns_deviceStatesByMac :: "device_event umap"

definition new_netlink_state :: netlink_state where
  "new_netlink_state = \<lparr>ns_linkStates = [], ns_interfaceAddresses = [], ns_fdbStatesByMac = [],
     ns_neighborStatesByKey = [], ns_macAggregates = [], ns_deviceStatesByMac = []\<rparr>"


section \<open>Updates\<close>

definition updateLink :: "link_event \<Rightarrow> netlink_state \<Rightarrow> netlink_state \<times> link_event option" where
  "updateLink event s =
     (if \<not> le_present event then
        (let hadLink = (map_of (ns_linkStates s) (le_ifname event) \<noteq> None);
             kept = filter (\<lambda>kv. ak_ifname (fst kv) \<noteq> le_ifname event) (ns_interfaceAddresses s);
             removed = length (ns_interfaceAddresses s) - length kept
         in (s\<lparr>ns_linkStates := AList.delete (le_ifname event) (ns_linkStates s),
               ns_interfaceAddresses := kept\<rparr>,
             if hadLink \<or> removed > 0 then Some event else None))
      else
        (let changed = (case map_of (ns_linkStates s) (le_ifname event) of
                          None \<Rightarrow> True | Some old \<Rightarrow> old \<noteq> event)
         in (s\<lparr>ns_linkStates := AList.update (le_ifname event) event (ns_linkStates s)\<rparr>,
             if changed then Some event else None)))"

definition address_key :: "interface_ip_event \<Rightarrow> interface_address_key" where
  "address_key event = \<lparr>ak_ifname = ie_ifname event, ak_family = ie_family event,
     ak_address = ie_address event, ak_prefixLen = ie_prefixLen event\<rparr>"

definition updateAddress ::
  "interface_ip_event \<Rightarrow> netlink_state \<Rightarrow> netlink_state \<times> interface_ip_event option" where
  "updateAddress event s =
     (let key = address_key event;
          known = (map_of (ns_interfaceAddresses s) key \<noteq> None)
      in if \<not> ie_present event then
           (if known then
              (s\<lparr>ns_interfaceAddresses := AList.delete key (ns_interfaceAddresses s)\<rparr>, Some event)
            else (s, None))
         else
           (if known then (s, None)
            else (s\<lparr>ns_interfaceAddresses := AList.update key True (ns_interfaceAddresses s)\<rparr>, Some event)))"

definition removed_device :: "device_event \<Rightarrow> device_event" where
  "removed_device d = \<lparr>de_ifname = de_ifname d, de_mac = de_mac d, de_ipv4Addrs = {}, de_ipv6Addrs = {},
     de_present = False\<rparr>"

definition drop_device :: "string \<Rightarrow> netlink_state \<Rightarrow> netlink_state \<times> device_event option" where
  "drop_device mac s =
     (case map_of (ns_deviceStatesByMac s) mac of
        Some d \<Rightarrow> (s\<lparr>ns_deviceStatesByMac := AList.delete mac (ns_deviceStatesByMac s)\<rparr>,
                   Some (removed_device d))
      | None \<Rightarrow> (s, None))"

definition merge_device :: "string \<Rightarrow> mac_aggregate \<Rightarrow> device_event" where
  "merge_device mac agg =
     \<lparr>de_ifname = (case ma_fdb agg of Some f \<Rightarrow> fe_ifname f | None \<Rightarrow> []),
      de_mac = mac,
      de_ipv4Addrs = ma_ipv4Addrs agg,
      de_ipv6Addrs = ma_ipv6Addrs agg,
      de_present = (case ma_fdb agg of Some f \<Rightarrow> fe_present f | None \<Rightarrow> False)\<rparr>"

definition hasAnyInfo :: "device_event \<Rightarrow> bool" where
  "hasAnyInfo d \<longleftrightarrow>
     de_present d \<or> de_ipv4Addrs d \<noteq> {} \<or> de_ipv6Addrs d \<noteq> {} \<or> de_ifname d \<noteq> []"

definition refreshMergedDeviceLocked :: "string \<Rightarrow> netlink_state \<Rightarrow> netlink_state \<times> device_event option" where
  "refreshMergedDeviceLocked mac s =
     (case map_of (ns_macAggregates s) mac of
        None \<Rightarrow> drop_device mac s
      | Some agg \<Rightarrow>
          (let merged = merge_device mac agg
           in if \<not> hasAnyInfo merged then
                drop_device mac (s\<lparr>ns_macAggregates := AList.delete mac (ns_macAggregates s)\<rparr>)
              else
                (let changed = (case map_of (ns_deviceStatesByMac s) mac of
                                  None \<Rightarrow> True | Some old \<Rightarrow> old \<noteq> merged)
                 in (s\<lparr>ns_deviceStatesByMac := AList.update mac merged (ns_deviceStatesByMac s)\<rparr>,
                     if changed then Some merged else None))))"

definition aggregate_of :: "string \<Rightarrow> netlink_state \<Rightarrow> mac_aggregate" where
  "aggregate_of mac s = (case map_of (ns_macAggregates s) mac of Some a \<Rightarrow> a | None \<Rightarrow> empty_aggregate)"

definition updateFdb ::
  "fdb_event \<Rightarrow> netlink_state \<Rightarrow> netlink_state \<times> fdb_event option \<times> device_event option" where
  "updateFdb event s =
     (let mac = fe_mac event;
          changed = (case map_of (ns_fdbStatesByMac s) mac of None \<Rightarrow> True | Some old \<Rightarrow> old \<noteq> event);
          agg = aggregate_of mac s;
          s1 = (if \<not> fe_present event then
                  s\<lparr>ns_fdbStatesByMac := AList.delete mac (ns_fdbStatesByMac s),
                    ns_macAggregates := AList.update mac (agg\<lparr>ma_fdb := None\<rparr>) (ns_macAggregates s)\<rparr>
                else
                  s\<lparr>ns_fdbStatesByMac := AList.update mac event (ns_fdbStatesByMac s),
                    ns_macAggregates := AList.update mac (agg\<lparr>ma_fdb := Some event\<rparr>) (ns_macAggregates s)\<rparr>);
          (s2, device) = refreshMergedDeviceLocked mac s1
      in (s2, if changed then Some event else None, device))"

definition neighbor_key :: "neighbor_event \<Rightarrow> string" where
  "neighbor_key event = makeNeighborKey (ne_ifname event) (ne_mac event) (ne_family event) (ne_ip event)"

definition aggregate_neighbor :: "neighbor_event \<Rightarrow> mac_aggregate \<Rightarrow> mac_aggregate" where
  "aggregate_neighbor event agg =
     (if \<not> ne_present event then
        (if isIpv4 (ne_family event) then agg\<lparr>ma_ipv4Addrs := ma_ipv4Addrs agg - {ne_ip event}\<rparr>
         else if isIpv6 (ne_family event) then agg\<lparr>ma_ipv6Addrs := ma_ipv6Addrs agg - {ne_ip event}\<rparr>
         else agg)
      else
        (if isIpv4 (ne_family event) then agg\<lparr>ma_ipv4Addrs := insert (ne_ip event) (ma_ipv4Addrs agg)\<rparr>
         else if isIpv6 (ne_family event) then agg\<lparr>ma_ipv6Addrs := insert (ne_ip event) (ma_ipv6Addrs agg)\<rparr>
         else agg))"

definition updateNeighbor ::
  "neighbor_event \<Rightarrow> netlink_state \<Rightarrow> netlink_state \<times> neighbor_event option \<times> device_event option" where
  "updateNeighbor event s =
     (let key = neighbor_key event;
          mac = ne_mac event;
          old = map_of (ns_neighborStatesByKey s) key;
          s0 = s\<lparr>ns_macAggregates :=
                  AList.update mac (aggregate_neighbor event (aggregate_of mac s)) (ns_macAggregates s)\<rparr>;
          (s1, changed) =
            (if \<not> ne_present event then
               (if old \<noteq> None
                then (s0\<lparr>ns_neighborStatesByKey := AList.delete key (ns_neighborStatesByKey s0)\<rparr>, True)
                else (s0, False))
             else (s0\<lparr>ns_neighborStatesByKey := AList.update key event (ns_neighborStatesByKey s0)\<rparr>,
                   old \<noteq> Some event));
          (s2, device) = refreshMergedDeviceLocked mac s1
      in (s2, if changed then Some event else None, device))"

definition getDevicesSnapshot :: "netlink_state \<Rightarrow> device_event list" where
  "getDevicesSnapshot s =
     sort_key (\<lambda>d. de_ifname d) (sort_key (\<lambda>d. de_mac d) (map snd (ns_deviceStatesByMac s)))"

definition getLinksSnapshot :: "netlink_state \<Rightarrow> link_event list" where
  "getLinksSnapshot s = sort_key le_ifname (map snd (ns_linkStates s))"

definition netlink_clear :: "netlink_state \<Rightarrow> netlink_state" where
  "netlink_clear s = s\<lparr>ns_linkStates := [], ns_interfaceAddresses := [], ns_fdbStatesByMac := [],
     ns_neighborStatesByKey := [], ns_macAggregates := [], ns_deviceStatesByMac := []\<rparr>"


section \<open>The contract of a deduplicating table\<close>

text \<open>
  \<open>view\<close> is what the table knows under a key, \<open>meant\<close> what an event says of it. An update stores what
  the event says, forwards an event that changes the view, and a forwarded event is the one given.
\<close>

fun forwarded :: "('ev \<Rightarrow> 's \<Rightarrow> 's \<times> 'ev option) \<Rightarrow> 'ev list \<Rightarrow> 's \<Rightarrow> 'ev list" where
  "forwarded upd [] s = []"
| "forwarded upd (ev # evs) s =
     (case upd ev s of (s', out) \<Rightarrow> (case out of Some e \<Rightarrow> [e] | None \<Rightarrow> []) @ forwarded upd evs s')"

locale dedup_table =
  fixes view :: "'s \<Rightarrow> 'k \<Rightarrow> 'x option"
    and meant :: "'ev \<Rightarrow> 'x option"
    and key :: "'ev \<Rightarrow> 'k"
    and upd :: "'ev \<Rightarrow> 's \<Rightarrow> 's \<times> 'ev option"
  assumes stores: "view (fst (upd ev s)) (key ev) = meant ev"
    and others: "k \<noteq> key ev \<Longrightarrow> view (fst (upd ev s)) k = view s k"
    and forwards: "view s (key ev) \<noteq> meant ev \<Longrightarrow> snd (upd ev s) = Some ev"
    and same_event: "snd (upd ev s) = Some ev' \<Longrightarrow> ev' = ev"
begin

text \<open>No change of the view is lost: the forwarded events rebuild it.\<close>

lemma no_change_lost:
  "fold (\<lambda>ev m. m(key ev := meant ev)) (forwarded upd evs s) (view s)
     = view (fold (\<lambda>ev s. fst (upd ev s)) evs s)"
proof (induction evs arbitrary: s)
  case (Cons ev evs)
  obtain s' out where u: "upd ev s = (s', out)" by fastforce
  have v: "view s' = (view s)(key ev := meant ev)"
    using stores[of ev s] others[of _ ev s] u by (auto simp: fun_eq_iff)
  show ?case
  proof (cases out)
    case None
    then have "view s (key ev) = meant ev" using forwards[of s ev] u by auto
    then have "view s' = view s" using v by auto
    then show ?thesis using Cons.IH[of s'] u None by simp
  next
    case (Some e)
    then have "e = ev" using same_event[of ev s e] u by simp
    then show ?thesis using Cons.IH[of s'] u Some v by simp
  qed
qed simp

end

text \<open>A table that also never forwards what it knows.\<close>

locale silent_dedup_table = dedup_table +
  assumes silent: "view s (key ev) = meant ev \<Longrightarrow> snd (upd ev s) = None"
begin

lemma forwards_iff: "snd (upd ev s) = (if view s (key ev) = meant ev then None else Some ev)"
  using silent forwards by simp

lemma repeat_silent: "snd (upd ev (fst (upd ev s))) = None"
  using silent stores by blast

end

definition link_meant :: "link_event \<Rightarrow> link_event option" where
  "link_meant ev = (if le_present ev then Some ev else None)"

definition address_meant :: "interface_ip_event \<Rightarrow> unit option" where
  "address_meant ev = (if ie_present ev then Some () else None)"

definition fdb_meant :: "fdb_event \<Rightarrow> fdb_event option" where
  "fdb_meant ev = (if fe_present ev then Some ev else None)"

definition neighbor_meant :: "neighbor_event \<Rightarrow> neighbor_event option" where
  "neighbor_meant ev = (if ne_present ev then Some ev else None)"

definition address_view :: "netlink_state \<Rightarrow> interface_address_key \<Rightarrow> unit option" where
  "address_view s k = map_option (\<lambda>_. ()) (map_of (ns_interfaceAddresses s) k)"

definition fdb_view :: "netlink_state \<Rightarrow> string \<Rightarrow> fdb_event option" where
  "fdb_view s mac =
     (case map_of (ns_fdbStatesByMac s) mac of
        Some f \<Rightarrow> if fe_present f then Some f else None
      | None \<Rightarrow> None)"

definition step_fdb :: "fdb_event \<Rightarrow> netlink_state \<Rightarrow> netlink_state \<times> fdb_event option" where
  "step_fdb ev s = (let (s', out, device) = updateFdb ev s in (s', out))"

definition step_neighbor :: "neighbor_event \<Rightarrow> netlink_state \<Rightarrow> netlink_state \<times> neighbor_event option" where
  "step_neighbor ev s = (let (s', out, device) = updateNeighbor ev s in (s', out))"

lemma refresh_frame [frame_simps]:
  "ns_linkStates (fst (refreshMergedDeviceLocked mac s)) = ns_linkStates s"
  "ns_interfaceAddresses (fst (refreshMergedDeviceLocked mac s)) = ns_interfaceAddresses s"
  "ns_fdbStatesByMac (fst (refreshMergedDeviceLocked mac s)) = ns_fdbStatesByMac s"
  "ns_neighborStatesByKey (fst (refreshMergedDeviceLocked mac s)) = ns_neighborStatesByKey s"
  by (auto simp: refreshMergedDeviceLocked_def drop_device_def Let_def split: option.split)

interpretation link_table: dedup_table "\<lambda>s. map_of (ns_linkStates s)" link_meant le_ifname updateLink
  by unfold_locales
     (auto simp: updateLink_def link_meant_def Let_def split: option.splits if_splits)

interpretation address_table: silent_dedup_table address_view address_meant address_key updateAddress
  by unfold_locales
     (auto simp: updateAddress_def address_meant_def address_view_def Let_def split: option.splits if_splits)

interpretation fdb_table: dedup_table fdb_view fdb_meant fe_mac step_fdb
  by unfold_locales
     (auto simp: step_fdb_def updateFdb_def fdb_meant_def fdb_view_def Let_def case_prod_beta frame_simps
       split: option.splits if_splits)

interpretation neighbor_table: silent_dedup_table "\<lambda>s. map_of (ns_neighborStatesByKey s)" neighbor_meant
  neighbor_key step_neighbor
  by unfold_locales
     (auto simp: step_neighbor_def updateNeighbor_def neighbor_meant_def Let_def case_prod_beta frame_simps
       split: option.splits if_splits)


section \<open>The merged device view\<close>

definition devices_ok :: "netlink_state \<Rightarrow> bool" where
  "devices_ok s \<longleftrightarrow>
     (\<forall>mac. map_of (ns_deviceStatesByMac s) mac = map_option (merge_device mac) (map_of (ns_macAggregates s) mac)) \<and>
     (\<forall>mac a. map_of (ns_macAggregates s) mac = Some a \<longrightarrow>
        hasAnyInfo (merge_device mac a) \<and> ma_fdb a = map_of (ns_fdbStatesByMac s) mac \<and>
        (\<forall>f. ma_fdb a = Some f \<longrightarrow> fe_present f)) \<and>
     (\<forall>mac f. map_of (ns_fdbStatesByMac s) mac = Some f \<longrightarrow> map_of (ns_macAggregates s) mac \<noteq> None)"

text \<open>Refreshing a MAC whose aggregate alone may have changed restores the view and reports the change.\<close>

lemma refresh_map:
  assumes "map_of (ns_macAggregates s) mac = Some a"
  shows "map_of (ns_macAggregates (fst (refreshMergedDeviceLocked mac s))) m =
           (if m = mac \<and> \<not> hasAnyInfo (merge_device mac a) then None else map_of (ns_macAggregates s) m)"
    "map_of (ns_deviceStatesByMac (fst (refreshMergedDeviceLocked mac s))) m =
           (if m = mac then (if hasAnyInfo (merge_device mac a) then Some (merge_device mac a) else None)
            else map_of (ns_deviceStatesByMac s) m)"
    "(snd (refreshMergedDeviceLocked mac s) = None) \<longleftrightarrow>
       map_of (ns_deviceStatesByMac (fst (refreshMergedDeviceLocked mac s))) mac = map_of (ns_deviceStatesByMac s) mac"
  using assms by (auto simp: refreshMergedDeviceLocked_def drop_device_def Let_def split: option.splits)

lemma refresh_devices_ok:
  assumes agg: "map_of (ns_macAggregates s) mac = Some a"
    and fdb: "ma_fdb a = map_of (ns_fdbStatesByMac s) mac" "\<And>f. ma_fdb a = Some f \<Longrightarrow> fe_present f"
    and rest: "\<And>m. m \<noteq> mac \<Longrightarrow> map_of (ns_deviceStatesByMac s) m
                 = map_option (merge_device m) (map_of (ns_macAggregates s) m)"
      "\<And>m b. m \<noteq> mac \<Longrightarrow> map_of (ns_macAggregates s) m = Some b \<Longrightarrow>
         hasAnyInfo (merge_device m b) \<and> ma_fdb b = map_of (ns_fdbStatesByMac s) m \<and>
         (\<forall>f. ma_fdb b = Some f \<longrightarrow> fe_present f)"
      "\<And>m f. m \<noteq> mac \<Longrightarrow> map_of (ns_fdbStatesByMac s) m = Some f \<Longrightarrow> map_of (ns_macAggregates s) m \<noteq> None"
  shows "devices_ok (fst (refreshMergedDeviceLocked mac s))"
proof -
  have info: "map_of (ns_fdbStatesByMac s) mac = Some f \<Longrightarrow> hasAnyInfo (merge_device mac a)" for f
    using fdb by (auto simp: hasAnyInfo_def merge_device_def)
  show ?thesis
    unfolding devices_ok_def refresh_map[OF agg] frame_simps
  proof (intro conjI allI impI)
    show "(if m = mac then (if hasAnyInfo (merge_device mac a) then Some (merge_device mac a) else None)
           else map_of (ns_deviceStatesByMac s) m) =
          map_option (merge_device m)
            (if m = mac \<and> \<not> hasAnyInfo (merge_device mac a) then None else map_of (ns_macAggregates s) m)" for m
      using agg rest(1)[of m] by simp
  next
    fix m b
    assume b: "(if m = mac \<and> \<not> hasAnyInfo (merge_device mac a) then None else map_of (ns_macAggregates s) m) = Some b"
    have all: "hasAnyInfo (merge_device m b) \<and> ma_fdb b = map_of (ns_fdbStatesByMac s) m \<and>
         (\<forall>f. ma_fdb b = Some f \<longrightarrow> fe_present f)"
      using b agg fdb rest(2)[of m b] by (cases "m = mac") (auto split: if_splits)
    then show "hasAnyInfo (merge_device m b)" "ma_fdb b = map_of (ns_fdbStatesByMac s) m" by simp_all
    show "fe_present f" if "ma_fdb b = Some f" for f using all that by simp
  next
    show "(if m = mac \<and> \<not> hasAnyInfo (merge_device mac a) then None else map_of (ns_macAggregates s) m) \<noteq> None"
      if "map_of (ns_fdbStatesByMac s) m = Some f" for m f
      using agg that info[of f] rest(3)[of m f] by (cases "m = mac") auto
  qed
qed

lemma aggregate_of_fdb: "devices_ok s \<Longrightarrow> ma_fdb (aggregate_of mac s) = map_of (ns_fdbStatesByMac s) mac"
  by (cases "map_of (ns_macAggregates s) mac"; cases "map_of (ns_fdbStatesByMac s) mac")
     (auto simp: devices_ok_def aggregate_of_def empty_aggregate_def)

lemma stored_fdb_present:
  "devices_ok s \<Longrightarrow> map_of (ns_fdbStatesByMac s) mac = Some f \<Longrightarrow> fe_present f"
  unfolding devices_ok_def by (metis not_Some_eq)

lemma aggregate_neighbor_fdb [simp]: "ma_fdb (aggregate_neighbor ev a) = ma_fdb a"
  by (simp add: aggregate_neighbor_def)

lemma updateFdb_devices_ok:
  assumes ok: "devices_ok s" shows "devices_ok (fst (updateFdb ev s))"
proof -
  let ?f = "if fe_present ev then Some ev else None"
  let ?a = "aggregate_of (fe_mac ev) s\<lparr>ma_fdb := ?f\<rparr>"
  have "devices_ok (fst (refreshMergedDeviceLocked (fe_mac ev) t))"
    if t: "ns_macAggregates t = AList.update (fe_mac ev) ?a (ns_macAggregates s)"
      "map_of (ns_fdbStatesByMac t) = (map_of (ns_fdbStatesByMac s))(fe_mac ev := ?f)"
      "ns_deviceStatesByMac t = ns_deviceStatesByMac s" for t
    by (rule refresh_devices_ok[where a = ?a])
       (use ok in \<open>auto simp: t devices_ok_def split: if_splits\<close>)
  then show ?thesis by (cases "fe_present ev") (simp_all add: updateFdb_def Let_def case_prod_beta fun_eq_iff)
qed

lemma updateNeighbor_devices_ok:
  assumes ok: "devices_ok s" shows "devices_ok (fst (updateNeighbor ev s))"
proof -
  let ?a = "aggregate_neighbor ev (aggregate_of (ne_mac ev) s)"
  have "devices_ok (fst (refreshMergedDeviceLocked (ne_mac ev) t))"
    if t: "ns_macAggregates t = AList.update (ne_mac ev) ?a (ns_macAggregates s)"
      "ns_fdbStatesByMac t = ns_fdbStatesByMac s" "ns_deviceStatesByMac t = ns_deviceStatesByMac s" for t
    by (rule refresh_devices_ok[where a = ?a])
       (use ok aggregate_of_fdb[OF ok] stored_fdb_present[OF ok] in \<open>auto simp: t devices_ok_def\<close>)
  then show ?thesis by (auto simp: updateNeighbor_def Let_def case_prod_beta)
qed

lemma clear_new: "netlink_clear s = new_netlink_state"
  by (simp add: netlink_clear_def new_netlink_state_def)

lemma new_devices_ok: "devices_ok new_netlink_state"
  by (simp add: devices_ok_def new_netlink_state_def)

end
