(* ===== verification/Netlink_Parser.thy ===== *)
theory Netlink_Parser
  imports Netlink_Utils
begin

text \<open>
  \<open>inputs/netlink/parser/NetlinkParser.cpp\<close>: a netlink message in memory to typed events.

  A message is the list of bytes from its \<open>nlmsghdr\<close> to the end of the memory that the caller received;
  every read of the source is a read at an offset of that list, and a read past its end is the error
  \<open>OutOfBounds\<close>. Integers are read in little-endian order, the byte order of the targets the program
  is built for. The structures are those of the kernel headers: \<open>nlmsghdr\<close> has 16 bytes, \<open>ifinfomsg\<close> 16,
  \<open>ifaddrmsg\<close> 8, \<open>ndmsg\<close> 12, \<open>nlmsgerr\<close> 20 and \<open>rtattr\<close> 4. A handler returns the events it hands to its
  callback and the interface-name cache it leaves.
\<close>

section \<open>Memory\<close>

type_synonym bytes = "8 word list"

datatype read_fault = OutOfBounds

fun le_nat :: "bytes \<Rightarrow> nat" where
  "le_nat [] = 0"
| "le_nat (b # bs) = unat b + 256 * le_nat bs"

definition read_bytes :: "bytes \<Rightarrow> nat \<Rightarrow> nat \<Rightarrow> read_fault + bytes" where
  "read_bytes mem off n = (if off + n \<le> length mem then Inr (take n (drop off mem)) else Inl OutOfBounds)"

definition read_u8 :: "bytes \<Rightarrow> nat \<Rightarrow> read_fault + 8 word" where
  "read_u8 mem off = rbind (read_bytes mem off 1) (\<lambda>bs. Inr (word_of_nat (le_nat bs)))"

definition read_u16 :: "bytes \<Rightarrow> nat \<Rightarrow> read_fault + 16 word" where
  "read_u16 mem off = rbind (read_bytes mem off 2) (\<lambda>bs. Inr (word_of_nat (le_nat bs)))"

definition read_u32 :: "bytes \<Rightarrow> nat \<Rightarrow> read_fault + 32 word" where
  "read_u32 mem off = rbind (read_bytes mem off 4) (\<lambda>bs. Inr (word_of_nat (le_nat bs)))"


section \<open>Headers and attributes\<close>

definition NLMSG_ERROR :: "16 word" where "NLMSG_ERROR = 2"
definition RTM_NEWLINK :: "16 word" where "RTM_NEWLINK = 16"
definition RTM_DELLINK :: "16 word" where "RTM_DELLINK = 17"
definition RTM_NEWADDR :: "16 word" where "RTM_NEWADDR = 20"
definition RTM_DELADDR :: "16 word" where "RTM_DELADDR = 21"
definition RTM_NEWNEIGH :: "16 word" where "RTM_NEWNEIGH = 28"
definition RTM_DELNEIGH :: "16 word" where "RTM_DELNEIGH = 29"

definition IFLA_ADDRESS :: "16 word" where "IFLA_ADDRESS = 1"
definition IFLA_IFNAME :: "16 word" where "IFLA_IFNAME = 3"
definition IFLA_MASTER :: "16 word" where "IFLA_MASTER = 10"
definition IFLA_OPERSTATE :: "16 word" where "IFLA_OPERSTATE = 16"
definition IFA_ADDRESS :: "16 word" where "IFA_ADDRESS = 1"
definition IFA_LOCAL :: "16 word" where "IFA_LOCAL = 2"
definition NDA_DST :: "16 word" where "NDA_DST = 1"
definition NDA_LLADDR :: "16 word" where "NDA_LLADDR = 2"

definition IFF_UP :: "32 word" where "IFF_UP = 0x1"
definition IFF_RUNNING :: "32 word" where "IFF_RUNNING = 0x40"

lemmas netlink_types = NLMSG_ERROR_def RTM_NEWLINK_def RTM_DELLINK_def RTM_NEWADDR_def RTM_DELADDR_def
  RTM_NEWNEIGH_def RTM_DELNEIGH_def

lemmas attribute_types = IFLA_ADDRESS_def IFLA_IFNAME_def IFLA_MASTER_def IFLA_OPERSTATE_def
  IFA_ADDRESS_def IFA_LOCAL_def NDA_DST_def NDA_LLADDR_def

definition nlmsg_len :: "bytes \<Rightarrow> read_fault + 32 word" where "nlmsg_len mem = read_u32 mem 0"
definition nlmsg_type :: "bytes \<Rightarrow> read_fault + 16 word" where "nlmsg_type mem = read_u16 mem 4"

definition NLMSG_HDRLEN :: nat where "NLMSG_HDRLEN = 16"

definition align4 :: "nat \<Rightarrow> nat" where "align4 n = (n + 3) div 4 * 4"

definition getPayloadAndAttrLen :: "nat \<Rightarrow> bytes \<Rightarrow> read_fault + int option" where
  "getPayloadAndAttrLen msgSize mem =
     rbind (nlmsg_len mem) (\<lambda>len.
       let headerLen = int (NLMSG_HDRLEN + msgSize);
           messageLen = sint len
       in Inr (if messageLen < headerLen then None else Some (messageLen - headerLen)))"

definition attrBegin :: "nat \<Rightarrow> nat" where
  "attrBegin msgSize = NLMSG_HDRLEN + align4 msgSize"

text \<open>The loop \<open>for (attr = attrBegin(msg); RTA_OK(attr, attrLen); attr = RTA_NEXT(attr, attrLen))\<close>.\<close>

function attr_loop ::
  "(16 word \<Rightarrow> bytes \<Rightarrow> 'a \<Rightarrow> 'a) \<Rightarrow> bytes \<Rightarrow> nat \<Rightarrow> int \<Rightarrow> 'a \<Rightarrow> read_fault + 'a" where
  "attr_loop body mem off attrLen acc =
     (if attrLen < 4 then Inr acc
      else rbind (read_u16 mem off) (\<lambda>len.
        if unat len < 4 \<or> attrLen < int (unat len) then Inr acc
        else rbind (read_u16 mem (off + 2)) (\<lambda>rta_type.
          rbind (read_bytes mem (off + 4) (unat len - 4)) (\<lambda>payload.
            attr_loop body mem (off + align4 (unat len)) (attrLen - int (align4 (unat len)))
              (body rta_type payload acc)))))"
  by pat_completeness auto

termination
  by (relation "measure (\<lambda>(body, mem, off, attrLen, acc). nat attrLen)") (auto simp: align4_def)

declare attr_loop.simps [simp del]


section \<open>Handlers\<close>

type_synonym name_resolver = "32 word \<Rightarrow> string option"
type_synonym ip_printer = "int \<Rightarrow> bytes \<Rightarrow> string option"

definition to_chars :: "bytes \<Rightarrow> string" where
  "to_chars bs = map (\<lambda>b. char_of (unat b)) bs"

definition empty_link_event :: link_event where
  "empty_link_event = \<lparr>le_ifindex = 0, le_ifname = [], le_mac = [], le_adminUp = False, le_running = False,
     le_operState = 0, le_masterIfindex = None, le_masterIfname = None, le_present = True\<rparr>"

definition handleLink_attr ::
  "name_resolver \<Rightarrow> 32 word \<Rightarrow> 16 word \<Rightarrow> bytes \<Rightarrow> link_event \<times> ifindex_cache \<times> bool
     \<Rightarrow> link_event \<times> ifindex_cache \<times> bool" where
  "handleLink_attr indextoname ifi_index rta_type payload acc =
     (case acc of (event, cache, hasIfname) \<Rightarrow>
        if rta_type = IFLA_OPERSTATE then
          (if 1 \<le> length payload then (event\<lparr>le_operState := payload ! 0\<rparr>, cache, hasIfname) else acc)
        else if rta_type = IFLA_ADDRESS then
          (event\<lparr>le_mac := formatMacAddress payload\<rparr>, cache, hasIfname)
        else if rta_type = IFLA_IFNAME then
          (if length payload < 1 then acc
           else (let name = to_chars (if last payload = 0 then butlast payload else payload)
                 in (event\<lparr>le_ifname := name\<rparr>, updateIfIndexName ifi_index name cache, True)))
        else if rta_type = IFLA_MASTER then
          (if 4 \<le> length payload then
             (let masterIdx = word_of_nat (le_nat (take 4 payload)) :: 32 word;
                  (name, cache') = ifIndexToName indextoname masterIdx cache
              in (event\<lparr>le_masterIfindex := Some (sint masterIdx), le_masterIfname := Some name\<rparr>,
                  cache', hasIfname))
           else acc)
        else acc)"

definition handleLink ::
  "name_resolver \<Rightarrow> bytes \<Rightarrow> ifindex_cache \<Rightarrow> read_fault + link_event option \<times> ifindex_cache" where
  "handleLink indextoname mem cache =
     rbind (getPayloadAndAttrLen 16 mem) (\<lambda>payload.
     case payload of
       None \<Rightarrow> Inr (None, cache)
     | Some attrLen \<Rightarrow>
         rbind (nlmsg_type mem) (\<lambda>type.
         rbind (read_u32 mem (NLMSG_HDRLEN + 4)) (\<lambda>ifi_index.
         rbind (read_u32 mem (NLMSG_HDRLEN + 8)) (\<lambda>ifi_flags.
         let event = empty_link_event\<lparr>le_ifindex := sint ifi_index,
                        le_adminUp := and ifi_flags IFF_UP \<noteq> 0,
                        le_running := and ifi_flags IFF_RUNNING \<noteq> 0,
                        le_present := type \<noteq> RTM_DELLINK\<rparr>;
             cache1 = (if \<not> le_present event then invalidateIfIndex ifi_index cache else cache)
         in rbind (attr_loop (handleLink_attr indextoname ifi_index) mem (attrBegin 16) attrLen
                     (event, cache1, False)) (\<lambda>(event, cache2, hasIfname).
            if hasIfname then Inr (Some event, cache2)
            else (let (name, cache3) = ifIndexToName indextoname ifi_index cache2
                  in Inr (Some (event\<lparr>le_ifname := name\<rparr>), cache3)))))))"

definition handleAddr_attr ::
  "bool \<Rightarrow> bool \<Rightarrow> 16 word \<Rightarrow> bytes \<Rightarrow> bytes option \<times> bytes option \<times> bytes option
     \<Rightarrow> bytes option \<times> bytes option \<times> bytes option" where
  "handleAddr_attr v4 v6 rta_type payload acc =
     (case acc of (v4local, v4addr, v6addr) \<Rightarrow>
        if v4 then
          (if rta_type = IFA_LOCAL then (Some payload, v4addr, v6addr)
           else if rta_type = IFA_ADDRESS then (v4local, Some payload, v6addr)
           else acc)
        else if v6 \<and> rta_type = IFA_ADDRESS then (v4local, v4addr, Some payload)
        else acc)"

definition emitIp ::
  "ip_printer \<Rightarrow> string \<Rightarrow> int \<Rightarrow> 8 word \<Rightarrow> bool \<Rightarrow> bytes \<Rightarrow> interface_ip_event list" where
  "emitIp ntop ifname family prefixlen isDelete ad =
     (if length ad = 0 then []
      else if isIpv4 family \<and> length ad \<noteq> 4 then []
      else if isIpv6 family \<and> length ad \<noteq> 16 then []
      else [\<lparr>ie_ifname = ifname, ie_family = family, ie_address = formatIpAddress ntop family ad,
             ie_prefixLen = prefixlen, ie_present = \<not> isDelete\<rparr>])"

definition handleAddr ::
  "name_resolver \<Rightarrow> ip_printer \<Rightarrow> bytes \<Rightarrow> ifindex_cache
     \<Rightarrow> read_fault + interface_ip_event list \<times> ifindex_cache" where
  "handleAddr indextoname ntop mem cache =
     rbind (getPayloadAndAttrLen 8 mem) (\<lambda>payload.
     case payload of
       None \<Rightarrow> Inr ([], cache)
     | Some attrLen \<Rightarrow>
         rbind (read_u8 mem NLMSG_HDRLEN) (\<lambda>ifa_family.
         let family = int (unat ifa_family); v4 = isIpv4 family; v6 = isIpv6 family
         in if \<not> v4 \<and> \<not> v6 then Inr ([], cache)
            else
              rbind (read_u8 mem (NLMSG_HDRLEN + 1)) (\<lambda>prefixlen.
              rbind (read_u32 mem (NLMSG_HDRLEN + 4)) (\<lambda>ifa_index.
              rbind (nlmsg_type mem) (\<lambda>type.
              let (ifname, cache') = ifIndexToName indextoname ifa_index cache;
                  emit = emitIp ntop ifname family prefixlen (type = RTM_DELADDR)
              in rbind (attr_loop (handleAddr_attr v4 v6) mem (attrBegin 8) attrLen (None, None, None))
                   (\<lambda>(v4local, v4addr, v6addr).
                   Inr ((case v4local of Some ad \<Rightarrow> emit ad
                         | None \<Rightarrow> (case v4addr of Some ad \<Rightarrow> emit ad | None \<Rightarrow> [])) @
                        (case v6addr of Some ad \<Rightarrow> emit ad | None \<Rightarrow> []),
                        cache')))))))"

definition handleFdb_attr :: "16 word \<Rightarrow> bytes \<Rightarrow> string option \<Rightarrow> string option" where
  "handleFdb_attr rta_type payload mac =
     (if rta_type = NDA_LLADDR then (if length payload < 6 then mac else Some (formatMacAddress payload))
      else mac)"

definition handleFdb ::
  "bytes \<Rightarrow> 16 word \<Rightarrow> string \<Rightarrow> int \<Rightarrow> read_fault + fdb_event option" where
  "handleFdb mem ndm_state ifname attrLen =
     rbind (attr_loop handleFdb_attr mem (attrBegin 12) attrLen None) (\<lambda>mac.
     case mac of
       None \<Rightarrow> Inr None
     | Some mac \<Rightarrow>
         rbind (nlmsg_type mem) (\<lambda>type.
         Inr (Some \<lparr>fe_ifname = ifname, fe_mac = mac, fe_present = (type \<noteq> RTM_DELNEIGH),
                    fe_local = isFdbLocal ndm_state, fe_permanent = isFdbPermanent ndm_state\<rparr>)))"

definition handleNeighborL3_attr ::
  "ip_printer \<Rightarrow> int \<Rightarrow> 16 word \<Rightarrow> bytes \<Rightarrow> string option \<times> string option \<Rightarrow> string option \<times> string option" where
  "handleNeighborL3_attr ntop family rta_type payload acc =
     (case acc of (mac, ip) \<Rightarrow>
        if rta_type = NDA_LLADDR then
          (if 6 \<le> length payload then (Some (formatMacAddress payload), ip) else acc)
        else if rta_type = NDA_DST then
          (if (family = AF_INET \<and> length payload = 4) \<or> (family = AF_INET6 \<and> length payload = 16)
           then (mac, Some (formatIpAddress ntop family payload)) else acc)
        else acc)"

definition handleNeighborL3 ::
  "ip_printer \<Rightarrow> bytes \<Rightarrow> int \<Rightarrow> 16 word \<Rightarrow> string \<Rightarrow> int \<Rightarrow> read_fault + neighbor_event option" where
  "handleNeighborL3 ntop mem family ndm_state ifname attrLen =
     rbind (attr_loop (handleNeighborL3_attr ntop family) mem (attrBegin 12) attrLen (None, None)) (\<lambda>r.
     case r of
       (Some mac, Some ip) \<Rightarrow>
         rbind (nlmsg_type mem) (\<lambda>type.
         Inr (Some \<lparr>ne_ifname = ifname, ne_mac = mac, ne_family = family, ne_ip = ip,
                    ne_nudState = ndm_state, ne_present = (type \<noteq> RTM_DELNEIGH)\<rparr>))
     | _ \<Rightarrow> Inr None)"

text \<open>The events of the monitor's four callbacks.\<close>

datatype parsed =
    PLink link_event
  | PIp interface_ip_event
  | PFdb fdb_event
  | PNeigh neighbor_event

definition handleNeigh ::
  "name_resolver \<Rightarrow> ip_printer \<Rightarrow> bytes \<Rightarrow> ifindex_cache \<Rightarrow> read_fault + parsed list \<times> ifindex_cache" where
  "handleNeigh indextoname ntop mem cache =
     rbind (getPayloadAndAttrLen 12 mem) (\<lambda>payload.
     case payload of
       None \<Rightarrow> Inr ([], cache)
     | Some attrLen \<Rightarrow>
         rbind (read_u32 mem (NLMSG_HDRLEN + 4)) (\<lambda>ndm_ifindex.
         rbind (read_u8 mem NLMSG_HDRLEN) (\<lambda>ndm_family.
         rbind (read_u16 mem (NLMSG_HDRLEN + 8)) (\<lambda>ndm_state.
         let (ifname, cache') = ifIndexToName indextoname ndm_ifindex cache;
             family = int (unat ndm_family)
         in if family = AF_BRIDGE then
              rbind (handleFdb mem ndm_state ifname attrLen) (\<lambda>e.
              Inr (case e of Some e \<Rightarrow> [PFdb e] | None \<Rightarrow> [], cache'))
            else if isIpv4 family \<or> isIpv6 family then
              rbind (handleNeighborL3 ntop mem family ndm_state ifname attrLen) (\<lambda>e.
              Inr (case e of Some e \<Rightarrow> [PNeigh e] | None \<Rightarrow> [], cache'))
            else Inr ([], cache')))))"

definition processMessage ::
  "name_resolver \<Rightarrow> ip_printer \<Rightarrow> bytes \<Rightarrow> ifindex_cache \<Rightarrow> read_fault + parsed list \<times> ifindex_cache" where
  "processMessage indextoname ntop mem cache =
     rbind (nlmsg_type mem) (\<lambda>type.
       if type = RTM_NEWLINK \<or> type = RTM_DELLINK then
         rbind (handleLink indextoname mem cache) (\<lambda>(e, cache').
         Inr (case e of Some e \<Rightarrow> [PLink e] | None \<Rightarrow> [], cache'))
       else if type = RTM_NEWADDR \<or> type = RTM_DELADDR then
         rbind (handleAddr indextoname ntop mem cache) (\<lambda>(es, cache'). Inr (map PIp es, cache'))
       else if type = RTM_NEWNEIGH \<or> type = RTM_DELNEIGH then
         handleNeigh indextoname ntop mem cache
       else if type = NLMSG_ERROR then
         rbind (nlmsg_len mem) (\<lambda>len.
           if unat len < NLMSG_HDRLEN + 20 then Inr ([], cache)
           else rbind (read_u32 mem NLMSG_HDRLEN) (\<lambda>err. Inr ([], cache)))
       else Inr ([], cache))"


section \<open>No read leaves the message\<close>

lemma read_bytes_ok [simp]: "off + n \<le> length mem \<Longrightarrow> read_bytes mem off n = Inr (take n (drop off mem))"
  by (simp add: read_bytes_def)

lemma read_ok:
  "off + 1 \<le> length mem \<Longrightarrow> read_u8 mem off = Inr (word_of_nat (le_nat (take 1 (drop off mem))))"
  "off + 2 \<le> length mem \<Longrightarrow> read_u16 mem off = Inr (word_of_nat (le_nat (take 2 (drop off mem))))"
  "off + 4 \<le> length mem \<Longrightarrow> read_u32 mem off = Inr (word_of_nat (le_nat (take 4 (drop off mem))))"
  by (simp_all add: read_u8_def read_u16_def read_u32_def)

lemma align4_bounds: "n \<le> align4 n" "align4 n < n + 4"
  by (auto simp: align4_def)

text \<open>
  The attribute area may end anywhere: \<open>RTA_NEXT\<close> may move the cursor up to three bytes past it, but
  then the loop condition fails before anything is read.
\<close>

lemma attr_loop_safe:
  "(4 \<le> attrLen \<longrightarrow> off + nat attrLen \<le> length mem) \<Longrightarrow> \<exists>r. attr_loop body mem off attrLen acc = Inr r"
proof (induction body mem off attrLen acc rule: attr_loop.induct)
  case (1 body mem off attrLen acc)
  show ?case
  proof (cases "attrLen < 4")
    case True
    then show ?thesis by (simp add: attr_loop.simps)
  next
    case False
    then have room: "off + nat attrLen \<le> length mem" "4 \<le> nat attrLen" using 1(2) by auto
    then obtain len where len: "read_u16 mem off = Inr len" by (simp add: read_ok)
    obtain ty where ty: "read_u16 mem (off + 2) = Inr ty" using room by (simp add: read_ok)
    show ?thesis
    proof (cases "unat len < 4 \<or> attrLen < int (unat len)")
      case True
      then show ?thesis using False len by (simp add: attr_loop.simps)
    next
      case fits: False
      let ?pay = "take (unat len - 4) (drop (off + 4) mem)"
      have pay: "read_bytes mem (off + 4) (unat len - 4) = Inr ?pay"
        by (rule read_bytes_ok) (use fits room in linarith)
      have "4 \<le> attrLen - int (align4 (unat len)) \<longrightarrow>
              off + align4 (unat len) + nat (attrLen - int (align4 (unat len))) \<le> length mem"
        using room by auto
      then have "\<exists>r. attr_loop body mem (off + align4 (unat len)) (attrLen - int (align4 (unat len)))
                   (body ty ?pay acc) = Inr r"
        using 1(1)[OF False len fits ty pay] by blast
      then show ?thesis using False len fits ty pay by (simp add: attr_loop.simps[of body mem off])
    qed
  qed
qed

definition received :: "bytes \<Rightarrow> bool" where
  "received mem \<longleftrightarrow> NLMSG_HDRLEN \<le> length mem \<and> (\<forall>len. nlmsg_len mem = Inr len \<longrightarrow> unat len \<le> length mem)"

lemma received_header:
  assumes "received mem"
  shows "\<exists>t. nlmsg_type mem = Inr t" "\<exists>len. nlmsg_len mem = Inr len \<and> unat len \<le> length mem"
  using assms by (auto simp: received_def nlmsg_type_def nlmsg_len_def NLMSG_HDRLEN_def read_ok)

lemma sint_le_unat: "0 \<le> sint (w :: 32 word) \<Longrightarrow> sint w = int (unat w)"
proof -
  assume "0 \<le> sint w"
  moreover have "sint w < 2 ^ 31" using sint_less[of w] by simp
  ultimately have "uint w = sint w" by (simp add: uint_sint take_bit_int_eq_self)
  then show ?thesis by simp
qed

text \<open>What the length check of \<open>getPayloadAndAttrLen\<close> guarantees.\<close>

lemma payload_cases:
  assumes "received mem"
  obtains "getPayloadAndAttrLen n mem = Inr None"
  | attrLen where "getPayloadAndAttrLen n mem = Inr (Some attrLen)" "0 \<le> attrLen"
      "NLMSG_HDRLEN + n + nat attrLen \<le> length mem"
proof -
  obtain len where len: "nlmsg_len mem = Inr len" "unat len \<le> length mem"
    using received_header(2)[OF assms] by blast
  show ?thesis
  proof (cases "sint len < int (NLMSG_HDRLEN + n)")
    case True
    then show ?thesis using len that(1) by (simp add: getPayloadAndAttrLen_def)
  next
    case False
    then have "sint len = int (unat len)" using sint_le_unat[of len] by linarith
    then have "NLMSG_HDRLEN + n + nat (sint len - int (NLMSG_HDRLEN + n)) \<le> length mem"
      using False len(2) by linarith
    then show ?thesis using False len(1) that(2)[of "sint len - int (NLMSG_HDRLEN + n)"]
      by (simp add: getPayloadAndAttrLen_def)
  qed
qed

text \<open>A computation that does not fault.\<close>

definition safe :: "read_fault + 'a \<Rightarrow> bool" where
  "safe r \<longleftrightarrow> (\<exists>x. r = Inr x)"

lemma safe_Inr: "safe (Inr x)"
  by (simp add: safe_def)

lemma safe_rbind: "safe r \<Longrightarrow> (\<And>a. r = Inr a \<Longrightarrow> safe (f a)) \<Longrightarrow> safe (rbind r f)"
  by (auto simp: safe_def)

lemma safe_if: "(c \<Longrightarrow> safe r) \<Longrightarrow> (\<not> c \<Longrightarrow> safe r') \<Longrightarrow> safe (if c then r else r')"
  by simp

lemma safe_case_prod: "(\<And>a b. p = (a, b) \<Longrightarrow> safe (f a b)) \<Longrightarrow> safe (case p of (a, b) \<Rightarrow> f a b)"
  by (cases p) simp

lemma safe_case_option:
  "(p = None \<Longrightarrow> safe r) \<Longrightarrow> (\<And>a. p = Some a \<Longrightarrow> safe (f a)) \<Longrightarrow> safe (case p of None \<Rightarrow> r | Some a \<Rightarrow> f a)"
  by (cases p) simp_all

lemma safe_attrs:
  assumes "NLMSG_HDRLEN + n + nat attrLen \<le> length mem" "n mod 4 = 0"
  shows "safe (attr_loop body mem (attrBegin n) attrLen acc)"
proof -
  have "align4 n = n" using assms(2) by (auto simp: align4_def elim: dvdE[of 4, OF mod_0_imp_dvd])
  then show ?thesis
    unfolding safe_def by (intro attr_loop_safe) (use assms(1) in \<open>simp add: attrBegin_def\<close>)
qed

lemma safe_reads:
  "off + 1 \<le> length mem \<Longrightarrow> safe (read_u8 mem off)"
  "off + 2 \<le> length mem \<Longrightarrow> safe (read_u16 mem off)"
  "off + 4 \<le> length mem \<Longrightarrow> safe (read_u32 mem off)"
  by (simp_all add: safe_def read_ok)

lemma safe_header: "received mem \<Longrightarrow> safe (nlmsg_type mem)" "received mem \<Longrightarrow> safe (nlmsg_len mem)"
  using received_header unfolding safe_def by blast+

lemma safe_payload: "received mem \<Longrightarrow> safe (getPayloadAndAttrLen n mem)"
  unfolding safe_def by (metis payload_cases)

lemma payload_room:
  "received mem \<Longrightarrow> getPayloadAndAttrLen n mem = Inr (Some attrLen) \<Longrightarrow>
   NLMSG_HDRLEN + n + nat attrLen \<le> length mem"
  by (rule payload_cases[of mem n]) auto

lemmas safe_intros = safe_Inr safe_rbind safe_if safe_case_prod safe_case_option safe_reads safe_header
  safe_payload safe_attrs

lemma handleLink_safe:
  assumes r: "received mem"
  shows "safe (handleLink indextoname mem cache)"
  unfolding handleLink_def Let_def
  by (intro safe_intros r) (use payload_room[OF r] in force)+

lemma handleAddr_safe:
  assumes r: "received mem"
  shows "safe (handleAddr indextoname ntop mem cache)"
  unfolding handleAddr_def Let_def
  by (intro safe_intros r) (use payload_room[OF r] in force)+

lemma handleFdb_safe:
  assumes r: "received mem" and room: "NLMSG_HDRLEN + 12 + nat attrLen \<le> length mem"
  shows "safe (handleFdb mem ndm_state ifname attrLen)"
  unfolding handleFdb_def by (intro safe_intros r room) simp

lemma handleNeighborL3_safe:
  assumes r: "received mem" and room: "NLMSG_HDRLEN + 12 + nat attrLen \<le> length mem"
  shows "safe (handleNeighborL3 ntop mem family ndm_state ifname attrLen)"
  unfolding handleNeighborL3_def by (intro safe_intros r room) simp

lemma handleNeigh_safe:
  assumes r: "received mem"
  shows "safe (handleNeigh indextoname ntop mem cache)"
  unfolding handleNeigh_def Let_def
  by (intro safe_intros r handleFdb_safe handleNeighborL3_safe) (use payload_room[OF r] in force)+

lemma processMessage_safe:
  assumes r: "received mem"
  shows "safe (processMessage indextoname ntop mem cache)"
proof -
  have "safe (read_u32 mem NLMSG_HDRLEN)" if "nlmsg_len mem = Inr len" "\<not> unat len < NLMSG_HDRLEN + 20" for len
    using r that by (intro safe_reads) (auto simp: received_def)
  then show ?thesis
    unfolding processMessage_def
    by (intro safe_Inr safe_rbind safe_if safe_case_prod safe_header handleLink_safe handleAddr_safe
        handleNeigh_safe r)
qed


section \<open>Messages as the kernel lays them out\<close>

fun le_bytes :: "nat \<Rightarrow> nat \<Rightarrow> bytes" where
  "le_bytes 0 n = []"
| "le_bytes (Suc k) n = word_of_nat (n mod 256) # le_bytes k (n div 256)"

type_synonym attribute = "16 word \<times> bytes"

definition encode_attr :: "attribute \<Rightarrow> bytes" where
  "encode_attr a =
     le_bytes 2 (4 + length (snd a)) @ le_bytes 2 (unat (fst a)) @ snd a @
     replicate (align4 (length (snd a)) - length (snd a)) 0"

definition attr_ok :: "attribute \<Rightarrow> bool" where
  "attr_ok a \<longleftrightarrow> length (snd a) \<le> 65531"

definition encode_attrs :: "attribute list \<Rightarrow> bytes" where
  "encode_attrs as = concat (map encode_attr as)"

lemma length_le_bytes [simp]: "length (le_bytes k n) = k"
  by (induction k arbitrary: n) auto

lemma le_nat_le_bytes: "le_nat (le_bytes k n) = n mod 256 ^ k"
proof (induction k arbitrary: n)
  case (Suc k)
  have "unat (word_of_nat (n mod 256) :: 8 word) = n mod 256" by (simp add: unat_of_nat)
  then show ?case using Suc[of "n div 256"] by (simp add: mod_mult2_eq)
qed simp

lemma length_encode_attr: "length (encode_attr a) = align4 (4 + length (snd a))"
proof -
  have "(4 + n + 3) div 4 * 4 = 4 + (n + 3) div 4 * 4" for n :: nat by presburger
  then show ?thesis using align4_bounds(1)[of "length (snd a)"] by (simp add: encode_attr_def align4_def)
qed

lemma read_encoded:
  "off = length pre \<Longrightarrow> read_u8 (pre @ le_bytes 1 (unat (v8 :: 8 word)) @ rest) off = Inr v8"
  "off = length pre \<Longrightarrow> read_u16 (pre @ le_bytes 2 (unat (v16 :: 16 word)) @ rest) off = Inr v16"
  "off = length pre \<Longrightarrow> read_u32 (pre @ le_bytes 4 (unat (v32 :: 32 word)) @ rest) off = Inr v32"
proof -
  have "unat v8 < 2 ^ 8" "unat v16 < 2 ^ 16" "unat v32 < 2 ^ 32"
    using unsigned_less[of v8] unsigned_less[of v16] unsigned_less[of v32] by simp_all
  then show "off = length pre \<Longrightarrow> read_u8 (pre @ le_bytes 1 (unat (v8 :: 8 word)) @ rest) off = Inr v8"
    "off = length pre \<Longrightarrow> read_u16 (pre @ le_bytes 2 (unat (v16 :: 16 word)) @ rest) off = Inr v16"
    "off = length pre \<Longrightarrow> read_u32 (pre @ le_bytes 4 (unat (v32 :: 32 word)) @ rest) off = Inr v32"
    by (simp_all add: read_ok le_nat_le_bytes del: le_bytes.simps One_nat_def)
qed

lemma attr_loop_encoded:
  assumes "list_all attr_ok as"
  shows "attr_loop body (pre @ encode_attrs as @ rest) (length pre) (int (length (encode_attrs as))) acc
           = Inr (fold (\<lambda>(t, p). body t p) as acc)"
  using assms
proof (induction as arbitrary: pre acc)
  case Nil
  then show ?case by (simp add: attr_loop.simps encode_attrs_def)
next
  case (Cons a as)
  obtain t p where a: "a = (t, p)" by (cases a)
  let ?len = "word_of_nat (4 + length p) :: 16 word"
  let ?pad = "replicate (align4 (length p) - length p) (0 :: 8 word)"
  let ?tail = "encode_attrs as @ rest"
  let ?mem = "pre @ encode_attrs (a # as) @ rest"
  have small: "length p \<le> 65531" using Cons.prems a by (simp add: attr_ok_def)
  then have len: "unat ?len = 4 + length p"
    by (simp add: unat_of_nat del: of_nat_add of_nat_Suc)
  have split: "encode_attrs (x # as) = encode_attr x @ encode_attrs as" for x by (simp add: encode_attrs_def)
  have size: "length (encode_attr a) = align4 (4 + length p)" by (simp add: length_encode_attr a)
  have mem: "?mem = pre @ le_bytes 2 (unat ?len) @ (le_bytes 2 (unat t) @ p @ ?pad @ ?tail)"
    using len by (simp add: split encode_attr_def a)
  have r1: "read_u16 ?mem (length pre) = Inr ?len" unfolding mem by (rule read_encoded) simp
  have mem2: "?mem = (pre @ le_bytes 2 (unat ?len)) @ le_bytes 2 (unat t) @ (p @ ?pad @ ?tail)"
    using mem by simp
  have r2: "read_u16 ?mem (length pre + 2) = Inr t" unfolding mem2 by (rule read_encoded) simp
  have r3: "read_bytes ?mem (length pre + 4) (unat ?len - 4) = Inr p"
    using len by (simp add: read_bytes_def mem)
  have ge: "length p + 4 \<le> align4 (4 + length p)" using align4_bounds(1)[of "4 + length p"] by simp
  have mem3: "?mem = (pre @ encode_attr a) @ encode_attrs as @ rest" by (simp add: split)
  have next_off: "length pre + align4 (unat ?len) = length (pre @ encode_attr a)" using len size by simp
  have next_len: "int (length (encode_attrs (a # as))) - int (align4 (unat ?len)) = int (length (encode_attrs as))"
    using len size by (simp add: split)
  have "attr_loop body ?mem (length pre) (int (length (encode_attrs (a # as)))) acc
          = attr_loop body ?mem (length (pre @ encode_attr a)) (int (length (encode_attrs as))) (body t p acc)"
    unfolding attr_loop.simps[of body ?mem "length pre" "int (length (encode_attrs (a # as)))" acc]
      r1 r2 r3 rbind_simps next_off next_len
    using len ge size by (simp add: split)
  also have "\<dots> = Inr (fold (\<lambda>(t, p). body t p) as (body t p acc))"
    unfolding mem3 by (rule Cons.IH) (use Cons.prems in simp)
  finally show ?case by (simp add: a)
qed

definition encode_msg ::
  "16 word \<Rightarrow> 16 word \<Rightarrow> 32 word \<Rightarrow> 32 word \<Rightarrow> bytes \<Rightarrow> attribute list \<Rightarrow> bytes" where
  "encode_msg type msg_flags seq pid body as =
     le_bytes 4 (NLMSG_HDRLEN + length body + length (encode_attrs as)) @ le_bytes 2 (unat type) @
     le_bytes 2 (unat msg_flags) @ le_bytes 4 (unat seq) @ le_bytes 4 (unat pid) @ body @ encode_attrs as"

definition ndm_bytes :: "8 word \<Rightarrow> 32 word \<Rightarrow> 16 word \<Rightarrow> bytes \<Rightarrow> bytes" where
  "ndm_bytes family ifindex state flags_type =
     le_bytes 1 (unat family) @ [0, 0, 0] @ le_bytes 4 (unat ifindex) @ le_bytes 2 (unat state) @ flags_type"

definition ifa_bytes :: "8 word \<Rightarrow> 8 word \<Rightarrow> bytes \<Rightarrow> 32 word \<Rightarrow> bytes" where
  "ifa_bytes family prefixlen flags_scope ifindex =
     le_bytes 1 (unat family) @ le_bytes 1 (unat prefixlen) @ flags_scope @ le_bytes 4 (unat ifindex)"

definition ifi_bytes :: "bytes \<Rightarrow> 32 word \<Rightarrow> 32 word \<Rightarrow> bytes \<Rightarrow> bytes" where
  "ifi_bytes family_type ifindex link_flags change =
     family_type @ le_bytes 4 (unat ifindex) @ le_bytes 4 (unat link_flags) @ change"

text \<open>A message that fits a signed 32-bit length, followed by anything.\<close>

definition msg_ok :: "bytes \<Rightarrow> attribute list \<Rightarrow> bool" where
  "msg_ok body as \<longleftrightarrow> list_all attr_ok as \<and> NLMSG_HDRLEN + length body + length (encode_attrs as) < 2 ^ 31"

lemma encoded_type: "nlmsg_type (encode_msg type msg_flags seq pid body as @ rest) = Inr type"
proof -
  let ?pre = "le_bytes 4 (NLMSG_HDRLEN + length body + length (encode_attrs as))"
  show ?thesis
    unfolding nlmsg_type_def encode_msg_def append_assoc by (rule read_encoded) simp
qed

lemma encoded_len:
  assumes "msg_ok body as"
  shows "nlmsg_len (encode_msg type msg_flags seq pid body as @ rest)
           = Inr (word_of_nat (NLMSG_HDRLEN + length body + length (encode_attrs as)))"
    and "sint (word_of_nat (NLMSG_HDRLEN + length body + length (encode_attrs as)) :: 32 word)
           = int (NLMSG_HDRLEN + length body + length (encode_attrs as))"
proof -
  define n where "n = NLMSG_HDRLEN + length body + length (encode_attrs as)"
  have "n < 2 ^ 31" using assms by (simp add: msg_ok_def n_def)
  then have u: "unat (word_of_nat n :: 32 word) = n" by (simp add: unat_of_nat)
  have "nlmsg_len (encode_msg type msg_flags seq pid body as @ rest) = Inr (word_of_nat n)"
    using read_encoded(3)[of 0 "[]" "word_of_nat n"] u
    by (simp add: nlmsg_len_def encode_msg_def n_def del: of_nat_add le_bytes.simps)
  then show "nlmsg_len (encode_msg type msg_flags seq pid body as @ rest)
           = Inr (word_of_nat (NLMSG_HDRLEN + length body + length (encode_attrs as)))"
    by (simp only: n_def)
  have "sint (word_of_nat n :: 32 word) = int n"
    using \<open>n < 2 ^ 31\<close> by (simp add: signed_of_nat signed_take_bit_int_eq_self)
  then show "sint (word_of_nat (NLMSG_HDRLEN + length body + length (encode_attrs as)) :: 32 word)
           = int (NLMSG_HDRLEN + length body + length (encode_attrs as))" by (simp only: n_def)
qed

lemma encoded_payload:
  assumes "msg_ok body as" "length body = n"
  shows "getPayloadAndAttrLen n (encode_msg type msg_flags seq pid body as @ rest)
           = Inr (Some (int (length (encode_attrs as))))"
  using encoded_len[OF assms(1)] assms(2)
  by (simp add: getPayloadAndAttrLen_def Let_def del: of_nat_add)

lemma encoded_attrs:
  assumes "list_all attr_ok as" "length body = n" "n mod 4 = 0"
  shows "attr_loop f (encode_msg type msg_flags seq pid body as @ rest) (attrBegin n)
           (int (length (encode_attrs as))) acc = Inr (fold (\<lambda>(t, p). f t p) as acc)"
proof -
  let ?pre = "le_bytes 4 (NLMSG_HDRLEN + length body + length (encode_attrs as)) @ le_bytes 2 (unat type) @
     le_bytes 2 (unat msg_flags) @ le_bytes 4 (unat seq) @ le_bytes 4 (unat pid) @ body"
  have "attrBegin n = length ?pre"
    using assms(2,3) by (auto simp: attrBegin_def align4_def NLMSG_HDRLEN_def)
  then show ?thesis
    using attr_loop_encoded[OF assms(1), of f ?pre rest acc] by (simp add: encode_msg_def)
qed

text \<open>The last attribute that satisfies a condition, which is the one a handler keeps.\<close>

fun last_payload :: "(16 word \<Rightarrow> bytes \<Rightarrow> bool) \<Rightarrow> attribute list \<Rightarrow> bytes option" where
  "last_payload P [] = None"
| "last_payload P ((t, p) # as) =
     (case last_payload P as of Some q \<Rightarrow> Some q | None \<Rightarrow> if P t p then Some p else None)"

lemma fold_last:
  "fold (\<lambda>(t, p) acc. if P t p then Some (g p) else acc) as init
     = (case last_payload P as of Some p \<Rightarrow> Some (g p) | None \<Rightarrow> init)"
  by (induction as arbitrary: init) (auto split: option.split)

definition is_lladdr :: "16 word \<Rightarrow> bytes \<Rightarrow> bool" where
  "is_lladdr t p \<longleftrightarrow> t = NDA_LLADDR \<and> 6 \<le> length p"

definition is_dst :: "int \<Rightarrow> 16 word \<Rightarrow> bytes \<Rightarrow> bool" where
  "is_dst family t p \<longleftrightarrow>
     t = NDA_DST \<and> ((family = AF_INET \<and> length p = 4) \<or> (family = AF_INET6 \<and> length p = 16))"

lemma fold_fdb:
  "fold (\<lambda>(t, p). handleFdb_attr t p) as None = map_option formatMacAddress (last_payload is_lladdr as)"
proof -
  have "(\<lambda>(t, p). handleFdb_attr t p) = (\<lambda>(t, p) acc. if is_lladdr t p then Some (formatMacAddress p) else acc)"
    by (auto simp: fun_eq_iff handleFdb_attr_def is_lladdr_def)
  then show ?thesis by (simp add: fold_last split: option.split)
qed

lemma fold_neighbor:
  "fold (\<lambda>(t, p). handleNeighborL3_attr ntop family t p) as (mac, ip)
     = (case last_payload is_lladdr as of Some p \<Rightarrow> Some (formatMacAddress p) | None \<Rightarrow> mac,
        case last_payload (is_dst family) as of Some p \<Rightarrow> Some (formatIpAddress ntop family p) | None \<Rightarrow> ip)"
proof (induction as arbitrary: mac ip)
  case (Cons a as)
  obtain t p where "a = (t, p)" by (cases a)
  then show ?case
    using Cons.IH
    by (auto simp: handleNeighborL3_attr_def is_lladdr_def is_dst_def attribute_types split: option.split)
qed simp

definition neighbor_result ::
  "ip_printer \<Rightarrow> 16 word \<Rightarrow> int \<Rightarrow> 16 word \<Rightarrow> string \<Rightarrow> attribute list \<Rightarrow> parsed list" where
  "neighbor_result ntop type family state ifname as =
     (case last_payload is_lladdr as of
        None \<Rightarrow> []
      | Some lladdr \<Rightarrow>
          if family = AF_BRIDGE then
            [PFdb \<lparr>fe_ifname = ifname, fe_mac = formatMacAddress lladdr, fe_present = (type = RTM_NEWNEIGH),
                   fe_local = isFdbLocal state, fe_permanent = isFdbPermanent state\<rparr>]
          else (case last_payload (is_dst family) as of
                  None \<Rightarrow> []
                | Some dst \<Rightarrow> [PNeigh \<lparr>ne_ifname = ifname, ne_mac = formatMacAddress lladdr, ne_family = family,
                     ne_ip = formatIpAddress ntop family dst, ne_nudState = state, ne_present = (type = RTM_NEWNEIGH)\<rparr>]))"

lemma last_payload_dst_family: "last_payload (is_dst family) as = Some p \<Longrightarrow> isIpv4 family \<or> isIpv6 family"
  by (induction as) (auto simp: is_dst_def isIpv4_def isIpv6_def split: option.splits if_splits)

lemma handleNeigh_encoded:
  assumes ok: "msg_ok (ndm_bytes fam ifindex state ft) as" and ft: "length ft = 2"
    and type: "type = RTM_NEWNEIGH \<or> type = RTM_DELNEIGH"
    and mem_def: "mem = encode_msg type msg_flags seq pid (ndm_bytes fam ifindex state ft) as @ rest"
  shows "handleNeigh indextoname ntop mem cache
           = (case ifIndexToName indextoname ifindex cache of (ifname, cache') \<Rightarrow>
                Inr (neighbor_result ntop type (int (unat fam)) state ifname as, cache'))"
proof -
  have len: "length (ndm_bytes fam ifindex state ft) = 12" using ft by (simp add: ndm_bytes_def)
  let ?hdr = "le_bytes 4 (NLMSG_HDRLEN + 12 + length (encode_attrs as)) @ le_bytes 2 (unat type) @
     le_bytes 2 (unat msg_flags) @ le_bytes 4 (unat seq) @ le_bytes 4 (unat pid)"
  have mem: "mem = ?hdr @ le_bytes 1 (unat fam) @ [0, 0, 0] @ le_bytes 4 (unat ifindex) @ le_bytes 2 (unat state) @
      ft @ encode_attrs as @ rest"
    unfolding mem_def encode_msg_def ndm_bytes_def using ft by simp
  have r1: "read_u8 mem NLMSG_HDRLEN = Inr fam"
    unfolding mem by (rule read_encoded) (simp add: NLMSG_HDRLEN_def)
  have r2: "read_u32 mem (NLMSG_HDRLEN + 4) = Inr ifindex"
    using read_encoded(3)[of "NLMSG_HDRLEN + 4" "?hdr @ le_bytes 1 (unat fam) @ [0, 0, 0]" ifindex]
    unfolding mem by (simp add: NLMSG_HDRLEN_def)
  have r3: "read_u16 mem (NLMSG_HDRLEN + 8) = Inr state"
    using read_encoded(2)[of "NLMSG_HDRLEN + 8" "?hdr @ le_bytes 1 (unat fam) @ [0, 0, 0] @ le_bytes 4 (unat ifindex)" state]
    unfolding mem by (simp add: NLMSG_HDRLEN_def)
  have p: "getPayloadAndAttrLen 12 mem = Inr (Some (int (length (encode_attrs as))))"
    unfolding mem_def by (rule encoded_payload[OF ok len])
  have aok: "list_all attr_ok as" "(12 :: nat) mod 4 = 0" using ok by (simp_all add: msg_ok_def)
  have a: "attr_loop handleFdb_attr mem (attrBegin 12) (int (length (encode_attrs as))) None
      = Inr (map_option formatMacAddress (last_payload is_lladdr as))"
    unfolding mem_def encoded_attrs[OF aok(1) len aok(2)] fold_fdb ..
  have b: "attr_loop (handleNeighborL3_attr ntop (int (unat fam))) mem (attrBegin 12)
      (int (length (encode_attrs as))) (None, None)
      = Inr (map_option formatMacAddress (last_payload is_lladdr as),
             map_option (formatIpAddress ntop (int (unat fam))) (last_payload (is_dst (int (unat fam))) as))"
    unfolding mem_def encoded_attrs[OF aok(1) len aok(2)] fold_neighbor map_option_case ..
  have t: "nlmsg_type mem = Inr type" unfolding mem_def by (rule encoded_type)
  have new: "type \<noteq> RTM_DELNEIGH \<longleftrightarrow> type = RTM_NEWNEIGH" using type by (auto simp: netlink_types)
  have fams: "isIpv4 AF_BRIDGE = False" "isIpv6 AF_BRIDGE = False"
    by (simp_all add: isIpv4_def isIpv6_def AF_BRIDGE_def AF_INET_def AF_INET6_def)
  show ?thesis
    unfolding handleNeigh_def p r1 r2 r3 rbind_simps option.case handleFdb_def handleNeighborL3_def a b t Let_def
    using new last_payload_dst_family[of "int (unat fam)" as]
    by (auto simp: neighbor_result_def fams split: option.split prod.split)
qed

end
