(* ===== verification/Netlink_Io.thy ===== *)
theory Netlink_Io
  imports Netlink_Parser
begin

text \<open>
  \<open>inputs/netlink/common/NetlinkIo.cpp\<close> and \<open>inputs/netlink/live/NetlinkEventLoop.cpp\<close>.

  What the operating system answers is a script: the answers of \<open>poll\<close>, of \<open>EventFdSignal::drain\<close>, of
  \<open>recvmsg\<close>, of \<open>send\<close> and of \<open>stop_token::stop_requested\<close>, each in the order of the calls. A call that finds
  no answer left is still blocked, and the function it belongs to has not returned: its value is
  \<open>None\<close>. So a script is a finite prefix of what the system does, and every loop of the source, however
  long it runs, is a recursion over its script. A message handler may fault (see \<open>Netlink_Parser\<close>).
\<close>

section \<open>The operating system\<close>

datatype poll_answer = PollError int | PollRevents (dataRevents: "16 word") (stopRevents: "16 word")
datatype recv_answer = RecvError int | RecvData bytes bool
datatype send_answer = SendError int | SentBytes nat

record os_script =
  os_polls :: "poll_answer list"
  os_drains :: "int list"
  os_recvs :: "recv_answer list"
  os_sends :: "send_answer list"
  os_stops :: "bool list"

definition errno_EINTR :: int where "errno_EINTR = 4"
definition errno_EIO :: int where "errno_EIO = 5"
definition errno_EBADF :: int where "errno_EBADF = 9"
definition errno_EINVAL :: int where "errno_EINVAL = 22"
definition errno_EPROTO :: int where "errno_EPROTO = 71"
definition errno_EMSGSIZE :: int where "errno_EMSGSIZE = 90"
definition errno_ECONNRESET :: int where "errno_ECONNRESET = 104"
definition errno_ENOBUFS :: int where "errno_ENOBUFS = 105"

definition POLLIN :: "16 word" where "POLLIN = 1"
definition POLL_FAILURE :: "16 word" where "POLL_FAILURE = or 0x8 (or 0x10 0x20)"

definition NLMSG_DONE :: "16 word" where "NLMSG_DONE = 3"
definition NLMSG_OVERRUN :: "16 word" where "NLMSG_OVERRUN = 4"


section \<open>Waiting and receiving\<close>

datatype netlink_wait_status =
    DataReady | WaitStopped | PollFailed | DataFdFailed | StopFdFailed | StopDrainFailed

type_synonym netlink_wait_result = "netlink_wait_status \<times> int"

fun wait_loop ::
  "poll_answer list \<Rightarrow> int list \<Rightarrow> (netlink_wait_result \<times> poll_answer list \<times> int list) option" where
  "wait_loop [] drains = None"
| "wait_loop (PollError e # polls) drains =
     (if e = errno_EINTR then wait_loop polls drains else Some ((PollFailed, e), polls, drains))"
| "wait_loop (PollRevents d t # polls) drains =
     (if and t POLLIN \<noteq> 0 then
        (case drains of
           [] \<Rightarrow> None
         | e # drains' \<Rightarrow> Some ((if e \<noteq> 0 then (StopDrainFailed, e) else (WaitStopped, 0)), polls, drains'))
      else if and t POLL_FAILURE \<noteq> 0 then Some ((StopFdFailed, errno_EIO), polls, drains)
      else if and d POLL_FAILURE \<noteq> 0 then Some ((DataFdFailed, errno_EIO), polls, drains)
      else if and d POLLIN \<noteq> 0 then Some ((DataReady, 0), polls, drains)
      else wait_loop polls drains)"

definition waitForNetlinkDataOrStop :: "int \<Rightarrow> os_script \<Rightarrow> (netlink_wait_result \<times> os_script) option" where
  "waitForNetlinkDataOrStop dataFd os =
     (if dataFd < 0 then Some ((DataFdFailed, errno_EBADF), os)
      else (case wait_loop (os_polls os) (os_drains os) of
              None \<Rightarrow> None
            | Some (r, polls, drains) \<Rightarrow> Some (r, os\<lparr>os_polls := polls, os_drains := drains\<rparr>)))"

datatype netlink_receive_result =
    Received bytes
  | ReceiveFailed int
  | ReceiveClosed int
  | ReceiveTruncated int

fun recv_loop :: "recv_answer list \<Rightarrow> (netlink_receive_result \<times> recv_answer list) option" where
  "recv_loop [] = None"
| "recv_loop (RecvError e # recvs) = (if e = errno_EINTR then recv_loop recvs else Some (ReceiveFailed e, recvs))"
| "recv_loop (RecvData bs trunc # recvs) =
     Some (if trunc then ReceiveTruncated errno_EMSGSIZE
           else if bs = [] then ReceiveClosed errno_ECONNRESET
           else Received bs, recvs)"

definition receiveNetlinkDatagram :: "nat \<Rightarrow> os_script \<Rightarrow> (netlink_receive_result \<times> os_script) option" where
  "receiveNetlinkDatagram bufferSize os =
     (if bufferSize = 0 then Some (ReceiveFailed errno_EINVAL, os)
      else (case recv_loop (os_recvs os) of
              None \<Rightarrow> None
            | Some (r, recvs) \<Rightarrow> Some (r, os\<lparr>os_recvs := recvs\<rparr>)))"


section \<open>The live event loop\<close>

datatype loop_status =
    LoopStopped | LoopPollFailed | LoopReceiveFailed | LoopMalformedMessage | LoopTruncatedMessage
  | LoopSocketOverrun | LoopStopDrainFailed

type_synonym loop_result = "loop_status \<times> int"
type_synonym 's message_handler = "bytes \<Rightarrow> 's \<Rightarrow> read_fault + 's"

definition liveReceiveBufferSize :: nat where "liveReceiveBufferSize = 64 * 1024"

fun mapWaitFailure :: "netlink_wait_result \<Rightarrow> loop_result" where
  "mapWaitFailure (StopDrainFailed, e) = (LoopStopDrainFailed, e)"
| "mapWaitFailure (PollFailed, e) = (LoopPollFailed, e)"
| "mapWaitFailure (DataFdFailed, e) = (LoopPollFailed, e)"
| "mapWaitFailure (StopFdFailed, e) = (LoopPollFailed, e)"
| "mapWaitFailure (WaitStopped, e) = (LoopStopped, 0)"
| "mapWaitFailure (DataReady, e) = (LoopPollFailed, errno_EIO)"

text \<open>
  The loop over one datagram: \<open>NLMSG_OK\<close>, the handler, \<open>NLMSG_NEXT\<close>. Its result is the terminal result
  that \<open>receiveAndDispatch\<close> reports, or \<open>None\<close> where it returns true.
\<close>

function dispatch_loop ::
  "'s message_handler \<Rightarrow> bytes \<Rightarrow> nat \<Rightarrow> int \<Rightarrow> 's \<Rightarrow> read_fault + loop_result option \<times> 's" where
  "dispatch_loop handler mem off remaining s =
     (let finished = Inr (if remaining \<noteq> 0 then Some (LoopMalformedMessage, errno_EPROTO) else None, s)
      in if remaining < 16 then finished
         else rbind (nlmsg_len (drop off mem)) (\<lambda>len.
           if unat len < 16 \<or> nat remaining < unat len then finished
           else rbind (nlmsg_type (drop off mem)) (\<lambda>type.
             if type = NLMSG_OVERRUN then Inr (Some (LoopSocketOverrun, errno_ENOBUFS), s)
             else rbind (handler (drop off mem) s) (\<lambda>s'.
               dispatch_loop handler mem (off + align4 (unat len)) (remaining - int (align4 (unat len))) s'))))"
  by pat_completeness auto

termination
  by (relation "measure (\<lambda>(handler, mem, off, remaining, s). nat remaining)") (auto simp: align4_def)

declare dispatch_loop.simps [simp del]

definition receiveAndDispatch ::
  "'s message_handler \<Rightarrow> os_script \<Rightarrow> 's \<Rightarrow> (read_fault + loop_result option \<times> 's \<times> os_script) option" where
  "receiveAndDispatch handler os s =
     (case receiveNetlinkDatagram liveReceiveBufferSize os of
        None \<Rightarrow> None
      | Some (ReceiveTruncated e, os') \<Rightarrow> Some (Inr (Some (LoopTruncatedMessage, e), s, os'))
      | Some (ReceiveFailed e, os') \<Rightarrow> Some (Inr (Some (LoopReceiveFailed, e), s, os'))
      | Some (ReceiveClosed e, os') \<Rightarrow> Some (Inr (Some (LoopReceiveFailed, e), s, os'))
      | Some (Received bs, os') \<Rightarrow>
          Some (rbind (dispatch_loop handler bs 0 (int (length bs)) s) (\<lambda>(r, s'). Inr (r, s', os'))))"

lemma wait_consumes: "wait_loop polls drains = Some (r, polls', drains') \<Longrightarrow> length polls' < length polls"
  by (induction polls drains rule: wait_loop.induct) (auto split: if_splits list.splits)

lemma wait_os_consumes:
  "waitForNetlinkDataOrStop fd os = Some ((DataReady, e), os') \<Longrightarrow> length (os_polls os') < length (os_polls os)"
  using wait_consumes
  by (auto simp: waitForNetlinkDataOrStop_def split: if_splits option.splits)

lemma receive_keeps_polls: "receiveNetlinkDatagram n os = Some (r, os') \<Longrightarrow> os_polls os' = os_polls os"
  by (auto simp: receiveNetlinkDatagram_def split: if_splits option.splits)

lemma dispatch_keeps_polls:
  "receiveAndDispatch handler os s = Some (Inr (r, s', os')) \<Longrightarrow> os_polls os' = os_polls os"
  using receive_keeps_polls
  by (auto simp: receiveAndDispatch_def split: option.splits netlink_receive_result.splits)

function event_loop_run ::
  "int \<Rightarrow> 's message_handler \<Rightarrow> os_script \<Rightarrow> 's \<Rightarrow> (read_fault + loop_result \<times> 's \<times> os_script) option" where
  "event_loop_run fd handler os s =
     (case os_stops os of
        [] \<Rightarrow> None
      | requested # stops \<Rightarrow>
          (let os0 = os\<lparr>os_stops := stops\<rparr>
           in if requested then Some (Inr ((LoopStopped, 0), s, os0))
              else (case waitForNetlinkDataOrStop fd os0 of
                      None \<Rightarrow> None
                    | Some ((status, e), os1) \<Rightarrow>
                        if status = WaitStopped then Some (Inr ((LoopStopped, 0), s, os1))
                        else if status \<noteq> DataReady then Some (Inr (mapWaitFailure (status, e), s, os1))
                        else (case receiveAndDispatch handler os1 s of
                                None \<Rightarrow> None
                              | Some (Inl fault) \<Rightarrow> Some (Inl fault)
                              | Some (Inr (Some r, s', os2)) \<Rightarrow> Some (Inr (r, s', os2))
                              | Some (Inr (None, s', os2)) \<Rightarrow> event_loop_run fd handler os2 s'))))"
  by pat_completeness auto

termination
proof (relation "measure (\<lambda>(fd, handler, os, s). length (os_polls os))", goal_cases)
  case (2 fd handler os s x xs os0 r os1 status e sum b rr s' os2)
  then show ?case by (auto dest!: dispatch_keeps_polls wait_os_consumes)
qed simp

declare event_loop_run.simps [simp del]


section \<open>Dispatching never faults\<close>

definition handler_safe :: "'s message_handler \<Rightarrow> bool" where
  "handler_safe handler \<longleftrightarrow> (\<forall>mem s. received mem \<longrightarrow> safe (handler mem s))"

text \<open>
  \<open>NLMSG_OK\<close> is what a handler may rely on: a handler that is safe on complete messages is safe on every
  message that the loop hands to it, whatever the datagram holds.
\<close>

lemma received_drop:
  assumes len: "nlmsg_len (drop off mem) = Inr len" "unat len \<le> nat remaining"
    and room: "off + nat remaining \<le> length mem" "16 \<le> remaining"
  shows "received (drop off mem)"
proof -
  have "NLMSG_HDRLEN \<le> length (drop off mem)" using room by (simp add: NLMSG_HDRLEN_def)
  moreover have "unat len \<le> length (drop off mem)" using len(2) room(1) by simp
  ultimately show ?thesis using len(1) by (simp add: received_def)
qed

lemma dispatch_loop_safe:
  "handler_safe handler \<Longrightarrow> (16 \<le> remaining \<longrightarrow> off + nat remaining \<le> length mem) \<Longrightarrow>
   safe (dispatch_loop handler mem off remaining s)"
proof (induction handler mem off remaining s rule: dispatch_loop.induct)
  case (1 handler mem off remaining s)
  show ?case
  proof (cases "remaining < 16")
    case True
    then show ?thesis by (simp add: dispatch_loop.simps[of handler mem off] safe_def)
  next
    case False
    then have room: "off + nat remaining \<le> length mem" using "1.prems" by simp
    have hdr: "NLMSG_HDRLEN \<le> length (drop off mem)" using False room by (simp add: NLMSG_HDRLEN_def)
    have s1: "safe (nlmsg_len (drop off mem))" "safe (nlmsg_type (drop off mem))"
      using hdr unfolding nlmsg_len_def nlmsg_type_def by (intro safe_reads; simp add: NLMSG_HDRLEN_def)+
    show ?thesis
      unfolding dispatch_loop.simps[of handler mem off] Let_def
    proof (intro safe_Inr safe_rbind safe_if s1)
      fix len type
      assume len: "nlmsg_len (drop off mem) = Inr len" "\<not> (unat len < 16 \<or> nat remaining < unat len)"
      have "received (drop off mem)" by (rule received_drop[OF len(1) _ room]) (use len(2) False in auto)
      then show "safe (handler (drop off mem) s)" using "1.prems"(1) by (auto simp: handler_safe_def)
    next
      fix len type s'
      assume len: "\<not> remaining < 16" "nlmsg_len (drop off mem) = Inr len"
          "\<not> (unat len < 16 \<or> nat remaining < unat len)"
          "nlmsg_type (drop off mem) = Inr type" "type \<noteq> NLMSG_OVERRUN" "handler (drop off mem) s = Inr s'"
      show "safe (dispatch_loop handler mem (off + align4 (unat len)) (remaining - int (align4 (unat len))) s')"
        by (rule "1.IH"[OF refl len "1.prems"(1)]) (use room in auto)
    qed
  qed
qed


lemma receiveAndDispatch_safe:
  "handler_safe handler \<Longrightarrow> receiveAndDispatch handler os s \<noteq> Some (Inl fault)"
  using dispatch_loop_safe[of handler _ 0 _ s]
  by (auto simp: receiveAndDispatch_def safe_def rbind_eq_Inl split: option.splits netlink_receive_result.splits)
     (metis Inl_Inr_False add_0 nat_int order_refl)

lemma event_loop_safe:
  "handler_safe handler \<Longrightarrow> event_loop_run fd handler os s \<noteq> Some (Inl fault)"
proof (induction fd handler os s rule: event_loop_run.induct)
  case (1 fd handler os s)
  show ?case
    using 1 receiveAndDispatch_safe[OF "1.prems"]
    by (subst event_loop_run.simps)
       (auto simp: Let_def split: list.splits option.splits sum.splits prod.splits)
qed


section \<open>Complete datagrams\<close>

text \<open>
  A message as the kernel queues it: padded to four bytes, with its length in its header. A datagram
  of such messages is handled message by message, in order, and accepted.
\<close>

definition whole_msg :: "bytes \<Rightarrow> bool" where
  "whole_msg m \<longleftrightarrow> 16 \<le> length m \<and> length m mod 4 = 0 \<and> length m < 2 ^ 31 \<and> take 4 m = le_bytes 4 (length m)"

definition msg_type_of :: "bytes \<Rightarrow> 16 word" where
  "msg_type_of m = word_of_nat (le_nat (take 2 (drop 4 m)))"

fun handle_all :: "'s message_handler \<Rightarrow> bytes list \<Rightarrow> 's \<Rightarrow> read_fault + 's" where
  "handle_all handler [] s = Inr s"
| "handle_all handler (m # ms) s = rbind (handler (m @ concat ms) s) (handle_all handler ms)"

lemma whole_msg_header:
  assumes "whole_msg m"
  shows "nlmsg_len (m @ rest) = Inr (word_of_nat (length m))" "nlmsg_type (m @ rest) = Inr (msg_type_of m)"
    "unat (word_of_nat (length m) :: 32 word) = length m"
proof -
  have m: "16 \<le> length m" "length m < 2 ^ 31" "take 4 m = le_bytes 4 (length m)"
    using assms by (simp_all add: whole_msg_def)
  have "take 4 (m @ rest) = le_bytes 4 (length m)" using m(1,3) by simp
  then have "nlmsg_len (m @ rest) = Inr (word_of_nat (le_nat (le_bytes 4 (length m))))"
    using m(1) by (simp add: nlmsg_len_def read_ok del: le_bytes.simps)
  then show "nlmsg_len (m @ rest) = Inr (word_of_nat (length m))"
    using m(2) by (simp add: le_nat_le_bytes del: le_bytes.simps)
  show "nlmsg_type (m @ rest) = Inr (msg_type_of m)"
    using m(1) by (simp add: nlmsg_type_def msg_type_of_def read_ok)
  show "unat (word_of_nat (length m) :: 32 word) = length m" using m(2) by (simp add: unat_of_nat)
qed

lemma align4_id: "n mod 4 = 0 \<Longrightarrow> align4 n = n"
  by (auto simp: align4_def elim: dvdE[of 4, OF mod_0_imp_dvd])

lemma dispatch_exact:
  assumes "list_all (\<lambda>m. whole_msg m \<and> msg_type_of m \<noteq> NLMSG_OVERRUN) ms"
  shows "dispatch_loop handler (pre @ concat ms) (length pre) (int (length (concat ms))) s
           = rbind (handle_all handler ms s) (\<lambda>s'. Inr (None, s'))"
  using assms
proof (induction ms arbitrary: pre s)
  case Nil
  then show ?case by (simp add: dispatch_loop.simps[of handler])
next
  case (Cons m ms)
  then have w: "whole_msg m" and t: "msg_type_of m \<noteq> NLMSG_OVERRUN" by simp_all
  note hdr = whole_msg_header[OF w]
  have big: "16 \<le> length m" "align4 (length m) = length m" using w by (simp_all add: whole_msg_def align4_id)
  have "dispatch_loop handler (pre @ concat (m # ms)) (length pre) (int (length (concat (m # ms)))) s
      = rbind (handler (m @ concat ms) s) (\<lambda>s'.
          dispatch_loop handler ((pre @ m) @ concat ms) (length (pre @ m)) (int (length (concat ms))) s')"
    by (subst dispatch_loop.simps) (use big t in \<open>simp add: hdr nat_add_distrib\<close>)
  then show ?case using Cons.IH[of "pre @ m"] Cons.prems
    by (cases "handler (m @ concat ms) s") simp_all
qed


section \<open>Invariants of the handler's state\<close>

definition handler_keeps :: "('s \<Rightarrow> bool) \<Rightarrow> 's message_handler \<Rightarrow> bool" where
  "handler_keeps I handler \<longleftrightarrow> (\<forall>mem s s'. I s \<longrightarrow> handler mem s = Inr s' \<longrightarrow> I s')"

lemma dispatch_loop_keeps:
  "handler_keeps I handler \<Longrightarrow> I s \<Longrightarrow> dispatch_loop handler mem off remaining s = Inr (r, s') \<Longrightarrow> I s'"
proof (induction handler mem off remaining s rule: dispatch_loop.induct)
  case (1 handler mem off remaining s)
  note step = "1.prems"(3)[unfolded dispatch_loop.simps[of handler mem off remaining s] Let_def]
  have next_ok: "handler (drop off mem) s = Inr s1 \<Longrightarrow> I s1" for s1
    using "1.prems"(1,2) by (auto simp: handler_keeps_def)
  show ?case
    using step "1.prems"(2) "1.IH"[OF refl _ _ _ _ _ _ "1.prems"(1) next_ok]
    by (auto split: if_splits)
qed

lemma event_loop_keeps:
  "handler_keeps I handler \<Longrightarrow> I s \<Longrightarrow> event_loop_run fd handler os s = Some (Inr (r, s', os')) \<Longrightarrow> I s'"
proof (induction fd handler os s rule: event_loop_run.induct)
  case (1 fd handler os s)
  have d: "receiveAndDispatch handler os1 s = Some (Inr (r', s1, os2)) \<Longrightarrow> I s1" for os1 r' s1 os2
    using dispatch_loop_keeps[OF "1.prems"(1,2)] "1.prems"(2)
    by (auto simp: receiveAndDispatch_def split: option.splits netlink_receive_result.splits)
  note step = "1.prems"(3)[unfolded event_loop_run.simps[of fd handler os s] Let_def]
  show ?case
    using step "1.IH"[OF _ refl _ _ refl refl _ _ _ refl refl refl refl "1.prems"(1) d] "1.prems"(2)
    by (auto dest: d split: list.splits option.splits sum.splits prod.splits if_splits)
qed

end
