(* ===== verification/Netlink_Dump.thy ===== *)
theory Netlink_Dump
  imports Netlink_Io
begin

text \<open>
  \<open>inputs/netlink/dump/NetlinkInitialDump.cpp\<close>: five dump requests in order, each answered by messages that
  carry its sequence number up to \<open>NLMSG_DONE\<close>. The requests sent are kept as a log.
\<close>

datatype dump_status =
    DumpCompleted | DumpCancelled | DumpIntr | DumpSendFailed | DumpPollFailed | DumpReceiveFailed
  | DumpMalformedMessage | DumpKernelError | DumpStopDrainFailed

type_synonym dump_result = "dump_status \<times> int"

definition dump_completed :: "dump_result \<Rightarrow> bool" where
  "dump_completed r \<longleftrightarrow> fst r = DumpCompleted"

definition NLM_F_DUMP_INTR :: "16 word" where "NLM_F_DUMP_INTR = 0x10"
definition NLM_F_REQUEST :: "16 word" where "NLM_F_REQUEST = 0x1"
definition NLM_F_DUMP :: "16 word" where "NLM_F_DUMP = 0x300"
definition RTM_GETLINK :: "16 word" where "RTM_GETLINK = 18"
definition RTM_GETADDR :: "16 word" where "RTM_GETADDR = 22"
definition RTM_GETNEIGH :: "16 word" where "RTM_GETNEIGH = 30"
definition AF_UNSPEC :: "8 word" where "AF_UNSPEC = 0"
definition AF_PACKET :: "8 word" where "AF_PACKET = 17"
definition nlmsgerr_size :: nat where "nlmsgerr_size = 20"
definition dumpReceiveBufferSize :: nat where "dumpReceiveBufferSize = 16 * 1024"

definition positiveKernelError :: "int \<Rightarrow> int" where
  "positiveKernelError error = (if error < 0 then - error else error)"

record dump_request =
  dr_len :: nat
  dr_type :: "16 word"
  dr_flags :: "16 word"
  dr_seq :: "32 word"
  dr_family :: "8 word"

record initial_dump =
  id_nextSequence :: "32 word"
  id_log :: "dump_request list"

definition new_dump :: initial_dump where
  "new_dump = \<lparr>id_nextSequence = 1, id_log = []\<rparr>"

text \<open>The loop over one datagram: a result to return, or \<open>None\<close> to wait for the next datagram.\<close>

function dump_datagram ::
  "'s message_handler \<Rightarrow> 32 word \<Rightarrow> bytes \<Rightarrow> nat \<Rightarrow> int \<Rightarrow> 's \<Rightarrow> read_fault + dump_result option \<times> 's" where
  "dump_datagram handler sequence mem off remaining s =
     (let finished = Inr (if remaining \<noteq> 0 then Some (DumpMalformedMessage, errno_EPROTO) else None, s)
      in if remaining < 16 then finished
         else rbind (nlmsg_len (drop off mem)) (\<lambda>len.
           if unat len < 16 \<or> nat remaining < unat len then finished
           else
             (let continue = dump_datagram handler sequence mem (off + align4 (unat len))
                               (remaining - int (align4 (unat len)))
              in rbind (read_u32 (drop off mem) 8) (\<lambda>nlmsg_seq.
                 if nlmsg_seq \<noteq> sequence then continue s
                 else rbind (nlmsg_type (drop off mem)) (\<lambda>type.
                   if type = NLMSG_DONE then
                     rbind (read_u16 (drop off mem) 6) (\<lambda>msg_flags.
                       Inr (Some (if and msg_flags NLM_F_DUMP_INTR \<noteq> 0 then (DumpIntr, errno_EINTR)
                                  else (DumpCompleted, 0)), s))
                   else if type = NLMSG_ERROR then
                     (if unat len < NLMSG_HDRLEN + nlmsgerr_size
                      then Inr (Some (DumpMalformedMessage, errno_EPROTO), s)
                      else rbind (read_u32 (drop off mem) NLMSG_HDRLEN) (\<lambda>error.
                        if error = 0 then continue s
                        else Inr (Some (DumpKernelError, positiveKernelError (sint error)), s)))
                   else if type = NLMSG_OVERRUN then Inr (Some (DumpReceiveFailed, errno_ENOBUFS), s)
                   else rbind (handler (drop off mem) s) continue)))))"
  by pat_completeness auto

termination
  by (relation "measure (\<lambda>(handler, sequence, mem, off, remaining, s). nat remaining)") (auto simp: align4_def)

declare dump_datagram.simps [simp del]

fun wait_dump_failure :: "netlink_wait_result \<Rightarrow> dump_result" where
  "wait_dump_failure (WaitStopped, e) = (DumpCancelled, 0)"
| "wait_dump_failure (StopDrainFailed, e) = (DumpStopDrainFailed, e)"
| "wait_dump_failure (status, e) = (DumpPollFailed, e)"

function readDumpResponses ::
  "int \<Rightarrow> 's message_handler \<Rightarrow> 32 word \<Rightarrow> os_script \<Rightarrow> 's \<Rightarrow> (read_fault + dump_result \<times> 's \<times> os_script) option" where
  "readDumpResponses fd handler sequence os s =
     (case waitForNetlinkDataOrStop fd os of
        None \<Rightarrow> None
      | Some ((status, e), os1) \<Rightarrow>
          if status \<noteq> DataReady then Some (Inr (wait_dump_failure (status, e), s, os1))
          else
            (case receiveNetlinkDatagram dumpReceiveBufferSize os1 of
               None \<Rightarrow> None
             | Some (ReceiveTruncated e, os2) \<Rightarrow> Some (Inr ((DumpMalformedMessage, e), s, os2))
             | Some (ReceiveFailed e, os2) \<Rightarrow> Some (Inr ((DumpReceiveFailed, e), s, os2))
             | Some (ReceiveClosed e, os2) \<Rightarrow> Some (Inr ((DumpReceiveFailed, e), s, os2))
             | Some (Received bs, os2) \<Rightarrow>
                 (case dump_datagram handler sequence bs 0 (int (length bs)) s of
                    Inl fault \<Rightarrow> Some (Inl fault)
                  | Inr (Some r, s') \<Rightarrow> Some (Inr (r, s', os2))
                  | Inr (None, s') \<Rightarrow> readDumpResponses fd handler sequence os2 s')))"
  by pat_completeness auto

termination
proof (relation "measure (\<lambda>(fd, handler, sequence, os, s). length (os_polls os))", goal_cases)
  case 1
  then show ?case by simp
qed (auto dest!: receive_keeps_polls wait_os_consumes)

declare readDumpResponses.simps [simp del]

text \<open>The \<open>send\<close> loop.\<close>

fun send_loop :: "nat \<Rightarrow> send_answer list \<Rightarrow> (dump_result option \<times> send_answer list) option" where
  "send_loop len [] = None"
| "send_loop len (SentBytes n # sends) = Some (if n = len then None else Some (DumpSendFailed, errno_EIO), sends)"
| "send_loop len (SendError e # sends) =
     (if e = errno_EINTR then send_loop len sends else Some (Some (DumpSendFailed, e), sends))"

definition requestDump ::
  "int \<Rightarrow> 's message_handler \<Rightarrow> nat \<Rightarrow> 16 word \<Rightarrow> 8 word \<Rightarrow> initial_dump \<Rightarrow> os_script \<Rightarrow> 's
     \<Rightarrow> (read_fault + dump_result \<times> 's \<times> initial_dump \<times> os_script) option" where
  "requestDump fd handler messageSize type family d os s =
     (let sequence = id_nextSequence d;
          request = \<lparr>dr_len = NLMSG_HDRLEN + messageSize, dr_type = type, dr_flags = or NLM_F_REQUEST NLM_F_DUMP,
                     dr_seq = sequence, dr_family = family\<rparr>;
          d' = d\<lparr>id_nextSequence := sequence + 1, id_log := id_log d @ [request]\<rparr>
      in case send_loop (dr_len request) (os_sends os) of
           None \<Rightarrow> None
         | Some (Some r, sends) \<Rightarrow> Some (Inr (r, s, d', os\<lparr>os_sends := sends\<rparr>))
         | Some (None, sends) \<Rightarrow>
             (case readDumpResponses fd handler sequence (os\<lparr>os_sends := sends\<rparr>) s of
                None \<Rightarrow> None
              | Some (Inl fault) \<Rightarrow> Some (Inl fault)
              | Some (Inr (r, s', os')) \<Rightarrow> Some (Inr (r, s', d', os'))))"

fun run_requests ::
  "int \<Rightarrow> 's message_handler \<Rightarrow> (nat \<times> 16 word \<times> 8 word) list \<Rightarrow> initial_dump \<Rightarrow> os_script \<Rightarrow> 's
     \<Rightarrow> (read_fault + dump_result \<times> 's \<times> initial_dump \<times> os_script) option" where
  "run_requests fd handler [] d os s = Some (Inr ((DumpCompleted, 0), s, d, os))"
| "run_requests fd handler ((msgSize, type, family) # reqs) d os s =
     (case requestDump fd handler msgSize type family d os s of
        None \<Rightarrow> None
      | Some (Inl fault) \<Rightarrow> Some (Inl fault)
      | Some (Inr (r, s', d', os')) \<Rightarrow>
          if \<not> dump_completed r then Some (Inr (r, s', d', os'))
          else if reqs = [] then Some (Inr (r, s', d', os'))
          else run_requests fd handler reqs d' os' s')"

definition dump_requests :: "(nat \<times> 16 word \<times> 8 word) list" where
  "dump_requests =
     [(16, RTM_GETLINK, AF_PACKET), (8, RTM_GETADDR, word_of_int AF_INET), (8, RTM_GETADDR, word_of_int AF_INET6),
      (12, RTM_GETNEIGH, AF_UNSPEC), (12, RTM_GETNEIGH, word_of_int AF_BRIDGE)]"

definition initial_dump_run ::
  "int \<Rightarrow> 's message_handler \<Rightarrow> os_script \<Rightarrow> 's
     \<Rightarrow> (read_fault + dump_result \<times> 's \<times> initial_dump \<times> os_script) option" where
  "initial_dump_run fd handler os s = run_requests fd handler dump_requests new_dump os s"


section \<open>The dump never faults\<close>

lemma dump_datagram_safe:
  "handler_safe handler \<Longrightarrow> (16 \<le> remaining \<longrightarrow> off + nat remaining \<le> length mem) \<Longrightarrow>
   safe (dump_datagram handler sequence mem off remaining s)"
proof (induction handler sequence mem off remaining s rule: dump_datagram.induct)
  case (1 handler sequence mem off remaining s)
  show ?case
  proof (cases "remaining < 16")
    case True
    then show ?thesis by (simp add: dump_datagram.simps[of handler sequence mem off] safe_def)
  next
    case False
    then have room: "off + nat remaining \<le> length mem" using "1.prems" by simp
    have hdr: "16 \<le> length (drop off mem)" using False room by simp
    have s1: "safe (nlmsg_len (drop off mem))" "safe (nlmsg_type (drop off mem))" "safe (read_u32 (drop off mem) 8)"
      "safe (read_u16 (drop off mem) 6)"
      using hdr unfolding nlmsg_len_def nlmsg_type_def by (intro safe_reads; simp)+
    have ih: "safe (dump_datagram handler sequence mem (off + align4 (unat len)) (remaining - int (align4 (unat len))) s')"
      if "nlmsg_len (drop off mem) = Inr len" "\<not> (unat len < 16 \<or> nat remaining < unat len)" for len s'
      by (rule "1.IH"[OF refl False that "1.prems"(1)]) (use room in auto)
    have whole: "received (drop off mem)"
      if "nlmsg_len (drop off mem) = Inr len" "\<not> (unat len < 16 \<or> nat remaining < unat len)" for len
      by (rule received_drop[OF that(1) _ room]) (use that(2) False in auto)
    have err: "safe (read_u32 (drop off mem) NLMSG_HDRLEN)"
      if "nlmsg_len (drop off mem) = Inr len" "\<not> (unat len < 16 \<or> nat remaining < unat len)"
        "\<not> unat len < NLMSG_HDRLEN + nlmsgerr_size" for len
      using whole[OF that(1,2)] that(1,3) by (intro safe_reads) (auto simp: received_def nlmsgerr_size_def)
    have h: "safe (handler (drop off mem) s)"
      if "nlmsg_len (drop off mem) = Inr len" "\<not> (unat len < 16 \<or> nat remaining < unat len)" for len
      using whole[OF that] "1.prems"(1) by (simp add: handler_safe_def)
    show ?thesis
      by (subst dump_datagram.simps, unfold Let_def, intro safe_Inr safe_rbind safe_if s1)
         (blast intro: ih err h)+
  qed
qed


lemma readDumpResponses_safe:
  "handler_safe handler \<Longrightarrow> readDumpResponses fd handler sequence os s \<noteq> Some (Inl fault)"
proof (induction fd handler sequence os s rule: readDumpResponses.induct)
  case (1 fd handler sequence os s)
  have "dump_datagram handler sequence bs 0 (int (length bs)) s \<noteq> Inl fault'" for bs fault'
    using dump_datagram_safe[OF "1.prems", of "int (length bs)" 0 bs sequence s] by (auto simp: safe_def)
  then show ?case
    using 1
    by (subst readDumpResponses.simps)
       (auto split: option.splits sum.splits prod.splits netlink_receive_result.splits)
qed

lemma requestDump_safe:
  "handler_safe handler \<Longrightarrow> requestDump fd handler n type family d os s \<noteq> Some (Inl fault)"
  using readDumpResponses_safe[of handler fd "id_nextSequence d" _ s fault]
  by (auto simp: requestDump_def Let_def split: option.splits sum.splits prod.splits)

lemma run_requests_safe:
  "handler_safe handler \<Longrightarrow> run_requests fd handler reqs d os s \<noteq> Some (Inl fault)"
  by (induction fd handler reqs d os s rule: run_requests.induct)
     (auto simp: requestDump_safe split: option.splits sum.splits prod.splits)


section \<open>What is requested\<close>

definition request_of :: "32 word \<Rightarrow> nat \<times> 16 word \<times> 8 word \<Rightarrow> dump_request" where
  "request_of seq r = (case r of (n, type, family) \<Rightarrow>
     \<lparr>dr_len = NLMSG_HDRLEN + n, dr_type = type, dr_flags = or NLM_F_REQUEST NLM_F_DUMP, dr_seq = seq, dr_family = family\<rparr>)"

fun number_requests :: "32 word \<Rightarrow> (nat \<times> 16 word \<times> 8 word) list \<Rightarrow> dump_request list" where
  "number_requests seq [] = []"
| "number_requests seq (r # rs) = request_of seq r # number_requests (seq + 1) rs"

lemma requestDump_log:
  "requestDump fd handler n type family d os s = Some (Inr (r, s', d', os')) \<Longrightarrow>
     id_log d' = id_log d @ [request_of (id_nextSequence d) (n, type, family)] \<and>
     id_nextSequence d' = id_nextSequence d + 1"
  by (auto simp: requestDump_def Let_def request_of_def split: option.splits sum.splits prod.splits)

lemma run_requests_log:
  "run_requests fd handler reqs d os s = Some (Inr (r, s', d', os')) \<Longrightarrow>
     \<exists>k \<le> length reqs. id_log d' = id_log d @ number_requests (id_nextSequence d) (take k reqs) \<and>
       (dump_completed r \<longrightarrow> k = length reqs)"
proof (induction fd handler reqs d os s rule: run_requests.induct)
  case (1 fd handler d os s)
  then show ?case by (auto intro: exI[of _ 0])
next
  case (2 fd handler n type family reqs d os s)
  obtain r1 s1 d1 os1 where q: "requestDump fd handler n type family d os s = Some (Inr (r1, s1, d1, os1))"
    using "2.prems" by (auto split: option.splits sum.splits prod.splits)
  note log = requestDump_log[OF q]
  show ?case
  proof (cases "dump_completed r1 \<and> reqs \<noteq> []")
    case True
    then have "run_requests fd handler reqs d1 os1 s1 = Some (Inr (r, s', d', os'))"
      using "2.prems" q by simp
    then obtain k where "k \<le> length reqs" "id_log d' = id_log d1 @ number_requests (id_nextSequence d1) (take k reqs)"
      "dump_completed r \<longrightarrow> k = length reqs"
      using "2.IH"[OF q refl refl refl refl] True by auto
    then show ?thesis using log by (intro exI[of _ "Suc k"]) simp
  next
    case False
    then have "d' = d1" "r = r1" using "2.prems" q by (auto split: if_splits)
    then show ?thesis using False log by (intro exI[of _ 1]) auto
  qed
qed


section \<open>What is forwarded\<close>

definition msg_seq_of :: "bytes \<Rightarrow> 32 word" where
  "msg_seq_of m = word_of_nat (le_nat (take 4 (drop 8 m)))"

definition msg_flags_of :: "bytes \<Rightarrow> 16 word" where
  "msg_flags_of m = word_of_nat (le_nat (take 2 (drop 6 m)))"

text \<open>
  The messages of a datagram that belong to the dump, in order, each given to the handler, and then
  the end of the dump.
\<close>

definition payload_msg :: "32 word \<Rightarrow> bytes \<Rightarrow> bool" where
  "payload_msg sequence m \<longleftrightarrow> whole_msg m \<and> msg_seq_of m = sequence \<and>
     msg_type_of m \<notin> {NLMSG_DONE, NLMSG_ERROR, NLMSG_OVERRUN}"

definition foreign_msg :: "32 word \<Rightarrow> bytes \<Rightarrow> bool" where
  "foreign_msg sequence m \<longleftrightarrow> whole_msg m \<and> msg_seq_of m \<noteq> sequence"

definition done_msg :: "32 word \<Rightarrow> bytes \<Rightarrow> bool" where
  "done_msg sequence m \<longleftrightarrow> whole_msg m \<and> msg_seq_of m = sequence \<and> msg_type_of m = NLMSG_DONE"

fun handle_own :: "32 word \<Rightarrow> 's message_handler \<Rightarrow> bytes list \<Rightarrow> bytes \<Rightarrow> 's \<Rightarrow> read_fault + 's" where
  "handle_own sequence handler [] rest s = Inr s"
| "handle_own sequence handler (m # ms) rest s =
     (if msg_seq_of m \<noteq> sequence then handle_own sequence handler ms rest s
      else rbind (handler (m @ concat ms @ rest) s) (handle_own sequence handler ms rest))"

lemma whole_msg_seq:
  assumes "whole_msg m"
  shows "read_u32 (m @ rest) 8 = Inr (msg_seq_of m)" "read_u16 (m @ rest) 6 = Inr (msg_flags_of m)"
  using assms by (simp_all add: whole_msg_def read_ok msg_seq_of_def msg_flags_of_def)

lemma dump_datagram_step:
  assumes w: "whole_msg m" and ne: "msg_seq_of m = sequence \<longrightarrow> msg_type_of m \<noteq> NLMSG_ERROR"
  shows "dump_datagram handler sequence (pre @ m @ rest) (length pre) (int (length m + length rest)) s =
    (if msg_seq_of m \<noteq> sequence then
       dump_datagram handler sequence ((pre @ m) @ rest) (length (pre @ m)) (int (length rest)) s
     else if msg_type_of m = NLMSG_DONE then
       Inr (Some (if and (msg_flags_of m) NLM_F_DUMP_INTR \<noteq> 0 then (DumpIntr, errno_EINTR) else (DumpCompleted, 0)), s)
     else if msg_type_of m = NLMSG_OVERRUN then Inr (Some (DumpReceiveFailed, errno_ENOBUFS), s)
     else rbind (handler (m @ rest) s)
            (dump_datagram handler sequence ((pre @ m) @ rest) (length (pre @ m)) (int (length rest))))"
proof -
  have big: "16 \<le> length m" "align4 (length m) = length m" using w by (simp_all add: whole_msg_def align4_id)
  show ?thesis
    using big ne
    by (subst dump_datagram.simps)
       (simp add: whole_msg_header[OF w] whole_msg_seq[OF w] Let_def nat_add_distrib)
qed

lemma dump_datagram_exact:
  assumes "list_all (\<lambda>m. payload_msg sequence m \<or> foreign_msg sequence m) ms" "done_msg sequence d"
  shows "dump_datagram handler sequence (pre @ concat ms @ d @ rest) (length pre) (int (length (concat ms @ d @ rest))) s
     = rbind (handle_own sequence handler ms (d @ rest) s) (\<lambda>s'.
         Inr (Some (if and (msg_flags_of d) NLM_F_DUMP_INTR \<noteq> 0 then (DumpIntr, errno_EINTR)
                    else (DumpCompleted, 0)), s'))"
  using assms(1)
proof (induction ms arbitrary: pre s)
  case Nil
  have d: "whole_msg d" "msg_seq_of d = sequence" "msg_type_of d = NLMSG_DONE"
    using assms(2) by (simp_all add: done_msg_def)
  have "msg_seq_of d = sequence \<longrightarrow> msg_type_of d \<noteq> NLMSG_ERROR" using d by (simp add: NLMSG_DONE_def NLMSG_ERROR_def)
  from dump_datagram_step[OF d(1) this, of handler pre rest s] show ?case using d by simp
next
  case (Cons m ms)
  have w: "whole_msg m" using Cons.prems by (auto simp: payload_msg_def foreign_msg_def)
  have step: "dump_datagram handler sequence (pre @ concat (m # ms) @ d @ rest) (length pre)
      (int (length (concat (m # ms) @ d @ rest))) s
    = (if msg_seq_of m \<noteq> sequence then
         dump_datagram handler sequence ((pre @ m) @ concat ms @ d @ rest) (length (pre @ m)) (int (length (concat ms @ d @ rest))) s
       else rbind (handler (m @ concat ms @ d @ rest) s)
         (dump_datagram handler sequence ((pre @ m) @ concat ms @ d @ rest) (length (pre @ m)) (int (length (concat ms @ d @ rest)))))"
  proof -
    have "msg_seq_of m = sequence \<longrightarrow> msg_type_of m \<notin> {NLMSG_DONE, NLMSG_ERROR, NLMSG_OVERRUN}"
      using Cons.prems by (auto simp: payload_msg_def foreign_msg_def)
    then show ?thesis
      using dump_datagram_step[OF w, of sequence handler pre "concat ms @ d @ rest" s] by simp
  qed
  show ?case unfolding step using Cons.IH[of "pre @ m"] Cons.prems
    by (cases "handler (m @ concat ms @ d @ rest) s") simp_all
qed


section \<open>Invariants of the handler's state\<close>

lemma dump_datagram_keeps:
  "handler_keeps I handler \<Longrightarrow> I s \<Longrightarrow> dump_datagram handler sequence mem off remaining s = Inr (r, s') \<Longrightarrow> I s'"
proof (induction handler sequence mem off remaining s rule: dump_datagram.induct)
  case (1 handler sequence mem off remaining s)
  note step = "1.prems"(3)[unfolded dump_datagram.simps[of handler sequence mem off remaining s] Let_def]
  have next_ok: "handler (drop off mem) s = Inr s1 \<Longrightarrow> I s1" for s1
    using "1.prems"(1,2) by (auto simp: handler_keeps_def)
  have ih: "I s'" if "\<not> remaining < 16" "nlmsg_len (drop off mem) = Inr len"
    "\<not> (unat len < 16 \<or> nat remaining < unat len)" "I s1"
    "dump_datagram handler sequence mem (off + align4 (unat len)) (remaining - int (align4 (unat len))) s1 = Inr (r, s')"
    for len s1
    by (rule "1.IH"[OF refl that(1,2,3) "1.prems"(1) that(4,5)])
  show ?case
    using step "1.prems"(2) by (auto split: if_splits dest: ih next_ok)
qed

lemma readDumpResponses_keeps:
  "handler_keeps I handler \<Longrightarrow> I s \<Longrightarrow> readDumpResponses fd handler sequence os s = Some (Inr (r, s', os')) \<Longrightarrow> I s'"
proof (induction fd handler sequence os s rule: readDumpResponses.induct)
  case (1 fd handler sequence os s)
  note step = "1.prems"(3)[unfolded readDumpResponses.simps[of fd handler sequence os s]]
  note d = dump_datagram_keeps[OF "1.prems"(1,2)]
  show ?case
    using step "1.IH"[OF _ refl refl _ _ refl _ _ refl refl "1.prems"(1) d] "1.prems"(2)
    by (auto dest: d split: list.splits option.splits sum.splits prod.splits if_splits netlink_receive_result.splits)
qed

lemma requestDump_keeps:
  "handler_keeps I handler \<Longrightarrow> I s \<Longrightarrow> requestDump fd handler n type family d os s = Some (Inr (r, s', d', os')) \<Longrightarrow> I s'"
  by (auto simp: requestDump_def Let_def dest: readDumpResponses_keeps
      split: option.splits sum.splits prod.splits)

lemma run_requests_keeps:
  "handler_keeps I handler \<Longrightarrow> I s \<Longrightarrow> run_requests fd handler reqs d os s = Some (Inr (r, s', d', os')) \<Longrightarrow> I s'"
proof (induction fd handler reqs d os s rule: run_requests.induct)
  case (2 fd handler n type family reqs d os s)
  obtain r1 s1 d1 os1 where q: "requestDump fd handler n type family d os s = Some (Inr (r1, s1, d1, os1))"
    using "2.prems"(3) by (auto split: option.splits sum.splits prod.splits)
  have s1: "I s1" by (rule requestDump_keeps[OF "2.prems"(1,2) q])
  show ?case
    using "2.prems"(3) q s1 "2.IH"[OF q refl refl refl refl _ _ "2.prems"(1) s1] by (auto split: if_splits)
qed simp

end
