(* ===== verification/Netlink_Mapper.thy ===== *)
theory Netlink_Mapper
  imports Netlink_Utils
begin

text \<open>
  \<open>service/NetlinkObservationMapper.cpp\<close>: events of the monitor to observations of the model, and the
  callbacks that hand them to the sinks of the runtime.
\<close>

definition NUD_INCOMPLETE :: "16 word" where "NUD_INCOMPLETE = 0x01"
definition NUD_REACHABLE :: "16 word" where "NUD_REACHABLE = 0x02"
definition NUD_STALE :: "16 word" where "NUD_STALE = 0x04"
definition NUD_DELAY :: "16 word" where "NUD_DELAY = 0x08"
definition NUD_PROBE :: "16 word" where "NUD_PROBE = 0x10"
definition NUD_FAILED :: "16 word" where "NUD_FAILED = 0x20"

definition nudToReachability :: "16 word \<Rightarrow> neighbor_reachability" where
  "nudToReachability nudState =
     (if nudState = NUD_INCOMPLETE then Incomplete
      else if nudState = NUD_REACHABLE then Reachable
      else if nudState = NUD_STALE then Stale
      else if nudState = NUD_DELAY then Delay
      else if nudState = NUD_PROBE then Probe
      else if nudState = NUD_FAILED then Failed
      else if nudState = NUD_NOARP then NoArp
      else if nudState = NUD_PERMANENT then Permanent
      else ReachUnknown)"

definition fdbToEntryKind :: "fdb_event \<Rightarrow> fdb_entry_kind" where
  "fdbToEntryKind e = (if fe_local e then Local else if fe_permanent e then Static else Dynamic)"

definition toObsEvent :: "bool \<Rightarrow> observation_event" where
  "toObsEvent present = (if present then Present else RemovedObs)"

definition makeCidr :: "interface_ip_event \<Rightarrow> string" where
  "makeCidr e = ie_address e @ ''/'' @ decimal (unat (ie_prefixLen e))"

definition toLinkObservation :: "link_event \<Rightarrow> time_point \<Rightarrow> link_observation" where
  "toLinkObservation e observedAt =
     \<lparr>lo_observedAt = observedAt, lo_ifindex = le_ifindex e, lo_ifname = le_ifname e, lo_mac = le_mac e,
      lo_adminUp = le_adminUp e, lo_running = le_running e, lo_operstate = decimal (unat (le_operState e)),
      lo_masterIfname = le_masterIfname e, lo_event = toObsEvent (le_present e)\<rparr>"

definition toAddressObservation :: "interface_ip_event \<Rightarrow> time_point \<Rightarrow> address_observation" where
  "toAddressObservation e observedAt =
     \<lparr>ao_observedAt = observedAt, ao_ifname = ie_ifname e, ao_event = toObsEvent (ie_present e),
      ao_family = ie_family e, ao_cidr = makeCidr e\<rparr>"

definition toNeighborObservation :: "neighbor_event \<Rightarrow> time_point \<Rightarrow> neighbor_observation" where
  "toNeighborObservation e observedAt =
     \<lparr>no_observedAt = observedAt, no_ifname = ne_ifname e, no_event = toObsEvent (ne_present e),
      no_family = ne_family e, no_mac = ne_mac e, no_ip = ne_ip e,
      no_reachability = nudToReachability (ne_nudState e)\<rparr>"

definition toFdbObservation :: "fdb_event \<Rightarrow> time_point \<Rightarrow> fdb_observation" where
  "toFdbObservation e observedAt =
     \<lparr>fo_observedAt = observedAt, fo_portIfname = fe_ifname e, fo_event = toObsEvent (fe_present e),
      fo_mac = fe_mac e, fo_entryKind = fdbToEntryKind e\<rparr>"


section \<open>Callbacks\<close>

text \<open>What the monitor reports, and what the sinks receive. A sink that is not set receives nothing.\<close>

datatype monitor_output =
    OutLink link_event
  | OutIp interface_ip_event
  | OutFdb fdb_event
  | OutNeighbor neighbor_event
  | OutDevice device_event

datatype sink_call =
    SinkLink link_observation
  | SinkAddress address_observation
  | SinkNeighbor neighbor_observation
  | SinkFdb fdb_observation
  | SinkLinkStateForLldp string bool

record observation_sinks =
  sk_onLink :: bool
  sk_onAddress :: bool
  sk_onNeighbor :: bool
  sk_onFdb :: bool
  sk_onLinkStateForLldp :: bool

fun makeCallbacks :: "observation_sinks \<Rightarrow> time_point \<Rightarrow> monitor_output \<Rightarrow> sink_call list" where
  "makeCallbacks sinks now (OutLink e) =
     (if sk_onLink sinks then [SinkLink (toLinkObservation e now)] else []) @
     (if sk_onLinkStateForLldp sinks then [SinkLinkStateForLldp (le_ifname e) (le_present e \<and> le_running e)] else [])"
| "makeCallbacks sinks now (OutIp e) =
     (if sk_onAddress sinks then [SinkAddress (toAddressObservation e now)] else [])"
| "makeCallbacks sinks now (OutFdb e) = (if sk_onFdb sinks then [SinkFdb (toFdbObservation e now)] else [])"
| "makeCallbacks sinks now (OutNeighbor e) =
     (if sk_onNeighbor sinks then [SinkNeighbor (toNeighborObservation e now)] else [])"
| "makeCallbacks sinks now (OutDevice e) = []"


section \<open>Facts\<close>

text \<open>The kernel reports one state bit; a combination of bits is not recognised.\<close>

lemma nud_known:
  "nudToReachability s \<noteq> ReachUnknown \<longleftrightarrow> s \<in> {0x01, 0x02, 0x04, 0x08, 0x10, 0x20, 0x40, 0x80}"
  by (simp add: nudToReachability_def NUD_INCOMPLETE_def NUD_REACHABLE_def NUD_STALE_def NUD_DELAY_def
      NUD_PROBE_def NUD_FAILED_def NUD_NOARP_def NUD_PERMANENT_def)

lemma toObsEvent_inj [simp]: "toObsEvent a = toObsEvent b \<longleftrightarrow> a = b"
  by (simp add: toObsEvent_def)

lemma toObsEvent_Present [simp]: "toObsEvent a = Present \<longleftrightarrow> a"
  by (simp add: toObsEvent_def)

end
