(* ===== verification/Netlink_Monitor.thy ===== *)
theory Netlink_Monitor
  imports Netlink_State Netlink_Dump Netlink_Mapper
begin

text \<open>
  \<open>inputs/netlink/NetlinkNetworkMonitor.cpp\<close>: the callbacks that run each parsed event through the
  deduplicating state, and the lifecycle of the monitor. The \<open>LifecycleCoordinator\<close>, the \<open>ManagedWorker\<close> and
  the construction of sockets and event descriptors are not part of the repository: what they answer
  during one call is an argument of that call. The live worker runs \<open>event_loop_run\<close> on the same handler.
\<close>

record monitor =
  mo_state :: netlink_state
  mo_cache :: ifindex_cache
  mo_watched :: "string set"
  mo_resources :: bool
  mo_workerRunning :: bool
  mo_workerFailed :: bool
  mo_redumpInFlight :: bool

definition new_monitor :: "string set \<Rightarrow> monitor" where
  "new_monitor watched = \<lparr>mo_state = new_netlink_state, mo_cache = [], mo_watched = watched, mo_resources = False,
     mo_workerRunning = False, mo_workerFailed = False, mo_redumpInFlight = False\<rparr>"

type_synonym monitor_run = "monitor \<times> monitor_output list"


section \<open>Callbacks\<close>

definition onLinkCallback :: "link_event \<Rightarrow> monitor_run \<Rightarrow> monitor_run" where
  "onLinkCallback event run =
     (case run of (m, outs) \<Rightarrow>
        let (s, changed) = updateLink event (mo_state m)
        in (m\<lparr>mo_state := s\<rparr>, outs @ (case changed of Some e \<Rightarrow> [OutLink e] | None \<Rightarrow> [])))"

definition onIpCallback :: "interface_ip_event \<Rightarrow> monitor_run \<Rightarrow> monitor_run" where
  "onIpCallback event run =
     (case run of (m, outs) \<Rightarrow>
        let (s, changed) = updateAddress event (mo_state m)
        in (m\<lparr>mo_state := s\<rparr>, outs @ (case changed of Some e \<Rightarrow> [OutIp e] | None \<Rightarrow> [])))"

definition watches :: "monitor \<Rightarrow> string \<Rightarrow> bool" where
  "watches m ifname \<longleftrightarrow> mo_watched m = {} \<or> ifname \<in> mo_watched m"

definition onFdbCallback :: "fdb_event \<Rightarrow> monitor_run \<Rightarrow> monitor_run" where
  "onFdbCallback event run =
     (case run of (m, outs) \<Rightarrow>
        if \<not> watches m (fe_ifname event) then (m, outs)
        else (let (s, changed, device) = updateFdb event (mo_state m)
              in (m\<lparr>mo_state := s\<rparr>, outs @ (case device of Some d \<Rightarrow> [OutDevice d] | None \<Rightarrow> []) @
                                        (case changed of Some e \<Rightarrow> [OutFdb e] | None \<Rightarrow> []))))"

definition onNeighCallback :: "neighbor_event \<Rightarrow> monitor_run \<Rightarrow> monitor_run" where
  "onNeighCallback event run =
     (case run of (m, outs) \<Rightarrow>
        if \<not> watches m (ne_ifname event) then (m, outs)
        else (let (s, changed, device) = updateNeighbor event (mo_state m)
              in (m\<lparr>mo_state := s\<rparr>, outs @ (case device of Some d \<Rightarrow> [OutDevice d] | None \<Rightarrow> []) @
                                        (case changed of Some e \<Rightarrow> [OutNeighbor e] | None \<Rightarrow> []))))"

fun on_parsed :: "parsed \<Rightarrow> monitor_run \<Rightarrow> monitor_run" where
  "on_parsed (PLink e) = onLinkCallback e"
| "on_parsed (PIp e) = onIpCallback e"
| "on_parsed (PFdb e) = onFdbCallback e"
| "on_parsed (PNeigh e) = onNeighCallback e"

definition processSingleMessage :: "name_resolver \<Rightarrow> ip_printer \<Rightarrow> monitor_run message_handler" where
  "processSingleMessage indextoname ntop message run =
     (case run of (m, outs) \<Rightarrow>
        rbind (processMessage indextoname ntop message (mo_cache m)) (\<lambda>(events, cache).
          Inr (fold on_parsed events (m\<lparr>mo_cache := cache\<rparr>, outs))))"


section \<open>Lifecycle\<close>

definition closeResources :: "monitor \<Rightarrow> monitor" where
  "closeResources m = m\<lparr>mo_resources := False\<rparr>"

definition rollbackStartup :: "monitor \<Rightarrow> monitor" where
  "rollbackStartup m = (closeResources m)\<lparr>mo_state := netlink_clear (mo_state m), mo_workerFailed := False\<rparr>"

definition rollbackStartupWithWorker :: "monitor \<Rightarrow> monitor" where
  "rollbackStartupWithWorker m = rollbackStartup (m\<lparr>mo_workerRunning := False\<rparr>)"

text \<open>What the coordinator, the worker and the constructors answer during \<open>start\<close>.\<close>

datatype worker_start = WorkerStarted | WorkerAlreadyRunning | WorkerStartThrew

record start_answers =
  sa_begin :: bool
  sa_initThrows :: bool
  sa_dumpThrows :: bool
  sa_stopRequested :: bool
  sa_worker :: worker_start
  sa_workerFailed :: bool
  sa_tryComplete :: bool

definition monitor_start_finish :: "start_answers \<Rightarrow> dump_result \<Rightarrow> monitor \<Rightarrow> bool \<times> monitor" where
  "monitor_start_finish a dumpResult m =
     (if \<not> dump_completed dumpResult then (False, rollbackStartup m)
      else if sa_stopRequested a then (False, rollbackStartup m)
      else (case sa_worker a of
              WorkerStartThrew \<Rightarrow> (False, rollbackStartup m)
            | WorkerAlreadyRunning \<Rightarrow> (False, rollbackStartupWithWorker m)
            | WorkerStarted \<Rightarrow>
                (let m' = m\<lparr>mo_workerRunning := True, mo_workerFailed := sa_workerFailed a\<rparr>
                 in if mo_workerFailed m' then (False, rollbackStartupWithWorker m')
                    else if \<not> sa_tryComplete a then (False, rollbackStartupWithWorker m')
                    else (True, m'))))"

definition monitor_start ::
  "name_resolver \<Rightarrow> ip_printer \<Rightarrow> int \<Rightarrow> start_answers \<Rightarrow> os_script \<Rightarrow> monitor_run
     \<Rightarrow> (read_fault + bool \<times> monitor_run \<times> os_script) option" where
  "monitor_start indextoname ntop dumpFd a os run =
     (case run of (m, outs) \<Rightarrow>
        if \<not> sa_begin a then Some (Inr (False, (m, outs), os))
        else
          (let m1 = m\<lparr>mo_workerFailed := False\<rparr>
           in if sa_initThrows a then Some (Inr (False, (rollbackStartup m1, outs), os))
              else if sa_dumpThrows a then Some (Inr (False, (rollbackStartup m1, outs), os))
              else (case initial_dump_run dumpFd (processSingleMessage indextoname ntop) os
                           (m1\<lparr>mo_resources := True\<rparr>, outs) of
                      None \<Rightarrow> None
                    | Some (Inl fault) \<Rightarrow> Some (Inl fault)
                    | Some (Inr (dumpResult, (m2, outs'), d, os')) \<Rightarrow>
                        (case monitor_start_finish a dumpResult m2 of (ok, m3) \<Rightarrow>
                           Some (Inr (ok, (m3, outs'), os'))))))"

definition monitor_stop :: "bool \<Rightarrow> bool \<Rightarrow> monitor \<Rightarrow> monitor" where
  "monitor_stop onWorkerThread beginStop m =
     (if onWorkerThread then m
      else if \<not> beginStop then m
      else (closeResources (m\<lparr>mo_workerRunning := False, mo_workerFailed := False\<rparr>))
             \<lparr>mo_state := netlink_clear (mo_state m)\<rparr>)"

definition monitor_isRunning :: "bool \<Rightarrow> monitor \<Rightarrow> bool" where
  "monitor_isRunning lifecycleRunning m \<longleftrightarrow> lifecycleRunning \<and> \<not> mo_workerFailed m"

definition requestRedump ::
  "name_resolver \<Rightarrow> ip_printer \<Rightarrow> int \<Rightarrow> bool \<Rightarrow> bool \<Rightarrow> bool \<Rightarrow> os_script \<Rightarrow> monitor_run
     \<Rightarrow> (read_fault + bool \<times> monitor_run \<times> os_script) option" where
  "requestRedump indextoname ntop dumpFd onWorkerThread lifecycleRunning dumpThrows os run =
     (case run of (m, outs) \<Rightarrow>
        if onWorkerThread then Some (Inr (False, (m, outs), os))
        else if \<not> lifecycleRunning then Some (Inr (False, (m, outs), os))
        else if mo_redumpInFlight m then Some (Inr (False, (m, outs), os))
        else if \<not> mo_resources m then Some (Inr (False, (m, outs), os))
        else
          (let m1 = m\<lparr>mo_redumpInFlight := True, mo_state := netlink_clear (mo_state m)\<rparr>
           in if dumpThrows then Some (Inr (False, (m1\<lparr>mo_redumpInFlight := False\<rparr>, outs), os))
              else (case initial_dump_run dumpFd (processSingleMessage indextoname ntop) os (m1, outs) of
                      None \<Rightarrow> None
                    | Some (Inl fault) \<Rightarrow> Some (Inl fault)
                    | Some (Inr (result, (m2, outs'), d, os')) \<Rightarrow>
                        Some (Inr (dump_completed result, (m2\<lparr>mo_redumpInFlight := False\<rparr>, outs'), os')))))"

end
