(* ===== verification/Netlink_Properties.thy ===== *)
theory Netlink_Properties
  imports Netlink_Monitor
begin

text \<open>
  Properties of the netlink input: memory safety of everything that reads received bytes, the parsing
  of messages as the kernel lays them out, the dump protocol, the deduplicating state and the
  lifecycle of the monitor.
\<close>

section \<open>Shared lemmas\<close>

lemma processSingleMessage_safe: "handler_safe (processSingleMessage indextoname ntop)"
proof -
  have "safe (processSingleMessage indextoname ntop mem run)" if "received mem" for mem run
    unfolding processSingleMessage_def
    by (intro safe_case_prod safe_rbind safe_Inr processMessage_safe that)
  then show ?thesis by (simp add: handler_safe_def)
qed

lemma initial_dump_safe:
  "initial_dump_run fd (processSingleMessage indextoname ntop) os run \<noteq> Some (Inl fault)"
  unfolding initial_dump_run_def by (rule run_requests_safe[OF processSingleMessage_safe])

lemma on_parsed_devices_ok: "devices_ok (mo_state (fst run)) \<Longrightarrow> devices_ok (mo_state (fst (on_parsed e run)))"
proof (cases run)
  case (Pair m outs)
  assume ok: "devices_ok (mo_state (fst run))"
  have l: "devices_ok (fst (updateLink ev (mo_state m)))" for ev
    using ok Pair by (auto simp: updateLink_def devices_ok_def Let_def)
  have a: "devices_ok (fst (updateAddress ev (mo_state m)))" for ev
    using ok Pair by (auto simp: updateAddress_def devices_ok_def Let_def)
  have f: "devices_ok (fst (updateFdb ev (mo_state m)))" for ev
    using updateFdb_devices_ok ok Pair by simp
  have n: "devices_ok (fst (updateNeighbor ev (mo_state m)))" for ev
    using updateNeighbor_devices_ok ok Pair by simp
  show ?thesis
    using ok Pair l a f n
    by (cases e) (simp_all add: onLinkCallback_def onIpCallback_def onFdbCallback_def onNeighCallback_def
        case_prod_beta Let_def)
qed

lemma fold_parsed_devices_ok:
  "devices_ok (mo_state (fst run)) \<Longrightarrow> devices_ok (mo_state (fst (fold on_parsed events run)))"
  by (induction events arbitrary: run) (simp_all add: on_parsed_devices_ok)

lemma on_parsed_lifecycle:
  "mo_resources (fst (on_parsed e run)) = mo_resources (fst run)"
  "mo_workerRunning (fst (on_parsed e run)) = mo_workerRunning (fst run)"
  by (cases e; cases run; simp add: onLinkCallback_def onIpCallback_def onFdbCallback_def onNeighCallback_def
        case_prod_beta Let_def)+

lemma fold_parsed_lifecycle:
  "mo_resources (fst (fold on_parsed events run)) = mo_resources (fst run) \<and>
   mo_workerRunning (fst (fold on_parsed events run)) = mo_workerRunning (fst run)"
  by (induction events arbitrary: run) (simp_all add: on_parsed_lifecycle)

lemma processSingleMessage_elim:
  assumes "processSingleMessage indextoname ntop mem run = Inr run'"
  obtains events cache where "run' = fold on_parsed events ((fst run)\<lparr>mo_cache := cache\<rparr>, snd run)"
  using assms by (cases run) (auto simp: processSingleMessage_def)

lemma lifecycle_kept:
  "handler_keeps (\<lambda>run. mo_resources (fst run) \<and> \<not> mo_workerRunning (fst run)) (processSingleMessage indextoname ntop)"
  unfolding handler_keeps_def
  by (clarify, erule processSingleMessage_elim) (simp add: fold_parsed_lifecycle)

lemma devices_kept:
  "handler_keeps (\<lambda>run. devices_ok (mo_state (fst run))) (processSingleMessage indextoname ntop)"
  unfolding handler_keeps_def
  by (clarify, erule processSingleMessage_elim) (simp add: fold_parsed_devices_ok)

lemma processMessage_neigh:
  assumes "type = RTM_NEWNEIGH \<or> type = RTM_DELNEIGH"
  shows "processMessage indextoname ntop (encode_msg type msg_flags seq pid body as @ rest) cache
           = handleNeigh indextoname ntop (encode_msg type msg_flags seq pid body as @ rest) cache"
  using assms by (auto simp: processMessage_def encoded_type netlink_types)


section \<open>Properties\<close>


text \<open>
  (C15) Parsing a neighbour message: a message that announces or deletes a neighbour, laid out as the
  kernel does with any list of attributes, yields the event of its last usable link-layer address and,
  for the two IP families, its last destination of the length of the family; an FDB event for the
  bridge family; and nothing where an attribute is missing or the family is another one. The
  interface is named by the cache, which is asked once.
\<close>

theorem neighbor_message_parsed:
  assumes "msg_ok (ndm_bytes fam ifindex state ft) as" "length ft = 2"
    and "type = RTM_NEWNEIGH \<or> type = RTM_DELNEIGH"
  shows "processMessage indextoname ntop (encode_msg type msg_flags seq pid (ndm_bytes fam ifindex state ft) as @ rest) cache
           = (case ifIndexToName indextoname ifindex cache of (ifname, cache') \<Rightarrow>
                Inr (neighbor_result ntop type (int (unat fam)) state ifname as, cache'))"
  unfolding processMessage_neigh[OF assms(3)]
  by (rule handleNeigh_encoded[OF assms refl])

definition sample_attrs :: "attribute list" where
  "sample_attrs = [(NDA_DST, [10, 0, 0, 7]), (NDA_LLADDR, [2, 0, 0, 0, 0, 0x2a])]"

lemma sample_attrs_ok: "msg_ok (ndm_bytes 2 3 NUD_REACHABLE [0, 1]) sample_attrs"
  by (simp add: msg_ok_def sample_attrs_def attr_ok_def ndm_bytes_def encode_attrs_def encode_attr_def align4_def
      NLMSG_HDRLEN_def)

theorem neighbor_message_parsed_witness:
  "processMessage (\<lambda>_. Some ''eth0'') (\<lambda>f bs. Some ''10.0.0.7'')
     (encode_msg RTM_NEWNEIGH 0 0 0 (ndm_bytes 2 3 NUD_REACHABLE [0, 1]) sample_attrs) []
   = Inr ([PNeigh \<lparr>ne_ifname = ''eth0'', ne_mac = ''02:00:00:00:00:2a'', ne_family = AF_INET, ne_ip = ''10.0.0.7'',
             ne_nudState = NUD_REACHABLE, ne_present = True\<rparr>], [(3, ''eth0'')])"
proof -
  have mac: "formatMacAddress [2, 0, 0, 0, 0, 0x2a] = ''02:00:00:00:00:2a''" by code_simp
  have "RTM_NEWNEIGH = RTM_NEWNEIGH \<or> RTM_NEWNEIGH = RTM_DELNEIGH" by simp
  from neighbor_message_parsed[OF sample_attrs_ok _ this, of "\<lambda>_. Some ''eth0''" "\<lambda>f bs. Some ''10.0.0.7''" 0 0 0 "[]" "[]"]
  show ?thesis
    using mac
    by (simp add: ifIndexToName_def cache_resolve_def neighbor_result_def sample_attrs_def is_lladdr_def is_dst_def
        attribute_types AF_INET_def AF_INET6_def AF_BRIDGE_def formatIpAddress_def)
qed




text \<open>
  The dump takes exactly its own answer: in a datagram of messages with the dump's sequence number
  or another one that ends with the dump's end marker, the messages of the dump are handled once each
  and in order, the others are skipped, and the dump is complete unless the kernel flagged it as
  inconsistent.
\<close>

theorem dump_takes_own_answer:
  assumes "list_all (\<lambda>m. payload_msg sequence m \<or> foreign_msg sequence m) ms" "done_msg sequence d"
  shows "dump_datagram handler sequence (concat ms @ d) 0 (int (length (concat ms @ d))) s
     = rbind (handle_own sequence handler ms d s) (\<lambda>s'.
         Inr (Some (if and (msg_flags_of d) NLM_F_DUMP_INTR \<noteq> 0 then (DumpIntr, errno_EINTR)
                    else (DumpCompleted, 0)), s'))"
  using dump_datagram_exact[OF assms, of handler "[]" "[]" s] by simp

definition sample_done :: bytes where
  "sample_done = [16, 0, 0, 0, 3, 0, 0, 0, 1, 0, 0, 0, 0, 0, 0, 0]"

definition sample_foreign :: bytes where
  "sample_foreign = [16, 0, 0, 0, 28, 0, 0, 0, 9, 0, 0, 0, 0, 0, 0, 0]"

definition sample_own :: bytes where
  "sample_own = [16, 0, 0, 0, 28, 0, 0, 0, 1, 0, 0, 0, 0, 0, 0, 0]"

lemma le_bytes_numeral:
  "le_bytes (numeral k) n = word_of_nat (n mod 256) # le_bytes (pred_numeral k) (n div 256)"
  by (simp only: numeral_eq_Suc[of k] le_bytes.simps)

lemmas sample_messages = sample_done_def sample_foreign_def sample_own_def

theorem dump_takes_own_answer_witness:
  "dump_datagram (\<lambda>m n. Inr (Suc n)) 1 (concat [sample_own, sample_foreign, sample_own] @ sample_done) 0
     (int (length (concat [sample_own, sample_foreign, sample_own] @ sample_done))) 0
   = Inr (Some (DumpCompleted, 0), 2)"
proof -
  have ok: "list_all (\<lambda>m. payload_msg 1 m \<or> foreign_msg 1 m) [sample_own, sample_foreign, sample_own]"
    "done_msg 1 sample_done"
    by (simp_all add: sample_messages payload_msg_def foreign_msg_def done_msg_def whole_msg_def msg_seq_of_def
        msg_type_of_def NLMSG_DONE_def NLMSG_OVERRUN_def NLMSG_ERROR_def le_bytes_numeral)
  have own: "handle_own 1 (\<lambda>m n. Inr (Suc n)) [sample_own, sample_foreign, sample_own] sample_done 0 = Inr 2"
    "and (msg_flags_of sample_done) NLM_F_DUMP_INTR = 0"
    by (simp_all add: sample_messages msg_seq_of_def msg_flags_of_def)
  show ?thesis unfolding dump_takes_own_answer[OF ok] own by simp
qed

text \<open>
  The dump asks for links, IPv4 addresses, IPv6 addresses, neighbours and FDB entries in this order,
  under the sequence numbers one to five; it stops at the first request that does not complete, and
  when it reports completion all five were sent.
\<close>

theorem dump_requests_in_order:
  assumes "initial_dump_run fd handler os s = Some (Inr (r, s', d, os'))"
  shows "\<exists>k \<le> 5. id_log d = number_requests 1 (take k dump_requests) \<and> (dump_completed r \<longrightarrow> k = 5)"
proof -
  have "length dump_requests = 5" by (simp add: dump_requests_def)
  then show ?thesis
    using run_requests_log[OF assms[unfolded initial_dump_run_def]] by (simp add: new_dump_def)
qed

theorem dump_requests_in_order_witness:
  "\<exists>k \<le> 5. id_log (new_dump\<lparr>id_nextSequence := 2, id_log := [request_of 1 (hd dump_requests)]\<rparr>)
     = number_requests 1 (take k dump_requests) \<and> (dump_completed (DumpSendFailed, 5) \<longrightarrow> k = 5)"
proof -
  have "initial_dump_run 3 (\<lambda>m n. Inr (Suc n))
      \<lparr>os_polls = [], os_drains = [], os_recvs = [], os_sends = [SentBytes 7], os_stops = []\<rparr> 0
    = Some (Inr ((DumpSendFailed, 5), 0, new_dump\<lparr>id_nextSequence := 2, id_log := [request_of 1 (hd dump_requests)]\<rparr>,
        \<lparr>os_polls = [], os_drains = [], os_recvs = [], os_sends = [], os_stops = []\<rparr>))"
    by (simp add: initial_dump_run_def dump_requests_def requestDump_def new_dump_def request_of_def
        dump_completed_def errno_EIO_def NLMSG_HDRLEN_def)
  then show ?thesis by (rule dump_requests_in_order)
qed

text \<open>
  (C18) Starting the monitor is all or nothing: a start that was admitted and returns true leaves the
  resources open, the worker running and no failure recorded; one that returns false leaves the
  resources closed, the worker stopped and the state empty.
\<close>

theorem monitor_start_all_or_nothing:
  assumes "monitor_start indextoname ntop fd a os (m, outs) = Some (Inr (ok, (m', outs'), os'))"
    and "sa_begin a" "\<not> mo_workerRunning m"
  shows "(if ok then mo_resources m' \<and> mo_workerRunning m' \<and> \<not> mo_workerFailed m'
          else \<not> mo_resources m' \<and> \<not> mo_workerRunning m' \<and> mo_state m' = new_netlink_state)"
proof -
  let ?h = "processSingleMessage indextoname ntop"
  have f: "if ok then mo_resources m3 \<and> mo_workerRunning m3 \<and> \<not> mo_workerFailed m3
           else \<not> mo_resources m3 \<and> \<not> mo_workerRunning m3 \<and> mo_state m3 = new_netlink_state"
    if "monitor_start_finish a r m2 = (ok, m3)" "mo_resources m2" "\<not> mo_workerRunning m2" for r m2 m3 ok
    using that
    by (auto simp: monitor_start_finish_def rollbackStartupWithWorker_def rollbackStartup_def closeResources_def
        clear_new Let_def split: if_splits worker_start.splits)
  have k: "mo_resources m2 \<and> \<not> mo_workerRunning m2"
    if "initial_dump_run fd ?h os (m\<lparr>mo_workerFailed := False, mo_resources := True\<rparr>, outs) = Some (Inr (r, (m2, o2), d, os2))"
    for r m2 o2 d os2
    using run_requests_keeps[OF lifecycle_kept _ that[unfolded initial_dump_run_def]] assms(3) by simp
  show ?thesis
    using assms f k
    by (auto simp: monitor_start_def rollbackStartup_def closeResources_def clear_new Let_def
        split: if_splits option.splits sum.splits prod.splits)
qed

theorem monitor_start_all_or_nothing_witness:
  "\<not> mo_resources (rollbackStartup (new_monitor {})) \<and> \<not> mo_workerRunning (rollbackStartup (new_monitor {})) \<and>
   mo_state (rollbackStartup (new_monitor {})) = new_netlink_state"
proof -
  let ?a = "\<lparr>sa_begin = True, sa_initThrows = True, sa_dumpThrows = False, sa_stopRequested = False,
     sa_worker = WorkerStarted, sa_workerFailed = False, sa_tryComplete = True\<rparr>"
  let ?os = "\<lparr>os_polls = [], os_drains = [], os_recvs = [], os_sends = [], os_stops = []\<rparr>"
  have "monitor_start (\<lambda>_. None) (\<lambda>_ _. None) 3 ?a ?os (new_monitor {}, [])
      = Some (Inr (False, (rollbackStartup (new_monitor {}), []), ?os))"
    by (simp add: monitor_start_def new_monitor_def)
  from monitor_start_all_or_nothing[OF this] show ?thesis by (simp add: new_monitor_def)
qed

end
