(* ===== verification/Lldp_Source.thy ===== *)
theory Lldp_Source
  imports Lldp_Identity Event_Sourcing "HOL-Library.Word"
begin

text \<open>
  \<open>inputs/lldp\<close>: the neighbour cache (\<open>LldpNeighborCache\<close>), the construction of observations
  (\<open>LldpObservationFactory.h\<close>), the watch supervisor, the source \<open>LldpdSource\<close> and the observer that
  forwards to it. An operation returns the new source and the observations delivered downstream.

  Not part of the repository, and therefore arguments: the lldpctl library (what a watch callback or an
  enumeration reports, and whether reading it throws), the admission gate (whether a lease is
  granted), the lifecycle coordinator, and whether a watch could be built. The readings of
  \<open>steady_clock::now()\<close> within one operation are one argument.
\<close>

section \<open>The neighbour cache\<close>

record cached_lldp_neighbor =
  cn_rawChassisId :: "string option"
  cn_rawPortId :: "string option"
  cn_rawSystemName :: "string option"

type_synonym neighbor_cache_map = "cached_lldp_neighbor umap umap"

record lldp_neighbor_cache =
  nc_byInterface :: neighbor_cache_map
  nc_generation :: "64 word"

definition new_neighbor_cache :: lldp_neighbor_cache where
  "new_neighbor_cache = \<lparr>nc_byInterface = [], nc_generation = 0\<rparr>"

definition cache_apply :: "lldp_observation \<Rightarrow> lldp_neighbor_cache \<Rightarrow> lldp_neighbor_cache \<times> bool" where
  "cache_apply obs c =
     (let key = resolveLldpIdentity (ll_remoteChassisId obs) (ll_remotePortId obs)
      in if key = [] then (c, False)
         else
           (let ifaceCache = (case map_of (nc_byInterface c) (ll_localIfname obs) of Some m \<Rightarrow> m | None \<Rightarrow> []);
                ifaceCache' =
                  (if ll_event obs = RemovedObs then AList.delete key ifaceCache
                   else AList.update key \<lparr>cn_rawChassisId = ll_remoteChassisId obs, cn_rawPortId = ll_remotePortId obs,
                          cn_rawSystemName = ll_remoteSystemName obs\<rparr> ifaceCache)
            in (c\<lparr>nc_byInterface := AList.update (ll_localIfname obs) ifaceCache' (nc_byInterface c),
                  nc_generation := nc_generation c + 1\<rparr>, True)))"

definition flushInterface ::
  "string \<Rightarrow> lldp_neighbor_cache \<Rightarrow> lldp_neighbor_cache \<times> cached_lldp_neighbor list" where
  "flushInterface ifname c =
     (case map_of (nc_byInterface c) ifname of
        None \<Rightarrow> (c, [])
      | Some m \<Rightarrow> (c\<lparr>nc_byInterface := AList.delete ifname (nc_byInterface c),
                      nc_generation := nc_generation c + 1\<rparr>, map snd m))"

definition cache_exchange ::
  "neighbor_cache_map \<Rightarrow> lldp_neighbor_cache \<Rightarrow> lldp_neighbor_cache \<times> neighbor_cache_map" where
  "cache_exchange replacement c =
     (c\<lparr>nc_byInterface := replacement, nc_generation := nc_generation c + 1\<rparr>, nc_byInterface c)"

definition lldp_cache_clear :: "lldp_neighbor_cache \<Rightarrow> lldp_neighbor_cache" where
  "lldp_cache_clear c =
     (if nc_byInterface c = [] then c
      else c\<lparr>nc_byInterface := [], nc_generation := nc_generation c + 1\<rparr>)"

definition cache_snapshot :: "lldp_neighbor_cache \<Rightarrow> neighbor_cache_map \<times> 64 word" where
  "cache_snapshot c = (nc_byInterface c, nc_generation c)"

definition diffRemovedNeighbors ::
  "neighbor_cache_map \<Rightarrow> neighbor_cache_map \<Rightarrow> (string \<times> cached_lldp_neighbor) list" where
  "diffRemovedNeighbors oldCache fresh =
     concat (map (\<lambda>(ifname, neighbors).
       map (\<lambda>(key, entry). (ifname, entry))
         (filter (\<lambda>(key, entry). \<not> (case map_of fresh ifname of
                                        Some m \<Rightarrow> map_of m key \<noteq> None | None \<Rightarrow> False)) neighbors)) oldCache)"

definition makeLldpObservation ::
  "time_point \<Rightarrow> string \<Rightarrow> observation_event \<Rightarrow> cached_lldp_neighbor \<Rightarrow> bool \<Rightarrow> lldp_observation" where
  "makeLldpObservation now ifname event entry keepalive =
     \<lparr>ll_observedAt = now, ll_localIfname = ifname, ll_event = event,
      ll_remoteChassisId = cn_rawChassisId entry, ll_remotePortId = cn_rawPortId entry,
      ll_remoteSystemName = cn_rawSystemName entry, ll_keepalive = keepalive\<rparr>"


section \<open>The watch supervisor\<close>

record watch_supervisor =
  ws_watch :: bool
  ws_stopped :: bool
  ws_watchDied :: bool

definition new_supervisor :: watch_supervisor where
  "new_supervisor = \<lparr>ws_watch = False, ws_stopped = True, ws_watchDied = False\<rparr>"

definition supervisor_start :: "bool \<Rightarrow> watch_supervisor \<Rightarrow> watch_supervisor \<times> bool" where
  "supervisor_start built w =
     (if \<not> built then (w, False)
      else if ws_watch w \<and> \<not> ws_watchDied w then (w, False)
      else (w\<lparr>ws_watch := True, ws_stopped := False, ws_watchDied := False\<rparr>, True))"

definition supervisor_refresh :: "bool \<Rightarrow> watch_supervisor \<Rightarrow> watch_supervisor \<times> bool" where
  "supervisor_refresh built w =
     (if \<not> built then (w, False)
      else if ws_stopped w then (w, False)
      else (w\<lparr>ws_watch := True, ws_watchDied := False\<rparr>, True))"

definition supervisor_stop :: "bool \<Rightarrow> watch_supervisor \<Rightarrow> watch_supervisor \<times> bool" where
  "supervisor_stop locked w =
     (if \<not> locked then (w, False) else (w\<lparr>ws_stopped := True, ws_watch := False\<rparr>, True))"

definition watch_died :: "watch_supervisor \<Rightarrow> watch_supervisor" where
  "watch_died w = w\<lparr>ws_watchDied := True\<rparr>"

definition isWatchAlive :: "watch_supervisor \<Rightarrow> bool" where
  "isWatchAlive w = (if ws_watchDied w then False else ws_watch w \<and> \<not> ws_stopped w)"


section \<open>The source\<close>

record lldp_source_config =
  lc_watchedInterfaces :: "string list"
  lc_emitRemovals :: bool
  lc_ctlSocketPath :: string

record lldpd_source =
  sr_config :: lldp_source_config
  sr_downstream :: bool
  sr_cache :: lldp_neighbor_cache
  sr_lastWatchEventAt :: "time_point option"
  sr_supervisor :: watch_supervisor
  sr_teardownIncomplete :: bool

definition new_lldpd_source :: "lldp_source_config \<Rightarrow> bool \<Rightarrow> lldpd_source" where
  "new_lldpd_source config downstream =
     \<lparr>sr_config = config, sr_downstream = downstream, sr_cache = new_neighbor_cache, sr_lastWatchEventAt = None,
      sr_supervisor = new_supervisor, sr_teardownIncomplete = False\<rparr>"

definition lldp_deliver :: "lldpd_source \<Rightarrow> lldp_observation list \<Rightarrow> lldp_observation list" where
  "lldp_deliver src obs = (if sr_downstream src then obs else [])"

definition cacheAndForward :: "lldp_observation \<Rightarrow> lldpd_source \<Rightarrow> lldpd_source \<times> lldp_observation list" where
  "cacheAndForward obs src =
     (src\<lparr>sr_cache := fst (cache_apply obs (sr_cache src))\<rparr>, lldp_deliver src [obs])"

definition lldp_watches :: "lldpd_source \<Rightarrow> string \<Rightarrow> bool" where
  "lldp_watches src ifname \<longleftrightarrow>
     lc_watchedInterfaces (sr_config src) = [] \<or> ifname \<in> set (lc_watchedInterfaces (sr_config src))"

datatype lldp_change = LldpDeleted | LldpUpdated | LldpAdded

text \<open>The fields of the neighbour atom are \<open>None\<close> where reading them throws.\<close>

definition dispatchChange ::
  "time_point \<Rightarrow> string \<Rightarrow> lldp_change \<Rightarrow> cached_lldp_neighbor option \<Rightarrow> lldpd_source
     \<Rightarrow> lldpd_source \<times> lldp_observation list" where
  "dispatchChange now ifname change neighbor src =
     (let src1 = src\<lparr>sr_lastWatchEventAt := Some now\<rparr>
      in if \<not> lldp_watches src1 ifname then (src1, [])
         else if change = LldpDeleted \<and> \<not> lc_emitRemovals (sr_config src1) then (src1, [])
         else (case neighbor of
                 None \<Rightarrow> (src1, [])
               | Some entry \<Rightarrow>
                   cacheAndForward (makeLldpObservation now ifname
                     (if change = LldpDeleted then RemovedObs else Present) entry False) src1))"

definition changeCallback ::
  "bool \<Rightarrow> time_point \<Rightarrow> string \<Rightarrow> lldp_change \<Rightarrow> cached_lldp_neighbor option \<Rightarrow> lldpd_source
     \<Rightarrow> lldpd_source \<times> lldp_observation list" where
  "changeCallback lease now ifname change neighbor src =
     (if \<not> lease then (src, []) else dispatchChange now ifname change neighbor src)"

text \<open>An enumeration: what each interface reports, and for each neighbour whether a lease is granted.\<close>

record enum_interface =
  ei_cancelled :: bool
  ei_nameThrows :: bool
  ei_name :: "string option"
  ei_portThrows :: bool
  ei_neighbors :: "(bool \<times> cached_lldp_neighbor option) list"

datatype enum_outcome = EnumAborted | EnumThrew | EnumDone

fun enum_neighbors ::
  "time_point \<Rightarrow> string \<Rightarrow> (bool \<times> cached_lldp_neighbor option) list \<Rightarrow> lldpd_source
     \<Rightarrow> lldpd_source \<times> lldp_observation list \<times> bool" where
  "enum_neighbors now ifname [] src = (src, [], False)"
| "enum_neighbors now ifname ((lease, neighbor) # nbs) src =
     (if \<not> lease then (src, [], True)
      else (let (src1, out1) = dispatchChange now ifname LldpAdded neighbor src;
                (src2, out2, aborted) = enum_neighbors now ifname nbs src1
            in (src2, out1 @ out2, aborted)))"

fun enum_interfaces ::
  "time_point \<Rightarrow> enum_interface list \<Rightarrow> lldpd_source \<Rightarrow> lldpd_source \<times> lldp_observation list \<times> enum_outcome" where
  "enum_interfaces now [] src = (src, [], EnumDone)"
| "enum_interfaces now (i # is) src =
     (if ei_cancelled i then (src, [], EnumAborted)
      else if ei_nameThrows i then (src, [], EnumThrew)
      else (case ei_name i of
              None \<Rightarrow> enum_interfaces now is src
            | Some ifname \<Rightarrow>
                if \<not> lldp_watches src ifname then enum_interfaces now is src
                else if ei_portThrows i then (src, [], EnumThrew)
                else (let (src1, out1, aborted) = enum_neighbors now ifname (ei_neighbors i) src
                      in if aborted then (src1, out1, EnumAborted)
                         else (let (src2, out2, outcome) = enum_interfaces now is src1
                               in (src2, out1 @ out2, outcome)))))"

definition enumerateInitialNeighbors ::
  "time_point \<Rightarrow> enum_interface list option \<Rightarrow> lldpd_source \<Rightarrow> lldpd_source \<times> lldp_observation list" where
  "enumerateInitialNeighbors now connection src =
     (case connection of
        None \<Rightarrow> (src, [])
      | Some interfaces \<Rightarrow>
          (let (src1, out, outcome) = enum_interfaces now interfaces src
           in (if outcome = EnumDone then src1\<lparr>sr_lastWatchEventAt := Some now\<rparr> else src1, out)))"

definition reconcileAfterRefresh ::
  "bool \<Rightarrow> time_point \<Rightarrow> neighbor_cache_map \<Rightarrow> lldpd_source \<Rightarrow> lldp_observation list" where
  "reconcileAfterRefresh lease now oldCache src =
     (if \<not> lease then []
      else lldp_deliver src (map (\<lambda>(ifname, entry). makeLldpObservation now ifname RemovedObs entry False)
             (diffRemovedNeighbors oldCache (fst (cache_snapshot (sr_cache src))))))"

definition lldp_refreshAll ::
  "bool \<Rightarrow> bool \<Rightarrow> time_point \<Rightarrow> enum_interface list option \<Rightarrow> bool \<Rightarrow> lldpd_source
     \<Rightarrow> lldpd_source \<times> lldp_observation list \<times> bool" where
  "lldp_refreshAll running built now connection lease src =
     (if \<not> running then (src, [], False)
      else
        (let (w, ok) = supervisor_refresh built (sr_supervisor src)
         in if \<not> ok then (src\<lparr>sr_supervisor := w\<rparr>, [], False)
            else
              (let (c, oldCache) = cache_exchange [] (sr_cache src);
                   src1 = src\<lparr>sr_supervisor := w, sr_cache := c, sr_lastWatchEventAt := Some now\<rparr>;
                   (src2, out1) = enumerateInitialNeighbors now connection src1
               in (src2, out1 @ reconcileAfterRefresh lease now oldCache src2, True))))"

definition removeInterface ::
  "bool \<Rightarrow> time_point \<Rightarrow> string \<Rightarrow> lldpd_source \<Rightarrow> lldpd_source \<times> lldp_observation list" where
  "removeInterface lease now ifname src =
     (if \<not> lease then (src, [])
      else (let (c, entries) = flushInterface ifname (sr_cache src)
            in (src\<lparr>sr_cache := c\<rparr>,
                lldp_deliver src (map (\<lambda>e. makeLldpObservation now ifname RemovedObs e False) entries))))"

text \<open>
  The keepalive batch stops at the first observation before which another thread moved the cache:
  \<open>readings i\<close> is the value of the generation counter read before the \<open>i\<close>-th delivery.
\<close>

fun emitBatch :: "(nat \<Rightarrow> 64 word) \<Rightarrow> 64 word \<Rightarrow> nat \<Rightarrow> lldp_observation list \<Rightarrow> lldp_observation list" where
  "emitBatch readings generation i [] = []"
| "emitBatch readings generation i (obs # batch) =
     (if readings i \<noteq> generation then [] else obs # emitBatch readings generation (Suc i) batch)"

definition lldp_reassertAll ::
  "bool \<Rightarrow> time_point \<Rightarrow> (nat \<Rightarrow> 64 word) \<Rightarrow> lldpd_source \<Rightarrow> lldp_observation list" where
  "lldp_reassertAll lease now readings src =
     (if \<not> lease then []
      else
        (let (cache, generation) = cache_snapshot (sr_cache src)
         in lldp_deliver src (emitBatch readings generation 0
              (concat (map (\<lambda>(ifname, neighbors).
                 map (\<lambda>(key, entry). makeLldpObservation now ifname Present entry True) neighbors) cache)))))"

record lldp_start_answers =
  la_begin :: bool
  la_running :: bool
  la_leasesOutstanding :: bool
  la_built :: bool
  la_connection :: "enum_interface list option"
  la_tryComplete :: bool
  la_stopLocked :: bool

definition lldp_start ::
  "lldp_start_answers \<Rightarrow> time_point \<Rightarrow> lldpd_source \<Rightarrow> lldpd_source \<times> lldp_observation list \<times> bool" where
  "lldp_start a now src =
     (if \<not> la_begin a then (src, [], la_running a)
      else if la_leasesOutstanding a then (src, [], False)
      else if sr_teardownIncomplete src then (src, [], False)
      else
        (let (w, ok) = supervisor_start (la_built a) (sr_supervisor src)
         in if \<not> ok then (src\<lparr>sr_supervisor := w\<rparr>, [], False)
            else
              (let src1 = src\<lparr>sr_supervisor := w, sr_lastWatchEventAt := Some now\<rparr>;
                   (src2, out) = enumerateInitialNeighbors now (la_connection a) src1
               in if \<not> la_tryComplete a then
                    (let (w', stopped) = supervisor_stop (la_stopLocked a) (sr_supervisor src2)
                     in (src2\<lparr>sr_supervisor := w',
                              sr_teardownIncomplete := sr_teardownIncomplete src2 \<or> \<not> stopped,
                              sr_cache := lldp_cache_clear (sr_cache src2)\<rparr>, out, False))
                  else (src2, out, True))))"

definition lldp_stop :: "bool \<Rightarrow> bool \<Rightarrow> bool \<Rightarrow> lldpd_source \<Rightarrow> lldpd_source" where
  "lldp_stop beginStop stopLocked drained src =
     (if \<not> beginStop then src
      else
        (let (w, stopped) = supervisor_stop stopLocked (sr_supervisor src);
             src1 = src\<lparr>sr_supervisor := w, sr_teardownIncomplete := sr_teardownIncomplete src \<or> \<not> stopped\<rparr>
         in if drained then src1\<lparr>sr_cache := lldp_cache_clear (sr_cache src1)\<rparr> else src1))"

text \<open>The observer's reaction to a link event: refreshing one interface does nothing for lldpd.\<close>

definition onInterfaceUp :: "string \<Rightarrow> lldpd_source \<Rightarrow> lldpd_source \<times> lldp_observation list" where
  "onInterfaceUp ifname src = (src, [])"

definition onInterfaceDown :: "bool \<Rightarrow> time_point \<Rightarrow> string \<Rightarrow> lldpd_source \<Rightarrow> lldpd_source \<times> lldp_observation list" where
  "onInterfaceDown lease now ifname src = removeInterface lease now ifname src"

end
