(* ===== verification/Lldp_Properties.thy ===== *)
theory Lldp_Properties
  imports Lldp_Source
begin

text \<open>
  What the LLDP source promises its client. The cache invariant says that every entry is stored under
  the key resolved from its own identity; the view of the cache is the set of (interface, key)
  pairs. The source is event sourced over this view: the client that applies the delivered
  observations to its own set always has exactly the cached neighbours, which is what makes the
  keepalives and the forced flush reach the right candidates.
\<close>

definition neighbors_ok :: "cached_lldp_neighbor umap \<Rightarrow> bool" where
  "neighbors_ok m \<longleftrightarrow> distinct_keys m \<and>
     (\<forall>(key, e)\<in>set m. key \<noteq> [] \<and> resolveLldpIdentity (cn_rawChassisId e) (cn_rawPortId e) = key)"

definition cache_ok :: "neighbor_cache_map \<Rightarrow> bool" where
  "cache_ok c \<longleftrightarrow> distinct_keys c \<and> (\<forall>(ifname, m)\<in>set c. neighbors_ok m)"

definition cached_keys :: "neighbor_cache_map \<Rightarrow> (string \<times> string) set" where
  "cached_keys c = {(ifname, key). case map_of c ifname of Some m \<Rightarrow> map_of m key \<noteq> None | None \<Rightarrow> False}"

definition lldp_key :: "lldp_observation \<Rightarrow> string" where
  "lldp_key obs = resolveLldpIdentity (ll_remoteChassisId obs) (ll_remotePortId obs)"

definition apply_lldp_obs :: "lldp_observation \<Rightarrow> (string \<times> string) set \<Rightarrow> (string \<times> string) set" where
  "apply_lldp_obs obs V =
     (if lldp_key obs = [] then V
      else if ll_event obs = RemovedObs then V - {(ll_localIfname obs, lldp_key obs)}
      else insert (ll_localIfname obs, lldp_key obs) V)"

abbreviation cache_map :: "lldpd_source \<Rightarrow> neighbor_cache_map" where
  "cache_map src \<equiv> nc_byInterface (sr_cache src)"

abbreviation source_view :: "lldpd_source \<Rightarrow> (string \<times> string) set" where
  "source_view src \<equiv> cached_keys (cache_map src)"

datatype lldp_op =
    LldpStart lldp_start_answers time_point
  | LldpChange bool time_point string lldp_change "cached_lldp_neighbor option"
  | LldpInterfaceDown bool time_point string
  | LldpReassert bool time_point "nat \<Rightarrow> 64 word"
  | LldpRefresh bool bool time_point "enum_interface list option" bool
  | LldpWatchDied

fun lldp_step :: "lldp_op \<Rightarrow> lldpd_source \<Rightarrow> lldpd_source \<times> lldp_observation list" where
  "lldp_step (LldpStart a now) src = (let (src1, out, _) = lldp_start a now src in (src1, out))"
| "lldp_step (LldpChange lease now ifname change nb) src = changeCallback lease now ifname change nb src"
| "lldp_step (LldpInterfaceDown lease now ifname) src = onInterfaceDown lease now ifname src"
| "lldp_step (LldpReassert lease now readings) src = (src, lldp_reassertAll lease now readings src)"
| "lldp_step (LldpRefresh running built now conn lease) src =
     (let (src1, out, _) = lldp_refreshAll running built now conn lease src in (src1, out))"
| "lldp_step LldpWatchDied src = (src\<lparr>sr_supervisor := watch_died (sr_supervisor src)\<rparr>, [])"

text \<open>
  Within one epoch: a start is not overtaken by a stop, and the gate is open when a refresh
  reconciles.
\<close>

fun lldp_adm :: "lldp_op \<Rightarrow> lldpd_source \<Rightarrow> bool" where
  "lldp_adm (LldpStart a now) src \<longleftrightarrow> la_tryComplete a"
| "lldp_adm (LldpRefresh running built now conn lease) src \<longleftrightarrow> lease"
| "lldp_adm _ src \<longleftrightarrow> True"

definition lldp_ok :: "lldpd_source \<Rightarrow> bool" where
  "lldp_ok src \<longleftrightarrow> sr_downstream src \<and> cache_ok (cache_map src)"


section \<open>The cache\<close>

lemma neighbors_okD:
  "neighbors_ok m \<Longrightarrow> (key, e) \<in> set m \<Longrightarrow>
   key \<noteq> [] \<and> resolveLldpIdentity (cn_rawChassisId e) (cn_rawPortId e) = key"
  by (auto simp: neighbors_ok_def)

lemma cache_okD: "cache_ok c \<Longrightarrow> map_of c ifname = Some m \<Longrightarrow> neighbors_ok m"
  by (auto simp: cache_ok_def dest: map_of_SomeD)

lemma in_set_updateD: "kv \<in> set (AList.update k v m) \<Longrightarrow> kv = (k, v) \<or> kv \<in> set m"
  by (induction m) (auto split: if_splits)

lemma in_set_deleteD: "kv \<in> set (AList.delete k m) \<Longrightarrow> kv \<in> set m"
  by (simp add: AList.delete_eq)

lemma neighbors_ok_update:
  assumes "neighbors_ok m" "key \<noteq> []" "resolveLldpIdentity (cn_rawChassisId e) (cn_rawPortId e) = key"
  shows "neighbors_ok (AList.update key e m)"
proof -
  have "key' \<noteq> [] \<and> resolveLldpIdentity (cn_rawChassisId e') (cn_rawPortId e') = key'"
    if "(key', e') \<in> set (AList.update key e m)" for key' e'
    using in_set_updateD[OF that] neighbors_okD[OF assms(1)] assms(2,3) by blast
  then show ?thesis using assms(1) distinct_update[of m key e] unfolding neighbors_ok_def by blast
qed

lemma neighbors_ok_delete: "neighbors_ok m \<Longrightarrow> neighbors_ok (AList.delete key m)"
  using distinct_delete[of m key] unfolding neighbors_ok_def by (blast dest: in_set_deleteD)

lemma neighbors_ok_Nil [simp]: "neighbors_ok []"
  by (simp add: neighbors_ok_def)

lemma cache_ok_update: "cache_ok c \<Longrightarrow> neighbors_ok m \<Longrightarrow> cache_ok (AList.update ifname m c)"
  using distinct_update[of c ifname m] unfolding cache_ok_def by (blast dest: in_set_updateD)

lemma cache_ok_delete: "cache_ok c \<Longrightarrow> cache_ok (AList.delete ifname c)"
  using distinct_delete[of c ifname] unfolding cache_ok_def by (blast dest: in_set_deleteD)

lemma cache_ok_Nil [simp]: "cache_ok []"
  by (simp add: cache_ok_def)

lemma cached_keys_Nil [simp]: "cached_keys [] = {}"
  by (simp add: cached_keys_def)

lemma cached_keys_iff:
  "(ifname, key) \<in> cached_keys c \<longleftrightarrow>
     (case map_of c ifname of Some m \<Rightarrow> map_of m key \<noteq> None | None \<Rightarrow> False)"
  by (simp add: cached_keys_def)

lemma cached_keys_entry:
  assumes "cache_ok c"
  shows "(ifname, key) \<in> cached_keys c \<longleftrightarrow> (\<exists>m e. (ifname, m) \<in> set c \<and> (key, e) \<in> set m)"
proof -
  have "(ifname, m) \<in> set c \<longleftrightarrow> map_of c ifname = Some m" for m
    using assms in_set_map_of unfolding cache_ok_def by fast
  moreover have "map_of c ifname = Some m \<Longrightarrow> (key, e) \<in> set m \<longleftrightarrow> map_of m key = Some e" for m e
    using cache_okD[OF assms] in_set_map_of unfolding neighbors_ok_def by fast
  ultimately show ?thesis by (auto simp: cached_keys_iff split: option.splits)
qed

lemma cache_apply_ok:
  assumes "cache_ok (nc_byInterface c)"
  shows "cache_ok (nc_byInterface (fst (cache_apply obs c)))"
proof -
  have "neighbors_ok (case map_of (nc_byInterface c) (ll_localIfname obs) of Some m \<Rightarrow> m | None \<Rightarrow> [])"
    using cache_okD[OF assms] by (simp split: option.split)
  with assms show ?thesis
    unfolding cache_apply_def Let_def
    by (simp add: cache_ok_update neighbors_ok_update neighbors_ok_delete)
qed

lemma cache_apply_view:
  "cached_keys (nc_byInterface (fst (cache_apply obs c))) = apply_lldp_obs obs (cached_keys (nc_byInterface c))"
proof (rule set_eqI, clarify)
  fix i k
  show "(i, k) \<in> cached_keys (nc_byInterface (fst (cache_apply obs c)))
    \<longleftrightarrow> (i, k) \<in> apply_lldp_obs obs (cached_keys (nc_byInterface c))"
    by (auto simp: cache_apply_def apply_lldp_obs_def lldp_key_def Let_def cached_keys_iff split: option.splits)
qed


section \<open>Batches of observations\<close>

definition obs_pair :: "lldp_observation \<Rightarrow> string \<times> string" where
  "obs_pair obs = (ll_localIfname obs, lldp_key obs)"

lemma fold_removals:
  "(\<forall>o'\<in>set os. ll_event o' = RemovedObs \<and> lldp_key o' \<noteq> []) \<Longrightarrow>
   fold apply_lldp_obs os V = V - obs_pair ` set os"
  by (induction os arbitrary: V) (auto simp: apply_lldp_obs_def obs_pair_def)

lemma fold_presents:
  "(\<forall>o'\<in>set os. ll_event o' = Present \<and> lldp_key o' \<noteq> []) \<Longrightarrow>
   fold apply_lldp_obs os V = V \<union> obs_pair ` set os"
  by (induction os arbitrary: V) (auto simp: apply_lldp_obs_def obs_pair_def)

lemma makeLldpObservation_sels [simp]:
  "ll_event (makeLldpObservation now ifname ev e ka) = ev"
  "ll_localIfname (makeLldpObservation now ifname ev e ka) = ifname"
  "ll_keepalive (makeLldpObservation now ifname ev e ka) = ka"
  "lldp_key (makeLldpObservation now ifname ev e ka) = resolveLldpIdentity (cn_rawChassisId e) (cn_rawPortId e)"
  by (simp_all add: makeLldpObservation_def lldp_key_def)

lemma obs_pair_make:
  "neighbors_ok m \<Longrightarrow> (key, e) \<in> set m \<Longrightarrow> obs_pair (makeLldpObservation now ifname ev e ka) = (ifname, key)"
  by (auto simp: obs_pair_def dest: neighbors_okD)

lemma set_emitBatch: "set (emitBatch readings g i os) \<subseteq> set os"
  by (induction readings g i os rule: emitBatch.induct) auto


section \<open>Operations that deliver at most one observation\<close>

lemma cacheAndForward_view:
  assumes "lldp_ok src"
  shows "lldp_ok (fst (cacheAndForward obs src))"
    and "fold apply_lldp_obs (snd (cacheAndForward obs src)) (source_view src) = source_view (fst (cacheAndForward obs src))"
  using assms by (auto simp: cacheAndForward_def lldp_ok_def lldp_deliver_def cache_apply_ok cache_apply_view)

lemma dispatchChange_view:
  assumes "lldp_ok src"
  shows "lldp_ok (fst (dispatchChange now ifname change nb src))"
    and "fold apply_lldp_obs (snd (dispatchChange now ifname change nb src)) (source_view src)
           = source_view (fst (dispatchChange now ifname change nb src))"
  using assms cacheAndForward_view[of "src\<lparr>sr_lastWatchEventAt := Some now\<rparr>"]
  by (auto simp: dispatchChange_def lldp_ok_def Let_def split: option.split)

text \<open>Announcements only add: they leave whatever else the client knows.\<close>

lemma dispatchChange_adds:
  assumes "lldp_ok src"
  shows "fold apply_lldp_obs (snd (dispatchChange now ifname LldpAdded nb src)) (V \<union> source_view src)
           = V \<union> source_view (fst (dispatchChange now ifname LldpAdded nb src))"
  using assms
  by (auto simp: dispatchChange_def lldp_ok_def Let_def cacheAndForward_def lldp_deliver_def cache_apply_view
      apply_lldp_obs_def split: option.split)

lemma dispatchChange_presents:
  "\<forall>o'\<in>set (snd (dispatchChange now ifname LldpAdded nb src)). ll_event o' = Present"
  by (auto simp: dispatchChange_def Let_def cacheAndForward_def lldp_deliver_def split: option.split)


section \<open>Enumeration\<close>

lemma enum_neighbors_adds:
  "lldp_ok src \<Longrightarrow> enum_neighbors now ifname nbs src = (src', out, aborted) \<Longrightarrow>
   lldp_ok src' \<and> fold apply_lldp_obs out (V \<union> source_view src) = V \<union> source_view src' \<and>
   (\<forall>o'\<in>set out. ll_event o' = Present)"
proof (induction nbs arbitrary: src src' out aborted)
  case (Cons n nbs)
  obtain lease nb where n: "n = (lease, nb)" by (cases n)
  obtain src1 out1 where d: "dispatchChange now ifname LldpAdded nb src = (src1, out1)"
    by (cases "dispatchChange now ifname LldpAdded nb src")
  have 1: "lldp_ok src1" "fold apply_lldp_obs out1 (V \<union> source_view src) = V \<union> source_view src1"
    "\<forall>o'\<in>set out1. ll_event o' = Present"
    using dispatchChange_view(1)[OF Cons.prems(1), of now ifname LldpAdded nb]
      dispatchChange_adds[OF Cons.prems(1), of now ifname nb V]
      dispatchChange_presents[of now ifname nb src] d by auto
  show ?case
  proof (cases lease)
    case True
    obtain src2 out2 ab where e: "enum_neighbors now ifname nbs src1 = (src2, out2, ab)"
      by (cases "enum_neighbors now ifname nbs src1")
    from Cons.IH[OF 1(1) e] Cons.prems n d e 1 True show ?thesis by auto
  qed (use Cons.prems n in auto)
qed auto

lemma enum_interfaces_adds:
  "lldp_ok src \<Longrightarrow> enum_interfaces now is src = (src', out, outcome) \<Longrightarrow>
   lldp_ok src' \<and> fold apply_lldp_obs out (V \<union> source_view src) = V \<union> source_view src' \<and>
   (\<forall>o'\<in>set out. ll_event o' = Present)"
proof (induction "is" arbitrary: src src' out outcome)
  case (Cons i "is")
  show ?case
  proof (cases "ei_cancelled i \<or> ei_nameThrows i \<or> ei_name i = None \<or> \<not> lldp_watches src (the (ei_name i)) \<or> ei_portThrows i")
    case True
    then show ?thesis using Cons by (auto split: if_splits option.splits)
  next
    case False
    then obtain ifname where i: "ei_name i = Some ifname" by auto
    obtain src1 out1 ab where n: "enum_neighbors now ifname (ei_neighbors i) src = (src1, out1, ab)"
      by (cases "enum_neighbors now ifname (ei_neighbors i) src")
    obtain src2 out2 oc where e: "enum_interfaces now is src1 = (src2, out2, oc)"
      by (cases "enum_interfaces now is src1")
    note 1 = enum_neighbors_adds[OF Cons.prems(1) n, of V]
    from Cons.IH[OF conjunct1[OF 1] e] Cons.prems(2) 1 n e i False show ?thesis
      by (auto split: if_splits)
  qed
qed auto

lemma enumerate_adds:
  assumes "lldp_ok src" "enumerateInitialNeighbors now conn src = (src', out)"
  shows "lldp_ok src'" "fold apply_lldp_obs out (V \<union> source_view src) = V \<union> source_view src'"
    "\<forall>o'\<in>set out. ll_event o' = Present"
proof -
  have "lldp_ok src' \<and> fold apply_lldp_obs out (V \<union> source_view src) = V \<union> source_view src' \<and>
    (\<forall>o'\<in>set out. ll_event o' = Present)"
  proof (cases conn)
    case (Some "is")
    obtain src1 out1 oc where e: "enum_interfaces now is src = (src1, out1, oc)"
      by (cases "enum_interfaces now is src")
    from enum_interfaces_adds[OF assms(1) e, of V] assms(2) e Some show ?thesis
      by (cases oc) (auto simp: enumerateInitialNeighbors_def lldp_ok_def)
  qed (use assms in \<open>auto simp: enumerateInitialNeighbors_def\<close>)
  then show "lldp_ok src'" "fold apply_lldp_obs out (V \<union> source_view src) = V \<union> source_view src'"
    "\<forall>o'\<in>set out. ll_event o' = Present" by auto
qed


section \<open>Operations that deliver a batch\<close>

lemma reassertAll_obs:
  assumes "cache_ok (cache_map src)" "o' \<in> set (lldp_reassertAll lease now readings src)"
  shows "ll_event o' = Present" "ll_keepalive o'" "lldp_key o' \<noteq> []" "obs_pair o' \<in> source_view src"
proof -
  obtain ifname m key e where o': "(ifname, m) \<in> set (cache_map src)" "(key, e) \<in> set m"
    "o' = makeLldpObservation now ifname Present e True"
    using assms(2) by (auto simp: lldp_reassertAll_def lldp_deliver_def cache_snapshot_def
        split: if_splits dest!: set_emitBatch[THEN subsetD])
  then have m: "neighbors_ok m" using assms(1) by (auto simp: cache_ok_def)
  show "ll_event o' = Present" "ll_keepalive o'" using o' by auto
  show "lldp_key o' \<noteq> []" using o' neighbors_okD[OF m] by auto
  show "obs_pair o' \<in> source_view src"
    using o' obs_pair_make[OF m o'(2)] cached_keys_entry[OF assms(1)] by auto
qed

lemma removeInterface_view:
  assumes ok: "lldp_ok src"
  shows "lldp_ok (fst (removeInterface lease now ifname src))"
    and "fold apply_lldp_obs (snd (removeInterface lease now ifname src)) (source_view src)
           = source_view (fst (removeInterface lease now ifname src))"
proof -
  show "lldp_ok (fst (removeInterface lease now ifname src))"
    using ok by (auto simp: removeInterface_def flushInterface_def lldp_ok_def cache_ok_delete split: option.split)
  show "fold apply_lldp_obs (snd (removeInterface lease now ifname src)) (source_view src)
          = source_view (fst (removeInterface lease now ifname src))"
  proof (cases "lease \<and> map_of (cache_map src) ifname \<noteq> None")
    case True
    then obtain m where m: "map_of (cache_map src) ifname = Some m" by auto
    have nok: "neighbors_ok m" using ok m cache_okD by (auto simp: lldp_ok_def)
    let ?os = "map (\<lambda>e. makeLldpObservation now ifname RemovedObs e False) (map snd m)"
    have "obs_pair ` set ?os = {ifname} \<times> keys m" (is "?L = ?R")
    proof
      show "?L \<subseteq> ?R" using obs_pair_make[OF nok] by force
      show "?R \<subseteq> ?L"
      proof clarify
        fix key assume "key \<in> keys m"
        then obtain e where "(key, e) \<in> set m" by auto
        with obs_pair_make[OF nok this, of now ifname RemovedObs False, symmetric]
        show "(ifname, key) \<in> ?L" by force
      qed
    qed
    moreover have "\<forall>o'\<in>set ?os. ll_event o' = RemovedObs \<and> lldp_key o' \<noteq> []"
      using neighbors_okD[OF nok] by auto
    ultimately have "fold apply_lldp_obs ?os (source_view src) = source_view src - {ifname} \<times> keys m"
      using fold_removals by simp
    also have "\<dots> = cached_keys (AList.delete ifname (cache_map src))"
    proof (rule set_eqI, clarify)
      fix i k
      have "k \<in> keys m \<longleftrightarrow> map_of m k \<noteq> None" by (simp add: map_of_eq_None_iff)
      then show "(i, k) \<in> source_view src - {ifname} \<times> keys m
          \<longleftrightarrow> (i, k) \<in> cached_keys (AList.delete ifname (cache_map src))"
        using m by (cases "map_of m k") (simp_all add: cached_keys_iff)
    qed
    finally show ?thesis using True m ok
      by (simp add: removeInterface_def flushInterface_def lldp_deliver_def lldp_ok_def)
  qed (auto simp: removeInterface_def flushInterface_def lldp_deliver_def split: option.split)
qed

lemma reconcile_removals:
  assumes "cache_ok old" "o' \<in> set (reconcileAfterRefresh lease now old src)"
  shows "ll_event o' = RemovedObs" "lldp_key o' \<noteq> []"
proof -
  obtain ifname m key e where o': "(ifname, m) \<in> set old" "(key, e) \<in> set m"
    "o' = makeLldpObservation now ifname RemovedObs e False"
    using assms(2) by (auto simp: reconcileAfterRefresh_def lldp_deliver_def diffRemovedNeighbors_def split: if_splits)
  with assms(1) neighbors_okD[OF _ o'(2)] show "ll_event o' = RemovedObs" "lldp_key o' \<noteq> []"
    by (auto simp: cache_ok_def)
qed

lemma diff_pair:
  assumes "cache_ok old"
  shows "map obs_pair (map (\<lambda>(ifname, entry). makeLldpObservation now ifname RemovedObs entry False)
            (diffRemovedNeighbors old fresh))
     = concat (map (\<lambda>(ifname, m). map (Pair ifname) (filter (\<lambda>key. (ifname, key) \<notin> cached_keys fresh) (map fst m))) old)"
proof -
  have one: "map (\<lambda>x. obs_pair (makeLldpObservation now ifname RemovedObs (snd x) False))
       (filter (\<lambda>x. (ifname, fst x) \<notin> cached_keys fresh) m)
     = map (Pair ifname) (filter (\<lambda>key. (ifname, key) \<notin> cached_keys fresh) (map fst m))" if "neighbors_ok m" for ifname m
    using obs_pair_make[OF that] by (auto simp: filter_map o_def)
  show ?thesis
    using assms one by (auto simp: diffRemovedNeighbors_def map_concat cache_ok_def o_def case_prod_unfold cached_keys_iff
        intro!: arg_cong[where f = concat] map_cong)
qed


lemma reconcile_pairs:
  assumes "cache_ok old" "sr_downstream src"
  shows "map obs_pair (reconcileAfterRefresh True now old src)
     = concat (map (\<lambda>(ifname, m). map (Pair ifname) (filter (\<lambda>key. (ifname, key) \<notin> source_view src) (map fst m))) old)"
  unfolding reconcileAfterRefresh_def lldp_deliver_def cache_snapshot_def
  using assms diff_pair[OF assms(1), of now "cache_map src"] by simp

lemma distinct_pairs:
  "distinct_keys old \<Longrightarrow> (\<forall>(ifname, m)\<in>set old. distinct_keys m) \<Longrightarrow>
   distinct (concat (map (\<lambda>(ifname, m). map (Pair ifname) (filter (P ifname) (map fst m))) old))"
proof (induction old)
  case (Cons x old)
  obtain ifname m where x: "x = (ifname, m)" by (cases x)
  have "ifname \<notin> fst ` set old" using Cons.prems(1) x by simp
  then have "Pair ifname ` A \<inter> set (concat (map (\<lambda>(ifname, m). map (Pair ifname) (filter (P ifname) (map fst m))) old)) = {}" for A
    by (force simp: case_prod_unfold)
  with Cons x show ?case by (simp add: distinct_map inj_on_def)
qed simp

lemma reconcile_exact:
  assumes ok: "cache_ok old" and ds: "sr_downstream src"
  shows "distinct (map obs_pair (reconcileAfterRefresh True now old src))"
    and "obs_pair ` set (reconcileAfterRefresh True now old src) = cached_keys old - source_view src"
proof -
  have d: "distinct_keys old" "\<forall>(ifname, m)\<in>set old. distinct_keys m"
    using ok by (auto simp: cache_ok_def neighbors_ok_def)
  show "distinct (map obs_pair (reconcileAfterRefresh True now old src))"
    unfolding reconcile_pairs[OF ok ds] using distinct_pairs[OF d] by simp
  have "set (map obs_pair (reconcileAfterRefresh True now old src)) = cached_keys old - source_view src"
    unfolding reconcile_pairs[OF ok ds]
  proof (rule set_eqI, clarify)
    fix i k
    show "(i, k) \<in> set (concat (map (\<lambda>(ifname, m). map (Pair ifname) (filter (\<lambda>key. (ifname, key) \<notin> source_view src) (map fst m))) old))
      \<longleftrightarrow> (i, k) \<in> cached_keys old - source_view src"
      unfolding Diff_iff cached_keys_entry[OF ok]
      apply (auto simp: case_prod_unfold image_iff)
      subgoal by blast
      subgoal for m e by (rule bexI[of _ "(i, m)"]) (auto intro: bexI[of _ "(k, e)"])
      done
  qed
  then show "obs_pair ` set (reconcileAfterRefresh True now old src) = cached_keys old - source_view src" by simp
qed

lemma refreshAll_cases:
  assumes "lldp_refreshAll running built now conn lease src = (src', out, ok)"
  obtains "out = []" "\<not> ok" "cache_map src' = cache_map src" "sr_downstream src' = sr_downstream src"
  | src1 out1 where "ok" "enumerateInitialNeighbors now conn src1 = (src', out1)"
      "out = out1 @ reconcileAfterRefresh lease now (cache_map src) src'"
      "cache_map src1 = []" "sr_downstream src1 = sr_downstream src"
  using assms
  by (fastforce simp: lldp_refreshAll_def supervisor_refresh_def cache_exchange_def Let_def split: if_splits prod.splits)

lemma refreshAll_view:
  assumes ok: "lldp_ok src" and r: "lldp_refreshAll running built now conn True src = (src', out, res)"
  shows "lldp_ok src'" "fold apply_lldp_obs out (source_view src) = source_view src'"
    "distinct (map obs_pair (filter (\<lambda>o'. ll_event o' = RemovedObs) out))"
    "obs_pair ` {o' \<in> set out. ll_event o' = RemovedObs} = source_view src - source_view src'"
proof -
  have "lldp_ok src' \<and> fold apply_lldp_obs out (source_view src) = source_view src' \<and>
    distinct (map obs_pair (filter (\<lambda>o'. ll_event o' = RemovedObs) out)) \<and>
    obs_pair ` {o' \<in> set out. ll_event o' = RemovedObs} = source_view src - source_view src'"
    using r
  proof (cases rule: refreshAll_cases)
    case 1
    with ok show ?thesis by (simp add: lldp_ok_def)
  next
    case (2 src1 out1)
    let ?rem = "reconcileAfterRefresh True now (cache_map src) src'"
    have ok1: "lldp_ok src1" using ok 2 by (simp add: lldp_ok_def)
    note en = enumerate_adds[OF ok1 2(2)]
    have co: "cache_ok (cache_map src)" and ds: "sr_downstream src'" using ok en(1) by (auto simp: lldp_ok_def)
    have ev: "\<forall>o'\<in>set ?rem. ll_event o' = RemovedObs \<and> lldp_key o' \<noteq> []"
      using reconcile_removals[OF co] by blast
    have f1: "filter (\<lambda>o'. ll_event o' = RemovedObs) out1 = []" using en(3) by (simp add: filter_empty_conv)
    have f2: "filter (\<lambda>o'. ll_event o' = RemovedObs) ?rem = ?rem" using ev by (simp add: filter_id_conv)
    have f: "filter (\<lambda>o'. ll_event o' = RemovedObs) out = ?rem" using 2(3) f1 f2 by simp
    have "fold apply_lldp_obs out (source_view src)
        = (source_view src \<union> source_view src') - (source_view src - source_view src')"
      using en(2)[of "source_view src"] 2(3,4) fold_removals[OF ev] reconcile_exact(2)[OF co ds] by simp
    moreover have "{o' \<in> set out. ll_event o' = RemovedObs} = set ?rem" using f set_filter by metis
    ultimately show ?thesis using en(1) f reconcile_exact[OF co ds] by auto
  qed
  then show "lldp_ok src'" "fold apply_lldp_obs out (source_view src) = source_view src'"
    "distinct (map obs_pair (filter (\<lambda>o'. ll_event o' = RemovedObs) out))"
    "obs_pair ` {o' \<in> set out. ll_event o' = RemovedObs} = source_view src - source_view src'" by auto
qed

lemma start_view:
  assumes ok: "lldp_ok src" and tc: "la_tryComplete a" and st: "lldp_start a now src = (src', out, res)"
  shows "lldp_ok src'" "fold apply_lldp_obs out (source_view src) = source_view src'"
proof -
  have "lldp_ok src' \<and> fold apply_lldp_obs out (source_view src) = source_view src'"
  proof (cases "la_begin a \<and> \<not> la_leasesOutstanding a \<and> \<not> sr_teardownIncomplete src \<and> snd (supervisor_start (la_built a) (sr_supervisor src))")
    case True
    define src1 where "src1 = src\<lparr>sr_supervisor := fst (supervisor_start (la_built a) (sr_supervisor src)), sr_lastWatchEventAt := Some now\<rparr>"
    obtain src2 out2 where e: "enumerateInitialNeighbors now (la_connection a) src1 = (src2, out2)"
      by (cases "enumerateInitialNeighbors now (la_connection a) src1")
    have 1: "lldp_ok src1" "source_view src1 = source_view src" using ok by (simp_all add: src1_def lldp_ok_def)
    have "src' = src2" "out = out2"
      using st True tc e by (auto simp: lldp_start_def case_prod_beta Let_def src1_def [symmetric])
    then show ?thesis using enumerate_adds(1)[OF 1(1) e] enumerate_adds(2)[OF 1(1) e, of "{}"] 1(2) by simp
  next
    case False
    then have "out = []" "cache_map src' = cache_map src" "sr_downstream src' = sr_downstream src"
      using st by (auto simp: lldp_start_def case_prod_beta Let_def split: if_splits)
    then show ?thesis using ok by (simp add: lldp_ok_def)
  qed
  then show "lldp_ok src'" "fold apply_lldp_obs out (source_view src) = source_view src'" by auto
qed

lemma reassertAll_view:
  assumes "lldp_ok src"
  shows "fold apply_lldp_obs (lldp_reassertAll lease now readings src) (source_view src) = source_view src"
proof -
  have ok: "cache_ok (cache_map src)" using assms by (simp add: lldp_ok_def)
  show ?thesis using reassertAll_obs[OF ok, of _ lease now readings] by (subst fold_presents) auto
qed

interpretation lldp_view: event_sourced lldp_ok source_view apply_lldp_obs lldp_adm lldp_step
proof
  fix src op
  assume ok: "lldp_ok src" and adm: "lldp_adm op src"
  have "lldp_ok (fst (lldp_step op src)) \<and>
    fold apply_lldp_obs (snd (lldp_step op src)) (source_view src) = source_view (fst (lldp_step op src))"
  proof (cases op)
    case (LldpStart a now)
    then show ?thesis using start_view[OF ok, of a now] adm by (cases "lldp_start a now src") auto
  next
    case (LldpChange lease now ifname change nb)
    then show ?thesis using dispatchChange_view[OF ok] ok by (auto simp: changeCallback_def)
  next
    case (LldpInterfaceDown lease now ifname)
    then show ?thesis using removeInterface_view[OF ok] by (simp add: onInterfaceDown_def)
  next
    case (LldpReassert lease now readings)
    then show ?thesis using reassertAll_view[OF ok] ok by simp
  next
    case (LldpRefresh running built now conn lease)
    then show ?thesis using refreshAll_view(1,2)[OF ok, of running built now conn] adm
      by (cases "lldp_refreshAll running built now conn True src") auto
  next
    case LldpWatchDied
    then show ?thesis using ok by (simp add: lldp_ok_def)
  qed
  then show "lldp_ok (fst (lldp_step op src))"
    "fold apply_lldp_obs (snd (lldp_step op src)) (source_view src) = source_view (fst (lldp_step op src))" by auto
qed


section \<open>The teardown latch\<close>

datatype epoch_op = EpochOp lldp_op | EpochStop bool bool bool

fun epoch_step :: "epoch_op \<Rightarrow> lldpd_source \<Rightarrow> lldpd_source \<times> lldp_observation list" where
  "epoch_step (EpochOp op) src = lldp_step op src"
| "epoch_step (EpochStop beginStop stopLocked drained) src = (lldp_stop beginStop stopLocked drained src, [])"

lemma dispatchChange_teardown [frame_simps]:
  "sr_teardownIncomplete (fst (dispatchChange now ifname change nb src)) = sr_teardownIncomplete src"
  by (simp add: dispatchChange_def cacheAndForward_def Let_def split: option.split)

lemma enum_neighbors_teardown [frame_simps]:
  "sr_teardownIncomplete (fst (enum_neighbors now ifname nbs src)) = sr_teardownIncomplete src"
  by (induction now ifname nbs src rule: enum_neighbors.induct)
     (auto simp: case_prod_beta Let_def frame_simps prod_eq_iff)

lemma enum_interfaces_teardown [frame_simps]:
  "sr_teardownIncomplete (fst (enum_interfaces now is src)) = sr_teardownIncomplete src"
proof (induction "is" arbitrary: src)
  case (Cons i "is")
  then show ?case by (simp add: case_prod_beta Let_def frame_simps split: option.split)
qed simp

lemma enumerate_teardown [frame_simps]:
  "sr_teardownIncomplete (fst (enumerateInitialNeighbors now conn src)) = sr_teardownIncomplete src"
  by (simp add: enumerateInitialNeighbors_def case_prod_beta Let_def frame_simps split: option.split)

lemma epoch_step_latch:
  "sr_teardownIncomplete src \<Longrightarrow> sr_teardownIncomplete (fst (epoch_step op src))"
proof (cases op)
  case (EpochOp lop)
  assume "sr_teardownIncomplete src"
  with EpochOp show ?thesis
    by (cases lop) (simp_all add: lldp_start_def changeCallback_def onInterfaceDown_def removeInterface_def
        lldp_refreshAll_def case_prod_beta Let_def frame_simps)
qed (simp add: lldp_stop_def case_prod_beta Let_def)

lemma epoch_run_latch:
  "sr_teardownIncomplete src \<Longrightarrow> sr_teardownIncomplete (fst (run epoch_step ops src))"
  by (induction ops arbitrary: src) (auto simp: case_prod_beta dest: epoch_step_latch)


section \<open>Properties\<close>

text \<open>
  (C19) Through one epoch of the source, from its construction and through any interleaving of a start, watch
  callbacks, link-down flushes, keepalives, reconnects and deaths of the watch, a client that
  applies the delivered observations to a set of (interface, identity) pairs has exactly the cached
  neighbours: the keepalives later sent from the cache never name a neighbour the client was told
  to forget, and a flush reaches every neighbour it was told of.
\<close>

theorem lldp_client_mirrors_cache:
  assumes "run_adm lldp_adm lldp_step ops (new_lldpd_source config True)"
  shows "fold apply_lldp_obs (snd (run lldp_step ops (new_lldpd_source config True))) {}
           = source_view (fst (run lldp_step ops (new_lldpd_source config True)))"
proof -
  have "lldp_ok (new_lldpd_source config True)" "source_view (new_lldpd_source config True) = {}"
    by (simp_all add: lldp_ok_def new_lldpd_source_def new_neighbor_cache_def)
  with lldp_view.run_view[OF _ assms] show ?thesis by simp
qed


text \<open>
  A reconnect whose enumeration cannot even connect still succeeds: it returns true, tells the
  client to forget every cached neighbour and leaves the cache empty.
\<close>

theorem lldp_refresh_failed_enumeration:
  assumes "lldp_ok src" "\<not> ws_stopped (sr_supervisor src)"
  shows "\<exists>src' out. lldp_refreshAll True True now None True src = (src', out, True) \<and> source_view src' = {} \<and>
    obs_pair ` {o' \<in> set out. ll_event o' = RemovedObs} = source_view src"
proof -
  obtain src' out res where r: "lldp_refreshAll True True now None True src = (src', out, res)"
    by (cases "lldp_refreshAll True True now None True src")
  have "res" "source_view src' = {}"
    using r assms by (auto simp: lldp_refreshAll_def supervisor_refresh_def cache_exchange_def
        enumerateInitialNeighbors_def Let_def)
  with refreshAll_view(4)[OF assms(1) r] r show ?thesis by auto
qed

text \<open>
  With removals switched off, a neighbour the daemon reports deleted stays in the cache, and the
  next keepalive batch announces it as present again.
\<close>

theorem lldp_deleted_kept_alive:
  assumes "lldp_ok src" "\<not> lc_emitRemovals (sr_config src)" "(ifname, key) \<in> source_view src"
    and "\<And>i. readings i = nc_generation (sr_cache src)"
  shows "\<exists>o'\<in>set (lldp_reassertAll True later readings (fst (changeCallback True now ifname LldpDeleted nb src))).
    obs_pair o' = (ifname, key) \<and> ll_event o' = Present \<and> ll_keepalive o'"
proof -
  have ok: "cache_ok (cache_map src)" and ds: "sr_downstream src" using assms(1) by (simp_all add: lldp_ok_def)
  have same: "sr_cache (fst (changeCallback True now ifname LldpDeleted nb src)) = sr_cache src"
    "sr_downstream (fst (changeCallback True now ifname LldpDeleted nb src))"
    using assms(2) ds by (simp_all add: changeCallback_def dispatchChange_def Let_def lldp_watches_def)
  have all: "emitBatch readings (nc_generation (sr_cache src)) i os = os" for i os
    using assms(4) by (induction os arbitrary: i) simp_all
  obtain m e where m: "(ifname, m) \<in> set (cache_map src)" "(key, e) \<in> set m"
    using assms(3) cached_keys_entry[OF ok] by blast
  then have "neighbors_ok m" using ok by (auto simp: cache_ok_def)
  note pair = obs_pair_make[OF this m(2), of later ifname Present True]
  have "makeLldpObservation later ifname Present e True
      \<in> set (lldp_reassertAll True later readings (fst (changeCallback True now ifname LldpDeleted nb src)))"
    using m same all by (force simp: lldp_reassertAll_def lldp_deliver_def cache_snapshot_def)
  with pair show ?thesis by (intro bexI) auto
qed

text \<open>
  Once a stop has given up waiting for the supervisor, its watch may still be there, and no later
  sequence of calls makes a start succeed: it changes nothing, delivers nothing and returns false.
\<close>

theorem lldp_teardown_latched:
  assumes "la_begin a" "src' = fst (run epoch_step ops (lldp_stop True False drained src))"
  shows "lldp_start a now src' = (src', [], False)"
proof -
  have "sr_teardownIncomplete (lldp_stop True False drained src)"
    by (simp add: lldp_stop_def supervisor_stop_def Let_def)
  then have "sr_teardownIncomplete src'" unfolding assms(2) by (rule epoch_run_latch)
  then show ?thesis using assms(1) by (simp add: lldp_start_def)
qed

definition lldp_sample_neighbor :: cached_lldp_neighbor where
  "lldp_sample_neighbor = \<lparr>cn_rawChassisId = Some ''00:AA:22:33:44:55'', cn_rawPortId = None, cn_rawSystemName = None\<rparr>"

definition lldp_sample_config :: lldp_source_config where
  "lldp_sample_config = \<lparr>lc_watchedInterfaces = [], lc_emitRemovals = False, lc_ctlSocketPath = []\<rparr>"

definition lldp_sample_answers :: lldp_start_answers where
  "lldp_sample_answers = \<lparr>la_begin = True, la_running = False, la_leasesOutstanding = False, la_built = True,
     la_connection = Some [\<lparr>ei_cancelled = False, ei_nameThrows = False, ei_name = Some ''eth0'', ei_portThrows = False,
       ei_neighbors = [(True, Some lldp_sample_neighbor)]\<rparr>],
     la_tryComplete = True, la_stopLocked = True\<rparr>"

definition lldp_sample_source :: lldpd_source where
  "lldp_sample_source = fst (run lldp_step [LldpStart lldp_sample_answers 1] (new_lldpd_source lldp_sample_config True))"

lemma lldp_sample_identity: "resolveLldpIdentity (Some ''00:AA:22:33:44:55'') None = ''00:aa:22:33:44:55''"
  by code_simp

lemmas lldp_sample_defs = lldp_sample_source_def lldp_sample_answers_def lldp_sample_config_def lldp_sample_neighbor_def new_lldpd_source_def
  new_neighbor_cache_def new_supervisor_def lldp_start_def supervisor_start_def enumerateInitialNeighbors_def
  lldp_watches_def dispatchChange_def cacheAndForward_def cache_apply_def makeLldpObservation_def lldp_deliver_def
  Let_def lldp_sample_identity

lemma lldp_sample_complete: "la_tryComplete lldp_sample_answers"
  by (simp add: lldp_sample_answers_def)

lemma lldp_sample_source_eval:
  "lldp_sample_source = (new_lldpd_source lldp_sample_config True)
     \<lparr>sr_cache := \<lparr>nc_byInterface = [(''eth0'', [(''00:aa:22:33:44:55'', lldp_sample_neighbor)])], nc_generation = 1\<rparr>,
      sr_lastWatchEventAt := Some 1, sr_supervisor := \<lparr>ws_watch = True, ws_stopped = False, ws_watchDied = False\<rparr>\<rparr>"
  by (simp add: lldp_sample_defs)

lemma lldp_sample_source_view: "source_view lldp_sample_source = {(''eth0'', ''00:aa:22:33:44:55'')}"
  by (auto simp: lldp_sample_source_eval cached_keys_iff split: if_splits)

lemma lldp_sample_source_ok: "lldp_ok lldp_sample_source"
  by (simp add: lldp_sample_source_eval lldp_ok_def cache_ok_def neighbors_ok_def lldp_sample_neighbor_def lldp_sample_identity
      new_lldpd_source_def)

theorem lldp_client_mirrors_cache_witness:
  "fold apply_lldp_obs (snd (run lldp_step [LldpStart lldp_sample_answers 1] (new_lldpd_source lldp_sample_config True))) {}
     = {(''eth0'', ''00:aa:22:33:44:55'')}"
  using lldp_client_mirrors_cache[of "[LldpStart lldp_sample_answers 1]" lldp_sample_config]
  by (simp add: lldp_sample_source_view[unfolded lldp_sample_source_def] lldp_sample_complete del: run.simps)


theorem lldp_refresh_failed_enumeration_witness:
  "\<exists>src' out. lldp_refreshAll True True 2 None True lldp_sample_source = (src', out, True) \<and> source_view src' = {} \<and>
    obs_pair ` {o' \<in> set out. ll_event o' = RemovedObs} = {(''eth0'', ''00:aa:22:33:44:55'')}"
  using lldp_refresh_failed_enumeration[OF lldp_sample_source_ok, of 2]
  by (simp add: lldp_sample_source_view) (simp add: lldp_sample_source_eval)

theorem lldp_deleted_kept_alive_witness:
  "\<exists>o'\<in>set (lldp_reassertAll True 3 (\<lambda>_. 1)
       (fst (changeCallback True 2 ''eth0'' LldpDeleted (Some lldp_sample_neighbor) lldp_sample_source))).
    obs_pair o' = (''eth0'', ''00:aa:22:33:44:55'') \<and> ll_event o' = Present \<and> ll_keepalive o'"
  by (rule lldp_deleted_kept_alive[OF lldp_sample_source_ok])
     (simp_all add: lldp_sample_source_view, simp_all add: lldp_sample_source_eval new_lldpd_source_def lldp_sample_config_def)

theorem lldp_teardown_latched_witness:
  "snd (lldp_start lldp_sample_answers 5 (fst (run epoch_step [EpochStop True True True] (lldp_stop True False True lldp_sample_source))))
     = ([], False)"
  by (subst lldp_teardown_latched[OF _ refl]) (simp_all add: lldp_sample_answers_def)

end
