(* ===== verification/Publication.thy ===== *)
theory Publication
  imports Engine_View
begin

text \<open>
  From model events to transport signals: \<open>service/PublicationQueue.h\<close> and the publication half of
  \<open>service/ObservationService.cpp\<close> (\<open>onModelEvent\<close>, \<open>publishBatch\<close>).

  The coalescing set \<open>thread_safe::dirty_set\<close> is not part of the repository. It is the argument
  \<open>'d dirty_ops\<close>; \<open>dirty_ok\<close> states what \<open>PublicationQueue.h\<close> relies on: a mark overwrites the pending
  intent of its key, and taking hands out the pending map in key order and leaves it empty. Its
  abstraction function \<open>pend\<close> gives the pending intents.
\<close>

datatype publication_intent = PubChanged | PubRemoved

datatype publication_key = InterfaceKey string | LocalStateKey | CandidateKey string

type_synonym pending_publication = "(publication_key \<times> publication_intent) list"

text \<open>The order of \<open>std::variant\<close>: the alternative first, then the string of the key.\<close>

fun pk_rank :: "publication_key \<Rightarrow> nat \<times> string" where
  "pk_rank (InterfaceKey s) = (0, s)"
| "pk_rank LocalStateKey = (1, [])"
| "pk_rank (CandidateKey s) = (2, s)"

lemma pk_rank_inj: "pk_rank a = pk_rank b \<Longrightarrow> a = b"
  by (cases a; cases b) auto

instantiation publication_key :: linorder
begin

definition less_publication_key :: "publication_key \<Rightarrow> publication_key \<Rightarrow> bool" where
  "less_publication_key a b \<longleftrightarrow>
     fst (pk_rank a) < fst (pk_rank b) \<or> fst (pk_rank a) = fst (pk_rank b) \<and> snd (pk_rank a) < snd (pk_rank b)"

definition less_eq_publication_key :: "publication_key \<Rightarrow> publication_key \<Rightarrow> bool" where
  "less_eq_publication_key a b \<longleftrightarrow> a = b \<or> a < b"

instance
proof
  fix a b c :: publication_key
  show "a < b \<longleftrightarrow> a \<le> b \<and> \<not> b \<le> a"
    by (auto simp: less_eq_publication_key_def less_publication_key_def)
  show "a \<le> a" by (simp add: less_eq_publication_key_def)
  show "a \<le> b \<Longrightarrow> b \<le> c \<Longrightarrow> a \<le> c"
    by (auto simp: less_eq_publication_key_def less_publication_key_def)
  show "a \<le> b \<Longrightarrow> b \<le> a \<Longrightarrow> a = b"
    by (auto simp: less_eq_publication_key_def less_publication_key_def)
  show "a \<le> b \<or> b \<le> a"
    using pk_rank_inj[of a b] less_linear[of "snd (pk_rank a)" "snd (pk_rank b)"]
    by (auto simp: less_eq_publication_key_def less_publication_key_def prod_eq_iff)
qed

end

record 'd dirty_ops =
  ds_mark :: "publication_key \<Rightarrow> publication_intent \<Rightarrow> 'd \<Rightarrow> 'd \<times> bool"
  ds_take :: "'d \<Rightarrow> 'd \<times> pending_publication option"
  ds_pend :: "'d \<Rightarrow> publication_key \<Rightarrow> publication_intent option"
  ds_closed :: "'d \<Rightarrow> bool"

definition dirty_ok :: "'d dirty_ops \<Rightarrow> bool" where
  "dirty_ok D \<longleftrightarrow>
     (\<forall>k i d. \<not> ds_closed D d \<longrightarrow>
        ds_pend D (fst (ds_mark D k i d)) = (ds_pend D d)(k \<mapsto> i) \<and> \<not> ds_closed D (fst (ds_mark D k i d))) \<and>
     (\<forall>d. \<not> ds_closed D d \<longrightarrow> \<not> ds_closed D (fst (ds_take D d)) \<and>
        (case snd (ds_take D d) of
           None \<Rightarrow> ds_pend D d = Map.empty \<and> fst (ds_take D d) = d
         | Some m \<Rightarrow> sorted_wrt (<) (map fst m) \<and> map_of m = ds_pend D d \<and>
             ds_pend D (fst (ds_take D d)) = Map.empty))"


section \<open>Marking\<close>

definition markCandidateChanged :: "'d dirty_ops \<Rightarrow> string \<Rightarrow> 'd \<Rightarrow> 'd \<times> bool" where
  "markCandidateChanged D mac d = ds_mark D (CandidateKey mac) PubChanged d"

definition markCandidateRemoved :: "'d dirty_ops \<Rightarrow> string \<Rightarrow> 'd \<Rightarrow> 'd \<times> bool" where
  "markCandidateRemoved D mac d = ds_mark D (CandidateKey mac) PubRemoved d"

definition markInterfaceChanged :: "'d dirty_ops \<Rightarrow> string \<Rightarrow> 'd \<Rightarrow> 'd \<times> bool" where
  "markInterfaceChanged D ifname d = ds_mark D (InterfaceKey ifname) PubChanged d"

definition markInterfaceRemoved :: "'d dirty_ops \<Rightarrow> string \<Rightarrow> 'd \<Rightarrow> 'd \<times> bool" where
  "markInterfaceRemoved D ifname d = ds_mark D (InterfaceKey ifname) PubRemoved d"

definition markLocalStateChanged :: "'d dirty_ops \<Rightarrow> 'd \<Rightarrow> 'd \<times> bool" where
  "markLocalStateChanged D d = ds_mark D LocalStateKey PubChanged d"

definition onModelEvent :: "'d dirty_ops \<Rightarrow> model_event \<Rightarrow> 'd \<Rightarrow> 'd" where
  "onModelEvent D event d =
     (case me_kind event of
        LocalInterfaceChanged \<Rightarrow>
          fst (markLocalStateChanged D (case me_ifname event of
                 Some i \<Rightarrow> fst (markInterfaceChanged D i d) | None \<Rightarrow> d))
      | LocalAddressChanged \<Rightarrow>
          fst (markLocalStateChanged D (case me_ifname event of
                 Some i \<Rightarrow> fst (markInterfaceChanged D i d) | None \<Rightarrow> d))
      | LocalInterfaceRemoved \<Rightarrow>
          fst (markLocalStateChanged D (case me_ifname event of
                 Some i \<Rightarrow> fst (markInterfaceRemoved D i d) | None \<Rightarrow> d))
      | CandidateExpired \<Rightarrow> (case me_mac event of Some m \<Rightarrow> fst (markCandidateRemoved D m d) | None \<Rightarrow> d)
      | CandidateRemoved \<Rightarrow> (case me_mac event of Some m \<Rightarrow> fst (markCandidateRemoved D m d) | None \<Rightarrow> d)
      | _ \<Rightarrow> (case me_mac event of Some m \<Rightarrow> fst (markCandidateChanged D m d) | None \<Rightarrow> d))"


section \<open>Dispatching\<close>

datatype transport_call =
    PublishCandidateChanged string
  | PublishCandidateRemoved string
  | PublishInterfaceChanged string
  | PublishInterfaceRemoved string
  | PublishLocalStateChanged

fun dispatchPublication ::
  "(string \<Rightarrow> publication_intent \<Rightarrow> 'a) \<Rightarrow> (string \<Rightarrow> publication_intent \<Rightarrow> 'a) \<Rightarrow> 'a
     \<Rightarrow> pending_publication \<Rightarrow> 'a list" where
  "dispatchPublication onCandidate onInterface onLocalState [] = []"
| "dispatchPublication onCandidate onInterface onLocalState ((key, intent) # pending) =
     (case key of
        CandidateKey mac \<Rightarrow> onCandidate mac intent
      | InterfaceKey ifname \<Rightarrow> onInterface ifname intent
      | LocalStateKey \<Rightarrow> onLocalState)
     # dispatchPublication onCandidate onInterface onLocalState pending"

definition publishBatch :: "pending_publication \<Rightarrow> transport_call list" where
  "publishBatch pending =
     dispatchPublication
       (\<lambda>mac intent. if intent = PubChanged then PublishCandidateChanged mac else PublishCandidateRemoved mac)
       (\<lambda>ifname intent. if intent = PubChanged then PublishInterfaceChanged ifname else PublishInterfaceRemoved ifname)
       PublishLocalStateChanged
       pending"


section \<open>The service and a client that re-queries\<close>

text \<open>
  A client keeps the set of candidates it believes in. On \<open>CandidateChanged\<close> it looks the MAC up
  (\<open>GetCandidateByMac\<close>, answered by the model as it is then), on \<open>CandidateRemoved\<close> it forgets it.
  Model calls, the publication worker and the client take turns in any order; signals travel in order.
\<close>

record 'd pub_system =
  ps_engine :: engine
  ps_dirty :: 'd
  ps_wire :: "transport_call list"
  ps_client :: "string set"

definition client_handle :: "engine \<Rightarrow> transport_call \<Rightarrow> string set \<Rightarrow> string set" where
  "client_handle e call V =
     (case call of
        PublishCandidateChanged mac \<Rightarrow> (if findCandidateByMac mac e \<noteq> None then insert mac V else V - {mac})
      | PublishCandidateRemoved mac \<Rightarrow> V - {mac}
      | _ \<Rightarrow> V)"

datatype pub_op = PubCall "time_point \<times> time_point \<times> engine_op" | PubDrain | PubDeliver

definition publication_round :: "'d dirty_ops \<Rightarrow> 'd \<Rightarrow> 'd \<times> transport_call list" where
  "publication_round D d =
     (case ds_take D d of (d', taken) \<Rightarrow> (d', case taken of Some pending \<Rightarrow> publishBatch pending | None \<Rightarrow> []))"

fun pub_step ::
  "'d dirty_ops \<Rightarrow> (string \<Rightarrow> 32 word option) \<Rightarrow> pub_op \<Rightarrow> 'd pub_system \<Rightarrow> 'd pub_system" where
  "pub_step D pton (PubCall call) s =
     (let (e, evs) = timed_step pton call (ps_engine s)
      in s\<lparr>ps_engine := e, ps_dirty := fold (onModelEvent D) evs (ps_dirty s)\<rparr>)"
| "pub_step D pton PubDrain s =
     (let (d, calls) = publication_round D (ps_dirty s)
      in s\<lparr>ps_dirty := d, ps_wire := ps_wire s @ calls\<rparr>)"
| "pub_step D pton PubDeliver s =
     (case ps_wire s of
        [] \<Rightarrow> s
      | call # calls \<Rightarrow> s\<lparr>ps_wire := calls, ps_client := client_handle (ps_engine s) call (ps_client s)\<rparr>)"

fun pub_run ::
  "'d dirty_ops \<Rightarrow> (string \<Rightarrow> 32 word option) \<Rightarrow> pub_op list \<Rightarrow> 'd pub_system \<Rightarrow> 'd pub_system" where
  "pub_run D pton [] s = s"
| "pub_run D pton (op # ops) s = pub_run D pton ops (pub_step D pton op s)"

fun pub_adm ::
  "'d dirty_ops \<Rightarrow> (string \<Rightarrow> 32 word option) \<Rightarrow> pub_op list \<Rightarrow> 'd pub_system \<Rightarrow> bool" where
  "pub_adm D pton [] s \<longleftrightarrow> True"
| "pub_adm D pton (op # ops) s \<longleftrightarrow>
     (case op of PubCall call \<Rightarrow> timed_adm call (ps_engine s) | _ \<Rightarrow> True) \<and> pub_adm D pton ops (pub_step D pton op s)"

fun notice :: "transport_call \<Rightarrow> (string \<times> publication_intent) option" where
  "notice (PublishCandidateChanged mac) = Some (mac, PubChanged)"
| "notice (PublishCandidateRemoved mac) = Some (mac, PubRemoved)"
| "notice _ = None"

text \<open>The last word on its way about a MAC: the pending mark, else the last signal on the wire.\<close>

fun last_notice :: "transport_call list \<Rightarrow> string \<Rightarrow> publication_intent option" where
  "last_notice [] mac = None"
| "last_notice (c # cs) mac =
     (case last_notice cs mac of
        Some i \<Rightarrow> Some i
      | None \<Rightarrow> (case notice c of Some (m, i) \<Rightarrow> if m = mac then Some i else None | None \<Rightarrow> None))"

definition told :: "(publication_key \<Rightarrow> publication_intent option) \<Rightarrow> transport_call list \<Rightarrow> string \<Rightarrow> publication_intent option" where
  "told pend wire mac = (case pend (CandidateKey mac) of Some i \<Rightarrow> Some i | None \<Rightarrow> last_notice wire mac)"

definition in_step ::
  "string set \<Rightarrow> (publication_key \<Rightarrow> publication_intent option) \<Rightarrow> transport_call list \<Rightarrow> string set \<Rightarrow> bool" where
  "in_step W pend wire V \<longleftrightarrow>
     (\<forall>mac. case told pend wire mac of
        None \<Rightarrow> mac \<in> V \<longleftrightarrow> mac \<in> W
      | Some PubRemoved \<Rightarrow> mac \<notin> W
      | Some PubChanged \<Rightarrow> True)"


section \<open>Each step keeps the client in step\<close>

lemma last_notice_append:
  "last_notice (xs @ ys) mac = (case last_notice ys mac of Some i \<Rightarrow> Some i | None \<Rightarrow> last_notice xs mac)"
  by (induction xs) (auto split: option.split)

lemma last_notice_batch:
  "distinct (map fst m) \<Longrightarrow> last_notice (publishBatch m) mac = map_of m (CandidateKey mac)"
proof (induction m)
  case (Cons x m)
  obtain k i where x: "x = (k, i)" by (cases x)
  have none: "map_of m k = None" using Cons.prems x by (simp add: map_of_eq_None_iff)
  have "last_notice (publishBatch m) mac = map_of m (CandidateKey mac)" using Cons by simp
  then show ?case using none x
    by (cases k; cases i) (auto simp: publishBatch_def split: option.splits)
qed (simp add: publishBatch_def)

lemma dirty_mark:
  assumes "dirty_ok D" "\<not> ds_closed D d"
  shows "ds_pend D (fst (ds_mark D k i d)) = (ds_pend D d)(k \<mapsto> i)" "\<not> ds_closed D (fst (ds_mark D k i d))"
  using assms by (simp_all add: dirty_ok_def)

lemma in_step_mark:
  assumes "in_step W pend wire V" "\<And>m. m \<noteq> mac \<Longrightarrow> m \<in> W' \<longleftrightarrow> m \<in> W" "i = PubRemoved \<Longrightarrow> mac \<notin> W'"
  shows "in_step W' (pend(CandidateKey mac \<mapsto> i)) wire V"
  unfolding in_step_def
proof
  fix m
  show "case told (pend(CandidateKey mac \<mapsto> i)) wire m of None \<Rightarrow> m \<in> V \<longleftrightarrow> m \<in> W'
      | Some PubRemoved \<Rightarrow> m \<notin> W' | Some PubChanged \<Rightarrow> True"
  proof (cases "m = mac")
    case True
    then show ?thesis using assms(3) by (cases i) (simp_all add: told_def)
  next
    case False
    then have "told (pend(CandidateKey mac \<mapsto> i)) wire m = told pend wire m" by (simp add: told_def)
    then show ?thesis using assms(1)[unfolded in_step_def, rule_format, of m] assms(2)[OF False]
      by (auto split: option.splits publication_intent.splits)
  qed
qed

lemma in_step_marks:
  assumes "in_step W pend wire V"
  shows "in_step W (pend(CandidateKey mac \<mapsto> PubChanged)) wire V"
    and "in_step (insert mac W) (pend(CandidateKey mac \<mapsto> PubChanged)) wire V"
    and "in_step (W - {mac}) (pend(CandidateKey mac \<mapsto> PubRemoved)) wire V"
  using assms by (auto intro: in_step_mark)

lemma in_step_other:
  "in_step W (pend(InterfaceKey n \<mapsto> i)) wire V = in_step W pend wire V"
  "in_step W (pend(LocalStateKey \<mapsto> i)) wire V = in_step W pend wire V"
  by (simp_all add: in_step_def told_def)

lemma onModelEvent_in_step:
  assumes D: "dirty_ok D" "\<not> ds_closed D d" and ev: "me_kind ev \<noteq> CandidateExpired"
    and I: "in_step W (ds_pend D d) wire V"
  shows "in_step (apply_event ev W) (ds_pend D (onModelEvent D ev d)) wire V \<and> \<not> ds_closed D (onModelEvent D ev d)"
  using assms
  by (cases "me_kind ev"; cases "me_mac ev"; cases "me_ifname ev")
     (simp_all add: onModelEvent_def apply_event_def dirty_mark markLocalStateChanged_def in_step_other
        markInterfaceChanged_def markInterfaceRemoved_def markCandidateChanged_def markCandidateRemoved_def
        in_step_marks)

lemma events_in_step:
  "dirty_ok D \<Longrightarrow> \<not> ds_closed D d \<Longrightarrow> (\<forall>ev\<in>set evs. me_kind ev \<noteq> CandidateExpired) \<Longrightarrow> in_step W (ds_pend D d) wire V \<Longrightarrow>
   in_step (replay evs W) (ds_pend D (fold (onModelEvent D) evs d)) wire V \<and> \<not> ds_closed D (fold (onModelEvent D) evs d)"
proof (induction evs arbitrary: d W)
  case (Cons ev evs)
  then have "in_step (apply_event ev W) (ds_pend D (onModelEvent D ev d)) wire V" "\<not> ds_closed D (onModelEvent D ev d)"
    using onModelEvent_in_step[of D d ev W wire V] by auto
  with Cons show ?case by simp
qed simp

lemma drain_in_step:
  assumes D: "dirty_ok D" "\<not> ds_closed D d" and I: "in_step W (ds_pend D d) wire V"
    and r: "publication_round D d = (d', calls)"
  shows "in_step W (ds_pend D d') (wire @ calls) V" "\<not> ds_closed D d'" "ds_pend D d' = Map.empty"
proof -
  obtain t where t: "ds_take D d = (d', t)" "calls = (case t of Some m \<Rightarrow> publishBatch m | None \<Rightarrow> [])"
    using r by (auto simp: publication_round_def split: prod.splits)
  have laws: "\<not> ds_closed D d'"
    "case t of None \<Rightarrow> ds_pend D d = Map.empty \<and> d' = d
     | Some m \<Rightarrow> sorted_wrt (<) (map fst m) \<and> map_of m = ds_pend D d \<and> ds_pend D d' = Map.empty"
    using conjunct2[OF D(1)[unfolded dirty_ok_def], rule_format, OF D(2)] t(1) by (auto split: option.splits)
  show "\<not> ds_closed D d'" by (rule laws(1))
  show e: "ds_pend D d' = Map.empty" using laws(2) by (auto split: option.splits)
  have "told (ds_pend D d') (wire @ calls) mac = told (ds_pend D d) wire mac" for mac
  proof (cases t)
    case (Some m)
    then have "distinct (map fst m)" "map_of m = ds_pend D d" using laws(2) strict_sorted_iff by auto
    then show ?thesis using e t(2) Some last_notice_batch[of m mac]
      by (simp add: told_def last_notice_append)
  qed (use laws(2) t(2) in \<open>simp add: told_def\<close>)
  with I show "in_step W (ds_pend D d') (wire @ calls) V" by (simp add: in_step_def)
qed

lemma deliver_in_step:
  assumes I: "in_step (visible e) pend (call # wire) V"
  shows "in_step (visible e) pend wire (client_handle e call V)"
proof -
  have "case told pend wire mac of None \<Rightarrow> mac \<in> client_handle e call V \<longleftrightarrow> mac \<in> visible e
      | Some PubRemoved \<Rightarrow> mac \<notin> visible e | Some PubChanged \<Rightarrow> True" for mac
    using I[unfolded in_step_def, rule_format, of mac]
    by (cases call) (auto simp: told_def client_handle_def visible_def split: option.splits publication_intent.splits if_splits)
  then show ?thesis by (simp add: in_step_def)
qed


section \<open>The kinds of events the engine emits\<close>

lemma deliverPending_kinds: "ev \<in> set (deliverPending sink td p) \<Longrightarrow> me_kind ev \<noteq> CandidateExpired"
  by (auto simp: deliverPending_def candidate_event_def split: if_splits)

lemma engine_step_kinds: "ev \<in> set (snd (engine_step pton tc td op e)) \<Longrightarrow> me_kind ev \<noteq> CandidateExpired"
  by (cases op)
     (auto simp: engine_onLinkObservation_def engine_onAddressObservation_def engine_onNeighborObservation_def
       engine_onFdbObservation_def engine_onLldpObservation_def engine_age_def prepareForRestart_def markLive_def
       Let_def case_prod_beta split: if_splits dest: deliverPending_kinds)

end
