(* ===== verification/Observation_Service.thy ===== *)
theory Observation_Service
  imports Publication Observation_Codec
begin

text \<open>
  \<open>service/ObservationService.cpp\<close>: the issue table, the isolation of failing transports, the reactions to dying
  workers and the order of the start and stop sequences.

  \<open>OperationalDiagnostics\<close>, \<open>ServiceBase\<close>, \<open>LifecycleCoordinator\<close> and \<open>ManagedWorker\<close> are not part of
  the repository. The two sanitising functions are the argument \<open>diag_ops\<close>; the others appear as
  the calls the service makes (\<open>service_call\<close>) and the answers it gets.
\<close>

record diag_ops =
  dg_sanitizeField :: "string \<Rightarrow> string"
  dg_sanitizeMessage :: "string \<Rightarrow> string"

definition OBS_PHASE_INITIALIZING :: string where "OBS_PHASE_INITIALIZING = ''initializing''"
definition OBS_PHASE_LIVE :: string where "OBS_PHASE_LIVE = ''live''"
definition OBS_PHASE_STOPPED :: string where "OBS_PHASE_STOPPED = ''stopped''"
definition ISSUE_CODE_RUNTIME_STOPPED :: string where
  "ISSUE_CODE_RUNTIME_STOPPED = ''observation.runtime.stopped''"
definition ISSUE_CODE_AGING_LOOP_STOPPED :: string where
  "ISSUE_CODE_AGING_LOOP_STOPPED = ''observation.worker.aging.stopped''"
definition ISSUE_CODE_SUPERVISION_LOOP_STOPPED :: string where
  "ISSUE_CODE_SUPERVISION_LOOP_STOPPED = ''observation.worker.supervision.stopped''"
definition ISSUE_CODE_LLDP_UNAVAILABLE :: string where
  "ISSUE_CODE_LLDP_UNAVAILABLE = ''observation.input.lldp.unavailable''"
definition ISSUE_CODE_PUBLICATION_LOOP_STOPPED :: string where
  "ISSUE_CODE_PUBLICATION_LOOP_STOPPED = ''observation.worker.publication.stopped''"


section \<open>Issues\<close>

definition makeTransportIssueCode :: "diag_ops \<Rightarrow> string \<Rightarrow> string \<Rightarrow> string" where
  "makeTransportIssueCode dg transportName operation =
     ''observation.transport.'' @ dg_sanitizeField dg transportName @ ''.''
       @ dg_sanitizeField dg operation @ ''.failed''"

text \<open>Reporting and clearing return the table and whether it changed, which is when they log.\<close>

definition obs_reportIssue ::
  "diag_ops \<Rightarrow> string \<Rightarrow> string \<Rightarrow> string \<Rightarrow> string \<Rightarrow> string \<Rightarrow> string \<Rightarrow> string
     \<Rightarrow> observation_issues \<Rightarrow> observation_issues \<times> bool" where
  "obs_reportIssue dg issueCode severity component operation category identity message issues =
     (let issueFields =
            oput ''message'' (dg_sanitizeMessage dg message)
           (oput ''identity'' (dg_sanitizeField dg identity)
           (oput ''category'' (dg_sanitizeField dg category)
           (oput ''operation'' (dg_sanitizeField dg operation)
           (oput ''component'' (dg_sanitizeField dg component)
           (oput ''severity'' (dg_sanitizeField dg severity) [])))))
      in if map_of issues issueCode = None \<or> map_of issues issueCode \<noteq> Some issueFields
         then (oput issueCode issueFields issues, True)
         else (issues, False))"

definition obs_clearIssue :: "string \<Rightarrow> observation_issues \<Rightarrow> observation_issues \<times> bool" where
  "obs_clearIssue issueCode issues = (oerase issueCode issues, map_of issues issueCode \<noteq> None)"

definition noteTransportPublishFailure ::
  "diag_ops \<Rightarrow> string \<Rightarrow> string \<Rightarrow> string \<Rightarrow> observation_issues \<Rightarrow> observation_issues" where
  "noteTransportPublishFailure dg transportName operation message issues =
     fst (obs_reportIssue dg (makeTransportIssueCode dg transportName operation) ''warning''
       (''transport.'' @ dg_sanitizeField dg transportName) operation ''transport_publish_failed''
       transportName message issues)"

definition clearTransportPublishFailure ::
  "diag_ops \<Rightarrow> string \<Rightarrow> string \<Rightarrow> observation_issues \<Rightarrow> observation_issues" where
  "clearTransportPublishFailure dg transportName operation issues =
     fst (obs_clearIssue (makeTransportIssueCode dg transportName operation) issues)"

text \<open>A transport with the exception its publish call throws, if any.\<close>

fun publishToAll ::
  "diag_ops \<Rightarrow> string \<Rightarrow> (string \<times> string option) list \<Rightarrow> observation_issues \<Rightarrow> observation_issues" where
  "publishToAll dg op [] issues = issues"
| "publishToAll dg op ((transportName, thrown) # ts) issues =
     publishToAll dg op ts
       (case thrown of
          None \<Rightarrow> clearTransportPublishFailure dg transportName op issues
        | Some what \<Rightarrow> noteTransportPublishFailure dg transportName op what issues)"

definition refreshRuntimeIssues :: "diag_ops \<Rightarrow> runtime_health \<Rightarrow> observation_issues \<Rightarrow> observation_issues" where
  "refreshRuntimeIssues dg health issues =
     (let issues1 =
            (if \<not> rh_running health
             then fst (obs_reportIssue dg ISSUE_CODE_RUNTIME_STOPPED ''error'' ''runtime'' ''poll_health''
                    ''runtime_stopped'' ''runtime'' ''runtime is not running'' issues)
             else fst (obs_clearIssue ISSUE_CODE_RUNTIME_STOPPED issues))
      in if \<not> rh_lldpAvailable health
         then fst (obs_reportIssue dg ISSUE_CODE_LLDP_UNAVAILABLE ''warning'' ''input.lldp'' ''poll_health''
                ''input_degraded'' ''lldp'' ''LLDP observer is unavailable'' issues1)
         else fst (obs_clearIssue ISSUE_CODE_LLDP_UNAVAILABLE issues1))"

text \<open>How a worker ended: \<open>Some\<close> for an exception, with the text of a \<open>std::exception\<close>.\<close>

type_synonym worker_exit = "string option option"

definition exit_detail :: "string option \<Rightarrow> string" where
  "exit_detail what = (case what of Some s \<Rightarrow> s | None \<Rightarrow> ''unknown exception'')"

definition onPublicationWorkerExit :: "diag_ops \<Rightarrow> worker_exit \<Rightarrow> observation_issues \<Rightarrow> observation_issues" where
  "onPublicationWorkerExit dg exit issues =
     (case exit of
        None \<Rightarrow> issues
      | Some what \<Rightarrow> fst (obs_reportIssue dg ISSUE_CODE_PUBLICATION_LOOP_STOPPED ''error'' ''worker.publication''
                            ''publish'' ''worker_loop_failed'' ''publication'' (exit_detail what) issues))"

definition onAgingWorkerExit :: "diag_ops \<Rightarrow> worker_exit \<Rightarrow> observation_issues \<Rightarrow> observation_issues" where
  "onAgingWorkerExit dg exit issues =
     (case exit of
        None \<Rightarrow> issues
      | Some what \<Rightarrow> fst (obs_reportIssue dg ISSUE_CODE_AGING_LOOP_STOPPED ''error'' ''worker.aging''
                            ''age'' ''worker_loop_failed'' ''aging'' (exit_detail what) issues))"

definition onSupervisionWorkerExit :: "diag_ops \<Rightarrow> worker_exit \<Rightarrow> observation_issues \<Rightarrow> observation_issues" where
  "onSupervisionWorkerExit dg exit issues =
     (case exit of
        None \<Rightarrow> issues
      | Some what \<Rightarrow> fst (obs_reportIssue dg ISSUE_CODE_SUPERVISION_LOOP_STOPPED ''error'' ''worker.supervision''
                            ''tick'' ''worker_loop_failed'' ''supervision'' (exit_detail what) issues))"

definition obs_getPhase :: "bool \<Rightarrow> bool \<Rightarrow> string" where
  "obs_getPhase running ready =
     (if \<not> running then OBS_PHASE_STOPPED
      else if ready then OBS_PHASE_LIVE else OBS_PHASE_INITIALIZING)"

definition obs_getInterface :: "string \<Rightarrow> engine \<Rightarrow> local_interface_state option" where
  "obs_getInterface ifname e = map_of (ls_interfaces (localSnapshot e)) ifname"


section \<open>The aging worker\<close>

text \<open>
  One round of the loop: whether stop was requested before it, whether the wait ended by a stop
  request, the time and the health that are then read.
\<close>

record aging_round =
  ag_stopBefore :: bool
  ag_stopped :: bool
  ag_now :: time_point
  ag_health :: runtime_health

fun agingLoop ::
  "diag_ops \<Rightarrow> aging_round list \<Rightarrow> engine \<Rightarrow> observation_issues \<Rightarrow> engine \<times> model_event list \<times> observation_issues" where
  "agingLoop dg [] e issues = (e, [], issues)"
| "agingLoop dg (r # rs) e issues =
     (if ag_stopBefore r then (e, [], issues)
      else if ag_stopped r then (e, [], issues)
      else (let (e1, evs1) = engine_age (ag_now r) (ag_now r) e;
                (e2, evs2, issues2) = agingLoop dg rs e1 (refreshRuntimeIssues dg (ag_health r) issues)
            in (e2, evs1 @ evs2, issues2)))"


section \<open>Construction\<close>

datatype service_error = InvalidArgument | RuntimeError

definition new_observation_service :: "bool \<Rightarrow> string option \<Rightarrow> service_error + string list" where
  "new_observation_service hasRuntime transport =
     (if \<not> hasRuntime then Inl InvalidArgument
      else case transport of None \<Rightarrow> Inl InvalidArgument | Some t \<Rightarrow> Inr [t])"

definition obs_addTransport :: "bool \<Rightarrow> string option \<Rightarrow> string list \<Rightarrow> service_error + string list" where
  "obs_addTransport running transport transports =
     (case transport of
        None \<Rightarrow> Inl InvalidArgument
      | Some t \<Rightarrow> if running then Inl RuntimeError else Inr (transports @ [t]))"


section \<open>Start and stop\<close>

datatype service_part = BasePart | QueuePart | PublicationPart | RuntimePart | AgingPart | SupervisionPart

datatype service_call = StartPart service_part | StopPart service_part | SetReady bool | QuiesceQueries

definition onStartFailedCleanUp :: "service_call list" where
  "onStartFailedCleanUp = [StopPart SupervisionPart, StopPart AgingPart, StopPart RuntimePart,
     StopPart QueuePart, StopPart PublicationPart, StopPart BasePart]"

record service_start_answers =
  sv_begin :: bool
  sv_base :: bool
  sv_publicationThrows :: bool
  sv_runtime :: bool
  sv_health :: runtime_health
  sv_agingThrows :: bool
  sv_supervisionThrows :: bool

definition service_start ::
  "diag_ops \<Rightarrow> service_start_answers \<Rightarrow> observation_issues \<Rightarrow> service_call list \<times> observation_issues \<times> bool" where
  "service_start dg a issues =
     (if \<not> sv_begin a then ([], issues, True)
      else if \<not> sv_base a then ([StartPart BasePart], issues, False)
      else
        (let c1 = [StartPart BasePart, StartPart QueuePart, StartPart PublicationPart]
         in if sv_publicationThrows a then (c1 @ [StopPart QueuePart, StopPart BasePart], issues, False)
            else
              (let c2 = c1 @ [StartPart RuntimePart]
               in if \<not> sv_runtime a then (c2 @ onStartFailedCleanUp, issues, False)
                  else
                    (let issues' = refreshRuntimeIssues dg (sv_health a) issues;
                         c3 = c2 @ [SetReady True, StartPart AgingPart]
                     in if sv_agingThrows a then (c3 @ onStartFailedCleanUp, issues', False)
                        else
                          (let c4 = c3 @ [StartPart SupervisionPart]
                           in if sv_supervisionThrows a then (c4 @ onStartFailedCleanUp, issues', False)
                              else (c4, issues', True))))))"

definition service_stop :: "bool \<Rightarrow> bool \<Rightarrow> observation_issues \<Rightarrow> service_call list \<times> observation_issues" where
  "service_stop onWorkerThread beginStop issues =
     (if onWorkerThread then ([], issues)
      else if \<not> beginStop then ([], issues)
      else ([QuiesceQueries, StopPart SupervisionPart, StopPart AgingPart, StopPart RuntimePart, StopPart QueuePart,
             StopPart PublicationPart, StopPart BasePart], []))"

end
