(* ===== verification/Service_Properties.thy ===== *)
theory Service_Properties
  imports Observation_Service Engine_Properties
begin

text \<open>
  Properties that span the model and the services around it: what a client of the observation
  service holds after any interleaving of model calls, publications and signal deliveries.
\<close>

section \<open>Publication\<close>

definition pub_ok :: "'d dirty_ops \<Rightarrow> 'd pub_system \<Rightarrow> bool" where
  "pub_ok D s \<longleftrightarrow> engine_ok (ps_engine s) \<and> en_sink (ps_engine s) \<and> \<not> ds_closed D (ps_dirty s) \<and>
     in_step (visible (ps_engine s)) (ds_pend D (ps_dirty s)) (ps_wire s) (ps_client s)"

lemma pub_call_ok:
  assumes D: "dirty_ok D" and ok: "pub_ok D s" and adm: "timed_adm call (ps_engine s)"
  shows "pub_ok D (pub_step D pton (PubCall call) s)"
proof -
  obtain tc td op where call: "call = (tc, td, op)" by (cases call)
  obtain e evs where st: "timed_step pton call (ps_engine s) = (e, evs)" by (cases "timed_step pton call (ps_engine s)")
  have e: "engine_ok (ps_engine s)" "en_sink (ps_engine s)" using ok by (simp_all add: pub_ok_def)
  have 1: "engine_ok e \<and> en_sink e" "replay evs (visible (ps_engine s)) = visible e"
    using model_view.step_ok[of "ps_engine s" call pton] model_view.step_view[of "ps_engine s" call pton] e adm st
    by (simp_all add: replay_def)
  have "\<forall>ev\<in>set evs. me_kind ev \<noteq> CandidateExpired"
    using st call engine_step_kinds[of _ pton tc td op "ps_engine s"] by (auto simp: timed_step_def)
  with events_in_step[OF D, of "ps_dirty s" evs "visible (ps_engine s)" "ps_wire s" "ps_client s"] ok 1 st
  show ?thesis by (simp add: pub_ok_def)
qed

lemma pub_step_ok:
  assumes D: "dirty_ok D" and ok: "pub_ok D s"
    and adm: "case op of PubCall call \<Rightarrow> timed_adm call (ps_engine s) | _ \<Rightarrow> True"
  shows "pub_ok D (pub_step D pton op s)"
proof (cases op)
  case (PubCall call)
  then show ?thesis using pub_call_ok[OF D ok] adm by simp
next
  case PubDrain
  obtain d calls where r: "publication_round D (ps_dirty s) = (d, calls)" by (cases "publication_round D (ps_dirty s)")
  show ?thesis using PubDrain ok r drain_in_step[OF D _ _ r] by (auto simp: pub_ok_def)
next
  case PubDeliver
  then show ?thesis using ok deliver_in_step by (auto simp: pub_ok_def split: list.split)
qed

lemma pub_run_ok:
  "dirty_ok D \<Longrightarrow> pub_ok D s \<Longrightarrow> pub_adm D pton ops s \<Longrightarrow> pub_ok D (pub_run D pton ops s)"
proof (induction ops arbitrary: s)
  case (Cons op ops)
  then show ?case using pub_step_ok[of D s op pton] by simp
qed simp

lemma deliver_all:
  "pub_ok D s \<Longrightarrow> dirty_ok D \<Longrightarrow>
   pub_ok D (pub_run D pton (replicate (length (ps_wire s)) PubDeliver) s) \<and>
   ps_wire (pub_run D pton (replicate (length (ps_wire s)) PubDeliver) s) = [] \<and>
   ps_engine (pub_run D pton (replicate (length (ps_wire s)) PubDeliver) s) = ps_engine s \<and>
   ps_dirty (pub_run D pton (replicate (length (ps_wire s)) PubDeliver) s) = ps_dirty s"
proof (induction "length (ps_wire s)" arbitrary: s)
  case (Suc n)
  then obtain c cs where w: "ps_wire s = c # cs" by (cases "ps_wire s") auto
  let ?s = "pub_step D pton PubDeliver s"
  have "pub_ok D ?s" by (rule pub_step_ok[OF Suc.prems(2,1)]) simp
  from Suc.hyps(1)[of ?s, OF _ this Suc.prems(2)] Suc.hyps(2) w show ?case by simp
qed simp


text \<open>An instance of the coalescing set: the marks, newest first, taken in key order.\<close>

definition mark_log :: "pending_publication dirty_ops" where
  "mark_log = \<lparr>ds_mark = \<lambda>k i d. ((k, i) # d, True),
     ds_take = \<lambda>d. (if d = [] then (d, None)
       else ([], Some (map (\<lambda>k. (k, the (map_of d k))) (sorted_list_of_set (keys d))))),
     ds_pend = map_of, ds_closed = \<lambda>d. False\<rparr>"

lemma map_of_keyed: "map_of (map (\<lambda>k. (k, f k)) ks) k = (if k \<in> set ks then Some (f k) else None)"
  by (induction ks) auto

lemma mark_log_ok: "dirty_ok mark_log"
proof -
  have "map_of (map (\<lambda>k. (k, the (map_of d k))) (sorted_list_of_set (keys d))) = map_of d"
    for d :: pending_publication
  proof
    fix k
    show "map_of (map (\<lambda>k. (k, the (map_of d k))) (sorted_list_of_set (keys d))) k = map_of d k"
      using map_of_eq_None_iff[of d k] by (cases "map_of d k") (auto simp: map_of_keyed)
  qed
  then show ?thesis by (simp add: dirty_ok_def mark_log_def o_def fun_eq_iff)
qed

definition sample_pub_ops :: "pub_op list" where
  "sample_pub_ops = [PubCall (1, 1, OpMarkLive), PubCall (2, 2, OpLldp sample_lldp), PubDrain, PubCall (4, 4, OpPrepareForRestart),
     PubDeliver]"

definition sample_pub_state :: "pending_publication pub_system" where
  "sample_pub_state = pub_step mark_log sample_pton PubDrain (pub_run mark_log sample_pton sample_pub_ops
     \<lparr>ps_engine = sample_engine, ps_dirty = [], ps_wire = [], ps_client = visible sample_engine\<rparr>)"



section \<open>The issue table\<close>

datatype issue_op =
    IssuePublish string "(string \<times> string option) list"
  | IssueHealth runtime_health
  | IssuePublicationExit worker_exit
  | IssueAgingExit worker_exit
  | IssueSupervisionExit worker_exit

fun issue_step :: "diag_ops \<Rightarrow> issue_op \<Rightarrow> observation_issues \<Rightarrow> observation_issues" where
  "issue_step dg (IssuePublish op ts) issues = publishToAll dg op ts issues"
| "issue_step dg (IssueHealth h) issues = refreshRuntimeIssues dg h issues"
| "issue_step dg (IssuePublicationExit x) issues = onPublicationWorkerExit dg x issues"
| "issue_step dg (IssueAgingExit x) issues = onAgingWorkerExit dg x issues"
| "issue_step dg (IssueSupervisionExit x) issues = onSupervisionWorkerExit dg x issues"

text \<open>What the table should say: which transports failed in their last publication of each kind.\<close>

fun note_outcomes :: "string \<Rightarrow> (string \<times> string option) list \<Rightarrow> (string \<times> string) set \<Rightarrow> (string \<times> string) set" where
  "note_outcomes op [] F = F"
| "note_outcomes op ((t, thrown) # ts) F =
     note_outcomes op ts (if thrown = None then F - {(t, op)} else insert (t, op) F)"

fun note_op :: "issue_op \<Rightarrow> (string \<times> string) set \<Rightarrow> (string \<times> string) set" where
  "note_op (IssuePublish op ts) F = note_outcomes op ts F"
| "note_op _ F = F"

fun last_health :: "issue_op list \<Rightarrow> runtime_health option \<Rightarrow> runtime_health option" where
  "last_health [] h = h"
| "last_health (IssueHealth h' # ops) h = last_health ops (Some h')"
| "last_health (_ # ops) h = last_health ops h"

fun op_pairs :: "issue_op \<Rightarrow> (string \<times> string) set" where
  "op_pairs (IssuePublish op ts) = (\<lambda>(t, _). (t, op)) ` set ts"
| "op_pairs _ = {}"

abbreviation issue_code :: "diag_ops \<Rightarrow> string \<times> string \<Rightarrow> string" where
  "issue_code dg p \<equiv> makeTransportIssueCode dg (fst p) (snd p)"

lemma keys_oerase: "fst ` set (oerase k m) = fst ` set m - {k}"
  by (auto simp: oerase_def)

lemma report_keys [simp]:
  "fst ` set (fst (obs_reportIssue dg code a b c d e f issues)) = insert code (fst ` set issues)"
  using map_of_eq_None_iff[of issues code] by (auto simp: obs_reportIssue_def Let_def)

lemma clear_keys [simp]: "fst ` set (fst (obs_clearIssue code issues)) = fst ` set issues - {code}"
  by (simp add: obs_clearIssue_def keys_oerase)

lemma report_clear_ok [simp]:
  "omap_ok issues \<Longrightarrow> omap_ok (fst (obs_reportIssue dg code a b c d e f issues))"
  "omap_ok issues \<Longrightarrow> omap_ok (fst (obs_clearIssue code issues))"
  by (simp_all add: obs_reportIssue_def obs_clearIssue_def Let_def omap_ok_oput omap_ok_oerase)

lemma transport_code_fixed:
  "makeTransportIssueCode dg t op \<noteq> ISSUE_CODE_RUNTIME_STOPPED"
  "makeTransportIssueCode dg t op \<noteq> ISSUE_CODE_LLDP_UNAVAILABLE"
  "makeTransportIssueCode dg t op \<noteq> ISSUE_CODE_PUBLICATION_LOOP_STOPPED"
  "makeTransportIssueCode dg t op \<noteq> ISSUE_CODE_AGING_LOOP_STOPPED"
  "makeTransportIssueCode dg t op \<noteq> ISSUE_CODE_SUPERVISION_LOOP_STOPPED"
  by (simp_all add: makeTransportIssueCode_def ISSUE_CODE_RUNTIME_STOPPED_def ISSUE_CODE_LLDP_UNAVAILABLE_def
      ISSUE_CODE_PUBLICATION_LOOP_STOPPED_def ISSUE_CODE_AGING_LOOP_STOPPED_def
      ISSUE_CODE_SUPERVISION_LOOP_STOPPED_def)

lemma fixed_codes_differ:
  "ISSUE_CODE_RUNTIME_STOPPED \<noteq> ISSUE_CODE_LLDP_UNAVAILABLE"
  "ISSUE_CODE_PUBLICATION_LOOP_STOPPED \<noteq> ISSUE_CODE_LLDP_UNAVAILABLE"
  "ISSUE_CODE_AGING_LOOP_STOPPED \<noteq> ISSUE_CODE_LLDP_UNAVAILABLE"
  "ISSUE_CODE_SUPERVISION_LOOP_STOPPED \<noteq> ISSUE_CODE_LLDP_UNAVAILABLE"
  by (simp_all add: ISSUE_CODE_RUNTIME_STOPPED_def ISSUE_CODE_LLDP_UNAVAILABLE_def
      ISSUE_CODE_PUBLICATION_LOOP_STOPPED_def ISSUE_CODE_AGING_LOOP_STOPPED_def
      ISSUE_CODE_SUPERVISION_LOOP_STOPPED_def)

lemma publishToAll_exact:
  assumes "inj_on (issue_code dg) P"
  shows "omap_ok issues \<Longrightarrow> (\<lambda>(t, _). (t, op)) ` set ts \<subseteq> P \<Longrightarrow>
   (\<forall>p\<in>P. (issue_code dg p) \<in> keys issues \<longleftrightarrow> p \<in> F) \<Longrightarrow>
   omap_ok (publishToAll dg op ts issues) \<and>
   (\<forall>p\<in>P. (issue_code dg p) \<in> keys (publishToAll dg op ts issues) \<longleftrightarrow> p \<in> note_outcomes op ts F) \<and>
   (ISSUE_CODE_LLDP_UNAVAILABLE \<in> keys (publishToAll dg op ts issues)
      \<longleftrightarrow> ISSUE_CODE_LLDP_UNAVAILABLE \<in> keys issues)"
proof (induction ts arbitrary: issues F)
  case (Cons x ts)
  obtain t thrown where x: "x = (t, thrown)" by (cases x)
  define issues1 where "issues1 = (case thrown of None \<Rightarrow> clearTransportPublishFailure dg t op issues
      | Some what \<Rightarrow> noteTransportPublishFailure dg t op what issues)"
  define F1 where "F1 = (if thrown = None then F - {(t, op)} else insert (t, op) F)"
  have tP: "(t, op) \<in> P" using Cons.prems(2) x by auto
  have code: "issue_code dg p = makeTransportIssueCode dg t op \<longleftrightarrow> p = (t, op)" if "p \<in> P" for p
    using inj_onD[OF assms _ that tP] by auto
  have 1: "omap_ok issues1" using Cons.prems(1)
    by (simp add: issues1_def clearTransportPublishFailure_def noteTransportPublishFailure_def split: option.split)
  have 2: "\<forall>p\<in>P. issue_code dg p \<in> keys issues1 \<longleftrightarrow> p \<in> F1"
    using Cons.prems(3) code
    by (cases thrown)
       (simp_all add: issues1_def F1_def clearTransportPublishFailure_def noteTransportPublishFailure_def)
  have 3: "ISSUE_CODE_LLDP_UNAVAILABLE \<in> keys issues1 \<longleftrightarrow> ISSUE_CODE_LLDP_UNAVAILABLE \<in> keys issues"
    using transport_code_fixed(2)[of dg t op]
    by (cases thrown)
       (auto simp: issues1_def clearTransportPublishFailure_def noteTransportPublishFailure_def)
  from Cons.IH[OF 1 _ 2] 3 Cons.prems(2) x show ?case by (simp add: issues1_def F1_def)
qed simp

lemma refreshRuntimeIssues_exact:
  assumes "omap_ok issues"
  shows "omap_ok (refreshRuntimeIssues dg h issues)"
    "(makeTransportIssueCode dg t op) \<in> keys (refreshRuntimeIssues dg h issues)
       \<longleftrightarrow> (makeTransportIssueCode dg t op) \<in> keys issues"
    "ISSUE_CODE_LLDP_UNAVAILABLE \<in> keys (refreshRuntimeIssues dg h issues) \<longleftrightarrow> \<not> rh_lldpAvailable h"
  using assms transport_code_fixed[of dg t op] by (auto simp: refreshRuntimeIssues_def Let_def)

lemma worker_exit_exact:
  assumes "omap_ok issues" "handler \<in> {onPublicationWorkerExit, onAgingWorkerExit, onSupervisionWorkerExit}"
  shows "omap_ok (handler dg x issues)"
    "(makeTransportIssueCode dg t op) \<in> keys (handler dg x issues)
       \<longleftrightarrow> (makeTransportIssueCode dg t op) \<in> keys issues"
    "ISSUE_CODE_LLDP_UNAVAILABLE \<in> keys (handler dg x issues)
       \<longleftrightarrow> ISSUE_CODE_LLDP_UNAVAILABLE \<in> keys issues"
proof -
  have "\<exists>code a b c d e. handler dg x issues
      = (case x of None \<Rightarrow> issues | Some w \<Rightarrow> fst (obs_reportIssue dg code a b c d e (exit_detail w) issues)) \<and>
      code \<noteq> makeTransportIssueCode dg t op \<and> code \<noteq> ISSUE_CODE_LLDP_UNAVAILABLE"
    using assms(2) transport_code_fixed(3-5)[of dg t op, THEN not_sym] fixed_codes_differ(2-4)
    unfolding onPublicationWorkerExit_def onAgingWorkerExit_def onSupervisionWorkerExit_def by blast
  then obtain code a b c d e where h: "handler dg x issues
      = (case x of None \<Rightarrow> issues | Some w \<Rightarrow> fst (obs_reportIssue dg code a b c d e (exit_detail w) issues))"
    and code: "code \<noteq> makeTransportIssueCode dg t op" "code \<noteq> ISSUE_CODE_LLDP_UNAVAILABLE" by blast
  show "omap_ok (handler dg x issues)" using assms(1) h by (cases x) simp_all
  show "makeTransportIssueCode dg t op \<in> keys (handler dg x issues) \<longleftrightarrow> makeTransportIssueCode dg t op \<in> keys issues"
    using h code by (cases x) auto
  show "ISSUE_CODE_LLDP_UNAVAILABLE \<in> keys (handler dg x issues) \<longleftrightarrow> ISSUE_CODE_LLDP_UNAVAILABLE \<in> keys issues"
    using h code by (cases x) auto
qed

definition issues_exact :: "diag_ops \<Rightarrow> (string \<times> string) set \<Rightarrow> (string \<times> string) set \<Rightarrow> runtime_health option
    \<Rightarrow> observation_issues \<Rightarrow> bool" where
  "issues_exact dg P F h issues \<longleftrightarrow> omap_ok issues \<and>
     (\<forall>p\<in>P. (issue_code dg p) \<in> keys issues \<longleftrightarrow> p \<in> F) \<and>
     (ISSUE_CODE_LLDP_UNAVAILABLE \<in> keys issues \<longleftrightarrow> (\<exists>x. h = Some x \<and> \<not> rh_lldpAvailable x))"

lemma issue_step_exact:
  assumes "inj_on (issue_code dg) P" "op_pairs op \<subseteq> P" "issues_exact dg P F h issues"
  shows "issues_exact dg P (note_op op F) (last_health [op] h) (issue_step dg op issues)"
proof (cases op)
  case (IssuePublish o1 ts)
  then show ?thesis using assms publishToAll_exact[OF assms(1), of issues o1 ts F]
    by (simp add: issues_exact_def)
qed (use assms refreshRuntimeIssues_exact worker_exit_exact in \<open>simp_all add: issues_exact_def\<close>)

lemma last_health_Cons: "last_health (op # ops) h = last_health ops (last_health [op] h)"
  by (cases op) simp_all

lemma issue_run_exact:
  assumes "inj_on (issue_code dg) P"
  shows "(\<forall>op\<in>set ops. op_pairs op \<subseteq> P) \<Longrightarrow> issues_exact dg P F h issues \<Longrightarrow>
    issues_exact dg P (fold note_op ops F) (last_health ops h) (fold (issue_step dg) ops issues)"
proof (induction ops arbitrary: F h issues)
  case (Cons op ops)
  have "issues_exact dg P (note_op op F) (last_health [op] h) (issue_step dg op issues)"
    using issue_step_exact[OF assms _ Cons.prems(2)] Cons.prems(1) by simp
  from Cons.IH[OF _ this] Cons.prems(1) last_health_Cons[of op ops h] show ?case by simp
qed simp

text \<open>
  (C26) After any sequence of publications, health polls and worker deaths the issue table names a transport and operation
  exactly when the last publication of that kind to that transport threw, and the LLDP input exactly
  when the last poll found it unavailable, provided the transports' issue codes are distinct.
\<close>

theorem service_issues_exact:
  assumes "inj_on (issue_code dg) P" "\<forall>op\<in>set ops. op_pairs op \<subseteq> P" "(t, operation) \<in> P"
  shows "((makeTransportIssueCode dg t operation) \<in> keys (fold (issue_step dg) ops [])
           \<longleftrightarrow> (t, operation) \<in> fold note_op ops {}) \<and>
    (ISSUE_CODE_LLDP_UNAVAILABLE \<in> keys (fold (issue_step dg) ops [])
           \<longleftrightarrow> (\<exists>h. last_health ops None = Some h \<and> \<not> rh_lldpAvailable h))"
proof -
  have "issues_exact dg P {} None []" by (simp add: issues_exact_def)
  from issue_run_exact[OF assms(1,2) this] have
    all: "\<forall>p\<in>P. issue_code dg p \<in> keys (fold (issue_step dg) ops []) \<longleftrightarrow> p \<in> fold note_op ops {}"
    and lldp: "ISSUE_CODE_LLDP_UNAVAILABLE \<in> keys (fold (issue_step dg) ops [])
        \<longleftrightarrow> (\<exists>h. last_health ops None = Some h \<and> \<not> rh_lldpAvailable h)"
    unfolding issues_exact_def by blast+
  from bspec[OF all assms(3)] lldp show ?thesis by simp
qed

theorem service_issues_exact_witness:
  "(makeTransportIssueCode \<lparr>dg_sanitizeField = \<lambda>s. s, dg_sanitizeMessage = \<lambda>s. s\<rparr> ''dbus'' ''op'') \<in> keys (fold (issue_step \<lparr>dg_sanitizeField = \<lambda>s. s, dg_sanitizeMessage = \<lambda>s. s\<rparr>)
      [IssuePublish ''op'' [(''dbus'', Some ''lost''), (''out'', None)], IssueHealth \<lparr>rh_running = True, rh_lldpAvailable = False\<rparr>] [])"
  using service_issues_exact[of "\<lparr>dg_sanitizeField = \<lambda>s. s, dg_sanitizeMessage = \<lambda>s. s\<rparr>"
      "{(''dbus'', ''op''), (''out'', ''op'')}"
      "[IssuePublish ''op'' [(''dbus'', Some ''lost''), (''out'', None)], IssueHealth \<lparr>rh_running = True, rh_lldpAvailable = False\<rparr>]"
      "''dbus''" "''op''"]
  by (simp add: makeTransportIssueCode_def)

end
