(* ===== verification/Observation_Runtime.thy ===== *)
theory Observation_Runtime
  imports Engine Netlink_Monitor Lldp_Source
begin

text \<open>
  \<open>service/NetlinkLldpObservationRuntime.cpp\<close>: the runtime that puts the model, the Netlink monitor and the LLDP observer
  together, with the queue between producers and model (\<open>BoundedObservationQueue.h\<close>, \<open>ObservationItem.h\<close>).

  The storage \<open>thread_safe::bounded_queue\<close> is not part of the repository: it is the argument
  \<open>'q queue_ops\<close>, and \<open>queue_ok\<close> states the behaviour \<open>BoundedObservationQueue.h\<close> documents. A push
  returns the item the drop hook is called with. The answers of the operating system, the lldpd
  daemon and the lifecycle coordinator during one call are arguments of that call. The clock is read
  once per call. Threads interleave at the granularity of the operations below.
\<close>

section \<open>The observation queue\<close>

datatype observation_source = SrcNetlink | SrcLldp

definition sourceBit :: "observation_source \<Rightarrow> 32 word" where
  "sourceBit source = push_bit (case source of SrcNetlink \<Rightarrow> 0 | SrcLldp \<Rightarrow> 1) 1"

datatype observation_payload =
    LinkPayload link_observation
  | AddressPayload address_observation
  | NeighborPayload neighbor_observation
  | FdbPayload fdb_observation
  | LldpPayload lldp_observation

record observation_item =
  oi_source :: observation_source
  oi_payload :: observation_payload

record 'q queue_ops =
  qo_push :: "observation_item \<Rightarrow> 'q \<Rightarrow> 'q \<times> observation_item option"
  qo_tryPop :: "'q \<Rightarrow> 'q \<times> observation_item option"
  qo_discardAll :: "'q \<Rightarrow> 'q"
  qo_reopen :: "'q \<Rightarrow> 'q"
  qo_close :: "'q \<Rightarrow> 'q"
  qo_closed :: "'q \<Rightarrow> bool"
  qo_items :: "'q \<Rightarrow> observation_item list"

definition queue_ok :: "nat \<Rightarrow> 'q queue_ops \<Rightarrow> bool" where
  "queue_ok capacity Q \<longleftrightarrow>
     (\<forall>q x. let (q', dropped) = qo_push Q x q
            in qo_closed Q q' = qo_closed Q q \<and>
               (if qo_closed Q q then qo_items Q q' = qo_items Q q \<and> dropped = None
                else if length (qo_items Q q) < capacity then qo_items Q q' = qo_items Q q @ [x] \<and> dropped = None
                else qo_items Q q' = tl (qo_items Q q) @ [x] \<and> dropped = Some (hd (qo_items Q q)))) \<and>
     (\<forall>q. let (q', x) = qo_tryPop Q q
          in qo_closed Q q' = qo_closed Q q \<and> qo_items Q q' = tl (qo_items Q q) \<and>
             x = (case qo_items Q q of [] \<Rightarrow> None | y # ys \<Rightarrow> Some y)) \<and>
     (\<forall>q. qo_items Q (qo_discardAll Q q) = [] \<and> qo_closed Q (qo_discardAll Q q) = qo_closed Q q) \<and>
     (\<forall>q. qo_items Q (qo_reopen Q q) = [] \<and> \<not> qo_closed Q (qo_reopen Q q)) \<and>
     (\<forall>q. qo_items Q (qo_close Q q) = qo_items Q q \<and> qo_closed Q (qo_close Q q))"

record 'q obs_queue =
  oq_resyncMask :: "32 word"
  oq_queue :: 'q

definition oq_push :: "'q queue_ops \<Rightarrow> observation_item \<Rightarrow> 'q obs_queue \<Rightarrow> 'q obs_queue" where
  "oq_push Q item q =
     (case qo_push Q item (oq_queue q) of (q', dropped) \<Rightarrow>
        \<lparr>oq_resyncMask = (case dropped of Some d \<Rightarrow> or (oq_resyncMask q) (sourceBit (oi_source d))
                           | None \<Rightarrow> oq_resyncMask q),
         oq_queue = q'\<rparr>)"

definition oq_tryPop :: "'q queue_ops \<Rightarrow> 'q obs_queue \<Rightarrow> 'q obs_queue \<times> observation_item option" where
  "oq_tryPop Q q = (case qo_tryPop Q (oq_queue q) of (q', x) \<Rightarrow> (q\<lparr>oq_queue := q'\<rparr>, x))"

definition oq_discardAll :: "'q queue_ops \<Rightarrow> 'q obs_queue \<Rightarrow> 'q obs_queue" where
  "oq_discardAll Q q = q\<lparr>oq_queue := qo_discardAll Q (oq_queue q)\<rparr>"

definition takeResyncMask :: "'q obs_queue \<Rightarrow> 'q obs_queue \<times> 32 word" where
  "takeResyncMask q = (q\<lparr>oq_resyncMask := 0\<rparr>, oq_resyncMask q)"

definition raiseResync :: "observation_source \<Rightarrow> 'q obs_queue \<Rightarrow> 'q obs_queue" where
  "raiseResync source q = q\<lparr>oq_resyncMask := or (oq_resyncMask q) (sourceBit source)\<rparr>"

definition oq_reopen :: "'q queue_ops \<Rightarrow> 'q obs_queue \<Rightarrow> 'q obs_queue" where
  "oq_reopen Q q = \<lparr>oq_resyncMask = 0, oq_queue = qo_reopen Q (oq_queue q)\<rparr>"

definition oq_close :: "'q queue_ops \<Rightarrow> 'q obs_queue \<Rightarrow> 'q obs_queue" where
  "oq_close Q q = q\<lparr>oq_queue := qo_close Q (oq_queue q)\<rparr>"


section \<open>The runtime\<close>

text \<open>An LLDP observer: its source and whether the source's epoch is running.\<close>

record lldp_observer =
  ob_source :: lldpd_source
  ob_running :: bool

record 'q runtime =
  rt_reassertInterval :: int
  rt_model :: engine
  rt_observer :: "lldp_observer option"
  rt_queue :: "'q obs_queue"
  rt_workerFailed :: bool
  rt_lastReassert :: time_point
  rt_lastLldpAttempt :: time_point
  rt_lastLldpReconnect :: time_point
  rt_lastLldpProbe :: time_point
  rt_lldpReconnectFailures :: "32 word"
  rt_lldpRetryCount :: "32 word"
  rt_monitor :: "monitor option"

definition kLldpRetryInterval :: int where "kLldpRetryInterval = 30 * nanos_per_sec"
definition kLldpProbeInterval :: int where "kLldpProbeInterval = 60 * nanos_per_sec"
definition kLldpReconnectFailureLimit :: "32 word" where "kLldpReconnectFailureLimit = 5"

text \<open>\<open>std::chrono\<close> division of seconds truncates towards zero.\<close>

definition deriveReassertInterval :: "int \<Rightarrow> int" where
  "deriveReassertInterval candidateAgeout =
     (let half = (if candidateAgeout \<ge> 0 then candidateAgeout div 2 else - ((- candidateAgeout) div 2))
      in (if half < 10 then 10 else if 300 < half then 300 else half) * nanos_per_sec)"

definition new_runtime :: "model_config \<Rightarrow> 'q \<Rightarrow> 'q runtime" where
  "new_runtime config q =
     \<lparr>rt_reassertInterval = deriveReassertInterval (mc_candidateAgeout config), rt_model = new_engine config,
      rt_observer = None, rt_queue = \<lparr>oq_resyncMask = 0, oq_queue = q\<rparr>, rt_workerFailed = False,
      rt_lastReassert = 0, rt_lastLldpAttempt = 0, rt_lastLldpReconnect = 0, rt_lastLldpProbe = 0,
      rt_lldpReconnectFailures = 0, rt_lldpRetryCount = 0, rt_monitor = None\<rparr>"

definition default_lldp_config :: lldp_source_config where
  "default_lldp_config = \<lparr>lc_watchedInterfaces = [], lc_emitRemovals = True, lc_ctlSocketPath = []\<rparr>"

text \<open>What the LLDP observer delivers downstream is pushed under the LLDP tag.\<close>

definition push_lldp :: "'q queue_ops \<Rightarrow> lldp_observation list \<Rightarrow> 'q runtime \<Rightarrow> 'q runtime" where
  "push_lldp Q out rt =
     rt\<lparr>rt_queue := fold (\<lambda>o'. oq_push Q \<lparr>oi_source = SrcLldp, oi_payload = LldpPayload o'\<rparr>) out (rt_queue rt)\<rparr>"

definition push_netlink :: "'q queue_ops \<Rightarrow> observation_payload \<Rightarrow> 'q runtime \<Rightarrow> 'q runtime" where
  "push_netlink Q p rt = rt\<lparr>rt_queue := oq_push Q \<lparr>oi_source = SrcNetlink, oi_payload = p\<rparr> (rt_queue rt)\<rparr>"

fun runtime_sink :: "'q queue_ops \<Rightarrow> bool \<Rightarrow> time_point \<Rightarrow> sink_call \<Rightarrow> 'q runtime \<Rightarrow> 'q runtime" where
  "runtime_sink Q lease now (SinkLink o') rt = push_netlink Q (LinkPayload o') rt"
| "runtime_sink Q lease now (SinkAddress o') rt = push_netlink Q (AddressPayload o') rt"
| "runtime_sink Q lease now (SinkNeighbor o') rt = push_netlink Q (NeighborPayload o') rt"
| "runtime_sink Q lease now (SinkFdb o') rt = push_netlink Q (FdbPayload o') rt"
| "runtime_sink Q lease now (SinkLinkStateForLldp ifname up) rt =
     (case rt_observer rt of
        None \<Rightarrow> rt
      | Some ob \<Rightarrow>
          (let (src, out) = (if up then onInterfaceUp ifname (ob_source ob)
                             else onInterfaceDown lease now ifname (ob_source ob))
           in push_lldp Q out (rt\<lparr>rt_observer := Some (ob\<lparr>ob_source := src\<rparr>)\<rparr>)))"

definition all_sinks :: observation_sinks where
  "all_sinks = \<lparr>sk_onLink = True, sk_onAddress = True, sk_onNeighbor = True, sk_onFdb = True,
     sk_onLinkStateForLldp = True\<rparr>"

definition forward_outputs ::
  "'q queue_ops \<Rightarrow> bool \<Rightarrow> time_point \<Rightarrow> monitor_output list \<Rightarrow> 'q runtime \<Rightarrow> 'q runtime" where
  "forward_outputs Q lease now outs rt =
     fold (runtime_sink Q lease now) (concat (map (makeCallbacks all_sinks now) outs)) rt"


section \<open>Supervision of the LLDP observer\<close>

text \<open>What the daemon, the admission gate and the lifecycle coordinator answer during one tick.\<close>

record tick_answers =
  ta_built :: bool
  ta_connection :: "enum_interface list option"
  ta_lease :: bool
  ta_backendAlive :: bool
  ta_start :: lldp_start_answers
  ta_readings :: "nat \<Rightarrow> 64 word"

definition reconnectLldp ::
  "'q queue_ops \<Rightarrow> tick_answers \<Rightarrow> lldp_observer \<Rightarrow> time_point \<Rightarrow> 'q runtime \<Rightarrow> 'q runtime \<times> bool" where
  "reconnectLldp Q a ob now rt =
     (if now - rt_lastLldpReconnect rt < kLldpRetryInterval then (rt, False)
      else
        (let (src, out, ok) = lldp_refreshAll (ob_running ob) (ta_built a) now (ta_connection a) (ta_lease a)
                                (ob_source ob);
             rt1 = push_lldp Q out (rt\<lparr>rt_lastLldpReconnect := now, rt_observer := Some (ob\<lparr>ob_source := src\<rparr>)\<rparr>)
         in if \<not> ok then (rt1\<lparr>rt_lldpReconnectFailures := rt_lldpReconnectFailures rt1 + 1\<rparr>, False)
            else (rt1\<lparr>rt_lldpReconnectFailures := 0\<rparr>, True)))"

definition supervise_retry :: "'q queue_ops \<Rightarrow> tick_answers \<Rightarrow> time_point \<Rightarrow> 'q runtime \<Rightarrow> 'q runtime" where
  "supervise_retry Q a now rt =
     (if now - rt_lastLldpAttempt rt < kLldpRetryInterval then rt
      else
        (let (src, out, ok) = lldp_start (ta_start a) now (new_lldpd_source default_lldp_config True);
             rt1 = push_lldp Q out (rt\<lparr>rt_lastLldpAttempt := now\<rparr>)
         in if \<not> ok then rt1\<lparr>rt_lldpRetryCount := rt_lldpRetryCount rt1 + 1\<rparr>
            else rt1\<lparr>rt_observer := Some \<lparr>ob_source = src, ob_running = True\<rparr>, rt_lldpRetryCount := 0,
                     rt_lldpReconnectFailures := 0, rt_lastLldpReconnect := 0\<rparr>))"

definition supervise_probe ::
  "'q queue_ops \<Rightarrow> tick_answers \<Rightarrow> lldp_observer \<Rightarrow> time_point \<Rightarrow> 'q runtime \<Rightarrow> 'q runtime" where
  "supervise_probe Q a ob now rt =
     (if now - rt_lastLldpProbe rt \<ge> kLldpProbeInterval then
        (let rt1 = rt\<lparr>rt_lastLldpProbe := now\<rparr>
         in if \<not> ta_backendAlive a then fst (reconnectLldp Q a ob now rt1) else rt1)
      else rt)"

definition superviseLldp :: "'q queue_ops \<Rightarrow> tick_answers \<Rightarrow> time_point \<Rightarrow> 'q runtime \<Rightarrow> 'q runtime" where
  "superviseLldp Q a now rt0 =
     (let rt = (case rt_observer rt0 of
                  Some ob \<Rightarrow> if \<not> ob_running ob then rt0\<lparr>rt_observer := None\<rparr> else rt0
                | None \<Rightarrow> rt0)
      in case rt_observer rt of
           None \<Rightarrow> supervise_retry Q a now rt
         | Some ob \<Rightarrow>
             if \<not> isWatchAlive (sr_supervisor (ob_source ob)) then
               (let (rt1, repaired) = reconnectLldp Q a ob now rt
                in if repaired then rt1
                   else if rt_lldpReconnectFailures rt1 < kLldpReconnectFailureLimit then rt1
                   else supervise_retry Q a now
                          (rt1\<lparr>rt_observer := None, rt_lldpReconnectFailures := 0,
                               rt_lastLldpReconnect := 0, rt_lastLldpAttempt := 0\<rparr>))
             else supervise_probe Q a ob now rt)"

definition reassertLldpNeighbors ::
  "'q queue_ops \<Rightarrow> tick_answers \<Rightarrow> time_point \<Rightarrow> 'q runtime \<Rightarrow> 'q runtime" where
  "reassertLldpNeighbors Q a now rt =
     (case rt_observer rt of
        None \<Rightarrow> rt
      | Some ob \<Rightarrow>
          if \<not> ob_running ob then rt
          else if now - rt_lastReassert rt < rt_reassertInterval rt then rt
          else push_lldp Q (lldp_reassertAll (ta_lease a) now (ta_readings a) (ob_source ob))
                 (rt\<lparr>rt_lastReassert := now\<rparr>))"


section \<open>Resynchronisation\<close>

record redump_env =
  rd_indextoname :: name_resolver
  rd_ntop :: ip_printer
  rd_dumpFd :: int
  rd_lifecycleRunning :: bool
  rd_dumpThrows :: bool
  rd_script :: os_script

definition resync_netlink ::
  "'q queue_ops \<Rightarrow> tick_answers \<Rightarrow> redump_env \<Rightarrow> time_point \<Rightarrow> 'q runtime \<Rightarrow> (read_fault + 'q runtime \<times> bool) option" where
  "resync_netlink Q a r now rt =
     (let rt1 = rt\<lparr>rt_queue := oq_discardAll Q (rt_queue rt)\<rparr>;
          failed = (\<lambda>rt. rt\<lparr>rt_queue := raiseResync SrcNetlink (rt_queue rt)\<rparr>)
      in case rt_monitor rt1 of
           None \<Rightarrow> Some (Inr (failed rt1, False))
         | Some m \<Rightarrow>
             (case requestRedump (rd_indextoname r) (rd_ntop r) (rd_dumpFd r) False (rd_lifecycleRunning r)
                     (rd_dumpThrows r) (rd_script r) (m, []) of
                None \<Rightarrow> None
              | Some (Inl fault) \<Rightarrow> Some (Inl fault)
              | Some (Inr (ok, (m', outs), os)) \<Rightarrow>
                  (let rt2 = forward_outputs Q (ta_lease a) now outs (rt1\<lparr>rt_monitor := Some m'\<rparr>)
                   in Some (Inr (if ok then rt2 else failed rt2, ok)))))"

definition resync_lldp :: "'q queue_ops \<Rightarrow> tick_answers \<Rightarrow> time_point \<Rightarrow> 'q runtime \<Rightarrow> 'q runtime" where
  "resync_lldp Q a now rt =
     (case rt_observer rt of
        None \<Rightarrow> rt
      | Some ob \<Rightarrow>
          (let (rt1, repaired) = reconnectLldp Q a ob now rt
           in if \<not> repaired then rt1\<lparr>rt_queue := raiseResync SrcLldp (rt_queue rt1)\<rparr> else rt1))"

definition performResync ::
  "'q queue_ops \<Rightarrow> tick_answers \<Rightarrow> redump_env \<Rightarrow> time_point \<Rightarrow> 'q runtime \<Rightarrow> (read_fault + 'q runtime) option" where
  "performResync Q a r now rt =
     (let (q, mask) = takeResyncMask (rt_queue rt);
          rt1 = rt\<lparr>rt_queue := q\<rparr>;
          lldp = (\<lambda>rt. if and mask (sourceBit SrcLldp) \<noteq> 0 then resync_lldp Q a now rt else rt)
      in if mask = 0 then Some (Inr rt1)
         else if and mask (sourceBit SrcNetlink) \<noteq> 0 then
           (case resync_netlink Q a r now rt1 of
              None \<Rightarrow> None
            | Some (Inl fault) \<Rightarrow> Some (Inl fault)
            | Some (Inr (rt2, _)) \<Rightarrow> Some (Inr (lldp rt2)))
         else Some (Inr (lldp rt1)))"

definition tick ::
  "'q queue_ops \<Rightarrow> tick_answers \<Rightarrow> redump_env \<Rightarrow> time_point \<Rightarrow> 'q runtime \<Rightarrow> (read_fault + 'q runtime) option" where
  "tick Q a r now rt = performResync Q a r now (reassertLldpNeighbors Q a now (superviseLldp Q a now rt))"

text \<open>The supervision worker of the service: a round is whether stop was requested, else one tick.\<close>

fun supervisionLoop ::
  "'q queue_ops \<Rightarrow> (bool \<times> tick_answers \<times> redump_env \<times> time_point) list \<Rightarrow> 'q runtime
     \<Rightarrow> (read_fault + 'q runtime) option" where
  "supervisionLoop Q [] rt = Some (Inr rt)"
| "supervisionLoop Q ((stopRequested, a, r, now) # rounds) rt =
     (if stopRequested then Some (Inr rt)
      else (case tick Q a r now rt of
              None \<Rightarrow> None
            | Some (Inl fault) \<Rightarrow> Some (Inl fault)
            | Some (Inr rt') \<Rightarrow> supervisionLoop Q rounds rt'))"


section \<open>The consumer\<close>

fun payload_op :: "observation_payload \<Rightarrow> engine_op" where
  "payload_op (LinkPayload o') = OpLink o'"
| "payload_op (AddressPayload o') = OpAddress o'"
| "payload_op (NeighborPayload o') = OpNeighbor o'"
| "payload_op (FdbPayload o') = OpFdb o'"
| "payload_op (LldpPayload o') = OpLldp o'"

definition applyObservation ::
  "(string \<Rightarrow> 32 word option) \<Rightarrow> time_point \<Rightarrow> observation_item \<Rightarrow> engine \<Rightarrow> engine \<times> model_event list" where
  "applyObservation pton now item e = engine_step pton now now (payload_op (oi_payload item)) e"

text \<open>The consumer loop while the queue has items: \<open>n\<close> rounds of it, with the events for the sink.\<close>

fun observationLoop ::
  "'q queue_ops \<Rightarrow> (string \<Rightarrow> 32 word option) \<Rightarrow> time_point \<Rightarrow> nat \<Rightarrow> 'q runtime \<Rightarrow> 'q runtime \<times> model_event list" where
  "observationLoop Q pton now 0 rt = (rt, [])"
| "observationLoop Q pton now (Suc n) rt =
     (case oq_tryPop Q (rt_queue rt) of (q, popped) \<Rightarrow>
        (case popped of
           None \<Rightarrow> (rt, [])
         | Some item \<Rightarrow>
             (let (e, evs) = applyObservation pton now item (rt_model rt);
                  (rt', evs') = observationLoop Q pton now n (rt\<lparr>rt_model := e, rt_queue := q\<rparr>)
              in (rt', evs @ evs'))))"

definition onObservationWorkerExit :: "bool \<Rightarrow> 'q runtime \<Rightarrow> 'q runtime" where
  "onObservationWorkerExit byException rt = (if \<not> byException then rt else rt\<lparr>rt_workerFailed := True\<rparr>)"


section \<open>Lifecycle\<close>

definition cleanUpFailedStart :: "'q queue_ops \<Rightarrow> 'q runtime \<Rightarrow> 'q runtime" where
  "cleanUpFailedStart Q rt =
     rt\<lparr>rt_observer := None, rt_queue := oq_close Q (rt_queue rt), rt_monitor := None\<rparr>"

record runtime_start_answers =
  ra_workerThrows :: bool
  ra_lldp :: lldp_start_answers
  ra_monitor :: start_answers
  ra_lease :: bool
  ra_consumed :: nat

text \<open>
  Starting, with the number of items the consumer has applied before \<open>markLive\<close>. The consumer runs
  concurrently; its rounds are placed between the start of the monitor and \<open>markLive\<close>.
\<close>

definition runtime_start ::
  "'q queue_ops \<Rightarrow> (string \<Rightarrow> 32 word option) \<Rightarrow> runtime_start_answers \<Rightarrow> redump_env \<Rightarrow> time_point \<Rightarrow> 'q runtime
     \<Rightarrow> (read_fault + 'q runtime \<times> model_event list \<times> bool) option" where
  "runtime_start Q pton a r now rt =
     (if rt_monitor rt \<noteq> None then Some (Inr (rt, [], False))
      else
        (let (e1, evs1) = prepareForRestart now (rt_model rt);
             rt1 = rt\<lparr>rt_model := e1, rt_queue := oq_reopen Q (rt_queue rt), rt_workerFailed := False\<rparr>
         in if ra_workerThrows a then Some (Inr (cleanUpFailedStart Q rt1, evs1, False))
            else
              (let (src, out, ok) = lldp_start (ra_lldp a) now (new_lldpd_source default_lldp_config True);
                   rt2 = push_lldp Q out rt1;
                   rt3 = (if ok then rt2\<lparr>rt_observer := Some \<lparr>ob_source = src, ob_running = True\<rparr>,
                                         rt_lldpReconnectFailures := 0, rt_lastLldpReconnect := 0\<rparr> else rt2)
               in case monitor_start (rd_indextoname r) (rd_ntop r) (rd_dumpFd r) (ra_monitor a) (rd_script r)
                         (new_monitor {}, []) of
                    None \<Rightarrow> None
                  | Some (Inl fault) \<Rightarrow> Some (Inl fault)
                  | Some (Inr (started, (m, outs), os)) \<Rightarrow>
                      (let rt4 = forward_outputs Q (ra_lease a) now outs (rt3\<lparr>rt_monitor := Some m\<rparr>);
                           (rt5, evs2) = observationLoop Q pton now (ra_consumed a) rt4
                       in if \<not> started then Some (Inr (cleanUpFailedStart Q rt5, evs1 @ evs2, False))
                          else (let (e6, evs3) = markLive now (rt_model rt5)
                                in Some (Inr (rt5\<lparr>rt_model := e6\<rparr>, evs1 @ evs2 @ evs3, True)))))))"

text \<open>Stopping: the consumer drains what is queued before the sink is detached.\<close>

definition runtime_stop ::
  "'q queue_ops \<Rightarrow> (string \<Rightarrow> 32 word option) \<Rightarrow> time_point \<Rightarrow> 'q runtime \<Rightarrow> 'q runtime \<times> model_event list" where
  "runtime_stop Q pton now rt =
     (let rt1 = rt\<lparr>rt_observer := None, rt_monitor := None, rt_queue := oq_close Q (rt_queue rt)\<rparr>;
          (rt2, evs) = observationLoop Q pton now (length (qo_items Q (oq_queue (rt_queue rt1)))) rt1
      in (rt2\<lparr>rt_model := setEventSink False (rt_model rt2)\<rparr>, evs))"

definition runtime_isRunning :: "bool \<Rightarrow> 'q runtime \<Rightarrow> bool" where
  "runtime_isRunning lifecycleRunning rt \<longleftrightarrow>
     (if rt_workerFailed rt then False
      else case rt_monitor rt of None \<Rightarrow> False | Some m \<Rightarrow> monitor_isRunning lifecycleRunning m)"

definition runtime_health_of :: "bool \<Rightarrow> 'q runtime \<Rightarrow> runtime_health" where
  "runtime_health_of lifecycleRunning rt =
     \<lparr>rh_running = runtime_isRunning lifecycleRunning rt,
      rh_lldpAvailable = (case rt_observer rt of None \<Rightarrow> False | Some ob \<Rightarrow> ob_running ob)\<rparr>"

end
