(* ===== verification/Runtime_Properties.thy ===== *)
theory Runtime_Properties
  imports Observation_Runtime Engine_View
begin

text \<open>
  What the runtime adds to its parts: the queue hands the model exactly what the monitor reported, a
  drop is remembered until it is repaired, the LLDP observer is repaired in place before it is
  replaced, and the keepalives outrun the aging of the model.
\<close>

section \<open>The queue\<close>

abbreviation pending_items :: "'q queue_ops \<Rightarrow> 'q obs_queue \<Rightarrow> observation_item list" where
  "pending_items Q q \<equiv> qo_items Q (oq_queue q)"

definition wants :: "observation_source \<Rightarrow> 'q obs_queue \<Rightarrow> bool" where
  "wants source q \<longleftrightarrow> and (oq_resyncMask q) (sourceBit source) \<noteq> 0"

lemma queue_okD:
  assumes "queue_ok cap Q"
  shows "\<not> qo_closed Q q \<Longrightarrow> length (qo_items Q q) < cap \<Longrightarrow>
      qo_items Q (fst (qo_push Q x q)) = qo_items Q q @ [x] \<and> snd (qo_push Q x q) = None"
    and "\<not> qo_closed Q q \<Longrightarrow> \<not> length (qo_items Q q) < cap \<Longrightarrow>
      qo_items Q (fst (qo_push Q x q)) = tl (qo_items Q q) @ [x] \<and> snd (qo_push Q x q) = Some (hd (qo_items Q q))"
    and "qo_closed Q (fst (qo_push Q x q)) = qo_closed Q q"
    and "qo_items Q (fst (qo_tryPop Q q)) = tl (qo_items Q q)"
    and "qo_closed Q (fst (qo_tryPop Q q)) = qo_closed Q q"
    and "snd (qo_tryPop Q q) = (case qo_items Q q of [] \<Rightarrow> None | y # ys \<Rightarrow> Some y)"
    and "qo_items Q (qo_discardAll Q q) = []"
    and "qo_closed Q (qo_discardAll Q q) = qo_closed Q q"
    and "qo_items Q (qo_reopen Q q) = []"
    and "\<not> qo_closed Q (qo_reopen Q q)"
    and "qo_items Q (qo_close Q q) = qo_items Q q"
  using assms unfolding queue_ok_def Let_def case_prod_beta by metis+

lemma sourceBit_simps [simp]: "sourceBit SrcNetlink = 1" "sourceBit SrcLldp = 2"
  by (simp_all add: sourceBit_def)

lemma and_or_mono:
  fixes m :: "32 word"
  assumes "and m b \<noteq> 0" shows "and (or m c) b \<noteq> 0"
proof
  assume "and (or m c) b = 0"
  then have "and (and (or m c) b) m = 0" by simp
  moreover have "and (and (or m c) b) m = and m b"
    by (rule bit_word_eqI) (auto simp: bit_simps)
  ultimately show False using assms by simp
qed

lemma oq_push_wants: "wants s q \<Longrightarrow> wants s (oq_push Q x q)"
  by (auto simp: wants_def oq_push_def and_or_mono split: prod.split option.split)

lemma raiseResync_wants [simp]: "wants s (raiseResync s q)" "wants s' q \<Longrightarrow> wants s' (raiseResync s q)"
proof -
  have "and (or m b) b = b" for m b :: "32 word" by (rule bit_word_eqI) (auto simp: bit_simps)
  then show "wants s (raiseResync s q)" by (cases s) (simp_all add: wants_def raiseResync_def)
  show "wants s' q \<Longrightarrow> wants s' (raiseResync s q)" by (simp add: wants_def raiseResync_def and_or_mono)
qed

text \<open>A full queue drops its oldest item and remembers the source.\<close>

lemma oq_push_records_drop:
  assumes "queue_ok cap Q" "\<not> qo_closed Q (oq_queue q)" "\<not> length (pending_items Q q) < cap"
  shows "wants (oi_source (hd (pending_items Q q))) (oq_push Q x q)"
proof -
  have "and (or m b) b = b" for m b :: "32 word" by (rule bit_word_eqI) (auto simp: bit_simps)
  moreover have "sourceBit s \<noteq> 0" for s by (cases s) simp_all
  ultimately show ?thesis
    using queue_okD(2)[OF assms(1,2,3), of x] by (auto simp: wants_def oq_push_def case_prod_beta)
qed

lemma push_lldp_wants:
  assumes "wants s (rt_queue rt)" shows "wants s (rt_queue (push_lldp Q out rt))"
proof -
  have "wants s q \<Longrightarrow>
    wants s (fold (\<lambda>o'. oq_push Q \<lparr>oi_source = SrcLldp, oi_payload = LldpPayload o'\<rparr>) out q)" for q
  proof (induction out arbitrary: q)
    case (Cons o' out)
    show ?case using Cons.IH[OF oq_push_wants[OF Cons.prems]] by simp
  qed simp
  with assms show ?thesis by (simp add: push_lldp_def)
qed

lemma runtime_sink_wants: "wants s (rt_queue rt) \<Longrightarrow> wants s (rt_queue (runtime_sink Q lease now call rt))"
  by (cases call)
     (auto simp: push_netlink_def oq_push_wants Let_def case_prod_beta intro!: push_lldp_wants split: option.split)

lemma forward_wants: "wants s (rt_queue rt) \<Longrightarrow> wants s (rt_queue (forward_outputs Q lease now outs rt))"
proof -
  have "wants s (rt_queue rt) \<Longrightarrow> wants s (rt_queue (fold (runtime_sink Q lease now) calls rt))" for calls
    by (induction calls arbitrary: rt) (simp_all add: runtime_sink_wants)
  then show "wants s (rt_queue rt) \<Longrightarrow> ?thesis" by (simp add: forward_outputs_def)
qed



section \<open>Keepalives and aging\<close>

lemma deriveReassertInterval_below:
  "10 < ageout \<Longrightarrow> deriveReassertInterval ageout < ageout * nanos_per_sec"
  by (auto simp: deriveReassertInterval_def nanos_per_sec_def Let_def)

text \<open>With an age-out of ten seconds or less the keepalives come too late.\<close>

lemma deriveReassertInterval_above:
  "ageout \<le> 10 \<Longrightarrow> ageout * nanos_per_sec \<le> deriveReassertInterval ageout"
  by (auto simp: deriveReassertInterval_def nanos_per_sec_def Let_def)

lemma keepalive_lastSeen:
  assumes "ip_allowLldpEvidence (en_interfacePolicy e) (ll_localIfname obs)" "ll_event obs = Present"
    and "key = resolveLldpIdentity (ll_remoteChassisId obs) (ll_remotePortId obs)" "key \<noteq> []"
    and "map_of (en_candidates e) key = Some c" "rc_status c \<noteq> Removed"
  shows "\<exists>c'. map_of (en_candidates (fst (engine_onLldpObservation tc td obs e))) key = Some c'
    \<and> rc_lastSeen c' = ll_observedAt obs \<and> en_config (fst (engine_onLldpObservation tc td obs e)) = en_config e"
proof -
  have "\<not> hasNoEvidence (apply_lldp obs c)" using assms(2) by (simp add: apply_lldp_def hasNoEvidence_def)
  moreover have "getOrCreateCandidate tc key e = c" using assms(5) by (simp add: getOrCreateCandidate_def)
  moreover have "\<not> keepalive_dropped obs key e" using assms(2,5,6) by (simp add: keepalive_dropped_def)
  moreover have "rc_lastSeen (apply_lldp obs c) = ll_observedAt obs" using assms(2) by (simp add: apply_lldp_def)
  ultimately show ?thesis using assms(1,3,4)
    by (simp add: engine_onLldpObservation_def case_prod_beta Let_def settle_keepalive_def settle_candidate_def
        updateClassification_def reconcileStatusLocked_def)
qed

text \<open>
  (C25) With an age-out above ten seconds, no larger than the expiry, an announcement or keepalive of a known neighbour keeps its
  candidate from aging until the next keepalive is due: an aging pass within the reassert interval
  leaves what the client sees of it unchanged.
\<close>

theorem keepalive_prevents_aging:
  assumes "10 < mc_candidateAgeout (en_config e)" "mc_candidateAgeout (en_config e) \<le> mc_candidateExpire (en_config e)"
    and "ip_allowLldpEvidence (en_interfacePolicy e) (ll_localIfname obs)" "ll_event obs = Present"
    and "key = resolveLldpIdentity (ll_remoteChassisId obs) (ll_remotePortId obs)" "key \<noteq> []"
    and "map_of (en_candidates e) key = Some c" "rc_status c \<noteq> Removed"
    and "now \<le> ll_observedAt obs + deriveReassertInterval (mc_candidateAgeout (en_config e))"
  shows "findCandidateByMac key (fst (engine_age td' now (fst (engine_onLldpObservation tc td obs e))))
       = findCandidateByMac key (fst (engine_onLldpObservation tc td obs e))"
proof -
  let ?e = "fst (engine_onLldpObservation tc td obs e)"
  obtain c' where c': "map_of (en_candidates ?e) key = Some c'" "rc_lastSeen c' = ll_observedAt obs"
    "en_config ?e = en_config e"
    using keepalive_lastSeen[OF assms(3-8)] by blast
  have "mc_candidateAgeout (en_config e) * nanos_per_sec \<le> mc_candidateExpire (en_config e) * nanos_per_sec"
    using assms(2) by (simp add: nanos_per_sec_def)
  then have "age_candidate (en_config ?e) now c' = c'"
    using deriveReassertInterval_below[OF assms(1)] assms(9) c'(2,3)
    by (simp add: age_candidate_def Let_def)
  then show ?thesis using c'(1) by (simp add: findCandidateByMac_def engine_age_state map_of_map_value)
qed


section \<open>Repairing a divergence\<close>

lemma reconnectLldp_wants: "wants s (rt_queue rt) \<Longrightarrow> wants s (rt_queue (fst (reconnectLldp Q a ob now rt)))"
  by (auto simp: reconnectLldp_def Let_def case_prod_beta intro: push_lldp_wants)

lemma push_lldp_frame [frame_simps]:
  "rt_observer (push_lldp Q out rt) = rt_observer rt"
  "rt_lastLldpReconnect (push_lldp Q out rt) = rt_lastLldpReconnect rt"
  "rt_lastLldpAttempt (push_lldp Q out rt) = rt_lastLldpAttempt rt"
  "rt_lldpReconnectFailures (push_lldp Q out rt) = rt_lldpReconnectFailures rt"
  "rt_monitor (push_lldp Q out rt) = rt_monitor rt"
  "rt_model (push_lldp Q out rt) = rt_model rt"
  by (simp_all add: push_lldp_def)

lemma reconnectLldp_repaired:
  "snd (reconnectLldp Q a ob now rt) \<Longrightarrow>
     rt_lldpReconnectFailures (fst (reconnectLldp Q a ob now rt)) = 0 \<and>
     rt_lastLldpReconnect (fst (reconnectLldp Q a ob now rt)) = now"
  by (auto simp: reconnectLldp_def Let_def case_prod_beta frame_simps split: if_splits)

lemma resync_lldp_cases:
  "wants SrcLldp (rt_queue (resync_lldp Q a now rt)) \<or> rt_observer rt = None \<or>
   rt_lldpReconnectFailures (resync_lldp Q a now rt) = 0 \<and> rt_lastLldpReconnect (resync_lldp Q a now rt) = now"
proof (cases "rt_observer rt")
  case (Some ob)
  show ?thesis
  proof (cases "snd (reconnectLldp Q a ob now rt)")
    case True
    then show ?thesis using reconnectLldp_repaired[OF True] Some by (simp add: resync_lldp_def case_prod_beta)
  next
    case False
    then show ?thesis using Some by (simp add: resync_lldp_def case_prod_beta)
  qed
qed simp

lemma resync_lldp_wants:
  assumes "wants s (rt_queue rt)" shows "wants s (rt_queue (resync_lldp Q a now rt))"
  using assms by (simp add: reconnectLldp_wants resync_lldp_def case_prod_beta split: option.split)

lemma runtime_sink_observer:
  "rt_observer (runtime_sink Q lease now call rt) = None \<longleftrightarrow> rt_observer rt = None"
  by (cases call) (auto simp: push_netlink_def case_prod_beta Let_def frame_simps split: option.split)

lemma forward_observer: "rt_observer (forward_outputs Q lease now outs rt) = None \<longleftrightarrow> rt_observer rt = None"
proof -
  have "rt_observer (fold (runtime_sink Q lease now) calls rt) = None \<longleftrightarrow> rt_observer rt = None" for calls
    by (induction calls arbitrary: rt) (simp_all add: runtime_sink_observer)
  then show ?thesis by (simp add: forward_outputs_def)
qed

abbreviation redump_completes :: "redump_env \<Rightarrow> monitor option \<Rightarrow> bool" where
  "redump_completes r mon \<equiv> \<exists>m m' outs os. mon = Some m \<and>
     requestRedump (rd_indextoname r) (rd_ntop r) (rd_dumpFd r) False (rd_lifecycleRunning r) (rd_dumpThrows r)
       (rd_script r) (m, []) = Some (Inr (True, (m', outs), os))"

lemma resync_netlink_cases:
  assumes "resync_netlink Q a r now rt = Some (Inr (rt', ok))"
  shows "wants SrcNetlink (rt_queue rt') \<or> redump_completes r (rt_monitor rt)"
    and "rt_observer rt' = None \<longleftrightarrow> rt_observer rt = None"
  using assms by (auto simp: resync_netlink_def Let_def forward_observer split: option.splits sum.splits prod.splits if_splits)

text \<open>
  (C23) A resync bit is never lost. After a resync pass a source whose bit was raised still has it raised, or was repaired: for Netlink the
  redump completed, for LLDP the reconnect succeeded in this pass, or there is no observer and the
  retry path enumerates from scratch.
\<close>

theorem resync_not_forgotten:
  assumes "performResync Q a r now rt = Some (Inr rt')"
  shows "(wants SrcNetlink (rt_queue rt) \<longrightarrow> wants SrcNetlink (rt_queue rt') \<or> redump_completes r (rt_monitor rt)) \<and>
    (wants SrcLldp (rt_queue rt) \<longrightarrow> wants SrcLldp (rt_queue rt') \<or> rt_observer rt = None \<or>
       rt_lldpReconnectFailures rt' = 0 \<and> rt_lastLldpReconnect rt' = now)"
proof -
  define rt1 where "rt1 = rt\<lparr>rt_queue := fst (takeResyncMask (rt_queue rt))\<rparr>"
  have obs: "rt_observer rt1 = rt_observer rt" "rt_monitor rt1 = rt_monitor rt" by (simp_all add: rt1_def)
  let ?lldp = "\<lambda>x. if wants SrcLldp (rt_queue rt) then resync_lldp Q a now x else x"
  have "(\<exists>rt2 ok. wants SrcNetlink (rt_queue rt) \<and> resync_netlink Q a r now rt1 = Some (Inr (rt2, ok)) \<and> rt' = ?lldp rt2) \<or>
    \<not> wants SrcNetlink (rt_queue rt) \<and> rt' = ?lldp rt1"
    using assms
    by (auto simp: performResync_def takeResyncMask_def wants_def rt1_def Let_def split: option.splits sum.splits if_splits)
  then show ?thesis
  proof
    assume "\<exists>rt2 ok. wants SrcNetlink (rt_queue rt) \<and> resync_netlink Q a r now rt1 = Some (Inr (rt2, ok)) \<and> rt' = ?lldp rt2"
    then obtain rt2 ok where r2: "resync_netlink Q a r now rt1 = Some (Inr (rt2, ok))" and rt': "rt' = ?lldp rt2" by blast
    show ?thesis
      using resync_netlink_cases[OF r2] resync_lldp_cases[of Q a now rt2] resync_lldp_wants[of SrcNetlink rt2 Q a now] obs
      unfolding rt' by auto
  next
    assume "\<not> wants SrcNetlink (rt_queue rt) \<and> rt' = ?lldp rt1"
    then show ?thesis using resync_lldp_cases[of Q a now rt1] obs by auto
  qed
qed



section \<open>Repair before replacement\<close>

text \<open>The same source object, changed only by its own reconnects and interface flushes.\<close>

inductive same_source :: "lldpd_source \<Rightarrow> lldpd_source \<Rightarrow> bool" for src where
  same_refl: "same_source src src"
| same_refresh: "same_source src src' \<Longrightarrow> same_source src (fst (lldp_refreshAll running built now conn lease src'))"
| same_flush: "same_source src src' \<Longrightarrow> same_source src (fst (onInterfaceDown lease now ifname src'))"

definition in_grace :: "time_point \<Rightarrow> lldp_observer \<Rightarrow> 'q runtime \<Rightarrow> bool" where
  "in_grace t0 ob rt \<longleftrightarrow> (\<exists>src k. rt_observer rt = Some (ob\<lparr>ob_source := src\<rparr>) \<and> same_source (ob_source ob) src \<and>
     rt_lldpReconnectFailures rt = of_nat k \<and> k \<le> 4 \<and>
     (1 \<le> k \<longrightarrow> t0 + (int k - 1) * kLldpRetryInterval \<le> rt_lastLldpReconnect rt))"

lemma in_grace_cong:
  "rt_observer rt' = rt_observer rt \<Longrightarrow> rt_lldpReconnectFailures rt' = rt_lldpReconnectFailures rt \<Longrightarrow>
   rt_lastLldpReconnect rt' = rt_lastLldpReconnect rt \<Longrightarrow> in_grace t0 ob rt' = in_grace t0 ob rt"
  by (simp add: in_grace_def)

lemma in_grace_below: "in_grace t0 ob rt \<Longrightarrow> rt_lldpReconnectFailures rt < kLldpReconnectFailureLimit"
proof -
  assume "in_grace t0 ob rt"
  then obtain k where k: "rt_lldpReconnectFailures rt = of_nat k" "k \<le> 4" by (auto simp: in_grace_def)
  then have "k = 0 \<or> k = 1 \<or> k = 2 \<or> k = 3 \<or> k = 4" by auto
  then show ?thesis using k(1) by (auto simp: kLldpReconnectFailureLimit_def)
qed

lemma reconnect_in_grace:
  assumes g: "in_grace t0 ob rt" and ob': "rt_observer rt = Some ob'"
    and now: "t0 \<le> now" "now < t0 + 4 * kLldpRetryInterval"
  shows "in_grace t0 ob (fst (reconnectLldp Q a ob' now rt))"
proof (cases "now - rt_lastLldpReconnect rt < kLldpRetryInterval")
  case True
  then show ?thesis using g by (simp add: reconnectLldp_def)
next
  case False
  obtain src k where s: "ob' = ob\<lparr>ob_source := src\<rparr>" "same_source (ob_source ob) src"
    "rt_lldpReconnectFailures rt = of_nat k" "k \<le> 4"
    "1 \<le> k \<longrightarrow> t0 + (int k - 1) * kLldpRetryInterval \<le> rt_lastLldpReconnect rt"
    using g ob' by (auto simp: in_grace_def)
  have R: "0 < kLldpRetryInterval" by (simp add: kLldpRetryInterval_def nanos_per_sec_def)
  have at: "t0 + int k * kLldpRetryInterval \<le> now"
    using s(5) False now(1) by (cases "k = 0") (auto simp: algebra_simps)
  have "k < 4"
  proof (rule ccontr)
    assume "\<not> k < 4"
    then have "4 * kLldpRetryInterval \<le> int k * kLldpRetryInterval" using R by (intro mult_right_mono) auto
    then show False using at now(2) by simp
  qed
  let ?r = "lldp_refreshAll (ob_running ob') (ta_built a) now (ta_connection a) (ta_lease a) src"
  have same: "same_source (ob_source ob) (fst ?r)" by (rule same_refresh[OF s(2)])
  show ?thesis
  proof (cases "snd (snd ?r)")
    case True
    then show ?thesis using False same s(1)
      by (auto simp: reconnectLldp_def case_prod_beta Let_def frame_simps in_grace_def intro!: exI[of _ "fst ?r"] exI[of _ 0])
  next
    case failed: False
    show ?thesis using False failed same s at \<open>k < 4\<close>
      by (auto simp: reconnectLldp_def case_prod_beta Let_def frame_simps in_grace_def
          intro!: exI[of _ "fst ?r"] exI[of _ "Suc k"])
  qed
qed

lemma supervise_in_grace:
  assumes g: "in_grace t0 ob rt" and run: "ob_running ob" and now: "t0 \<le> now" "now < t0 + 4 * kLldpRetryInterval"
  shows "in_grace t0 ob (superviseLldp Q a now rt)"
proof -
  obtain src where o': "rt_observer rt = Some (ob\<lparr>ob_source := src\<rparr>)" using g by (auto simp: in_grace_def)
  let ?r = "reconnectLldp Q a (ob\<lparr>ob_source := src\<rparr>) now"
  note r = reconnect_in_grace[OF g o' now, of Q a]
  have p: "in_grace t0 ob (fst (?r (rt\<lparr>rt_lastLldpProbe := now\<rparr>)))" "in_grace t0 ob (rt\<lparr>rt_lastLldpProbe := now\<rparr>)"
    using reconnect_in_grace[of t0 ob "rt\<lparr>rt_lastLldpProbe := now\<rparr>", OF _ _ now] g o'
    by (simp_all add: in_grace_def)
  show ?thesis using o' run g r p in_grace_below[OF r]
    by (simp add: superviseLldp_def supervise_probe_def case_prod_beta Let_def)
qed

lemma runtime_sink_in_grace: "in_grace t0 ob rt \<Longrightarrow> in_grace t0 ob (runtime_sink Q lease now call rt)"
  by (cases call)
     (auto simp: push_netlink_def case_prod_beta Let_def frame_simps in_grace_def onInterfaceUp_def
       intro: same_flush split: option.split)

lemma forward_in_grace: "in_grace t0 ob rt \<Longrightarrow> in_grace t0 ob (forward_outputs Q lease now outs rt)"
proof -
  have "in_grace t0 ob rt \<Longrightarrow> in_grace t0 ob (fold (runtime_sink Q lease now) calls rt)" for calls
    by (induction calls arbitrary: rt) (simp_all add: runtime_sink_in_grace)
  then show "in_grace t0 ob rt \<Longrightarrow> ?thesis" by (simp add: forward_outputs_def)
qed

lemma resync_in_grace:
  assumes g: "in_grace t0 ob rt" and now: "t0 \<le> now" "now < t0 + 4 * kLldpRetryInterval"
    and p: "performResync Q a r now rt = Some (Inr rt')"
  shows "in_grace t0 ob rt'"
proof -
  have q: "in_grace t0 ob (rt\<lparr>rt_queue := x\<rparr>) = in_grace t0 ob rt" for x and rt :: "'a runtime"
    by (rule in_grace_cong) simp_all
  have m: "in_grace t0 ob (rt\<lparr>rt_monitor := x\<rparr>) = in_grace t0 ob rt" for x and rt :: "'a runtime"
    by (rule in_grace_cong) simp_all
  have lldp: "in_grace t0 ob (resync_lldp Q a now rt)" if "in_grace t0 ob rt" for rt
    using that reconnect_in_grace[OF that _ now, of _ Q a]
    by (auto simp: resync_lldp_def case_prod_beta Let_def q split: option.split)
  have "in_grace t0 ob rt2" if "resync_netlink Q a r now rt1 = Some (Inr (rt2, ok))" "in_grace t0 ob rt1" for rt1 rt2 ok
    using that by (auto simp: resync_netlink_def Let_def q m forward_in_grace split: option.splits sum.splits prod.splits if_splits)
  with g p lldp q show ?thesis
    by (auto simp: performResync_def takeResyncMask_def Let_def split: option.splits sum.splits if_splits)
qed

lemma supervisionLoop_in_grace:
  "in_grace t0 ob rt \<Longrightarrow> ob_running ob \<Longrightarrow>
   (\<forall>(stop, a, r, now)\<in>set rounds. t0 \<le> now \<and> now < t0 + 4 * kLldpRetryInterval) \<Longrightarrow>
   supervisionLoop Q rounds rt = Some (Inr rt') \<Longrightarrow> in_grace t0 ob rt'"
proof (induction rounds arbitrary: rt)
  case (Cons x rounds)
  obtain stop a r now where x: "x = (stop, a, r, now)" by (cases x)
  have now: "t0 \<le> now" "now < t0 + 4 * kLldpRetryInterval" using Cons.prems(3) x by auto
  let ?rt = "reassertLldpNeighbors Q a now (superviseLldp Q a now rt)"
  have g: "in_grace t0 ob (superviseLldp Q a now rt)" by (rule supervise_in_grace[OF Cons.prems(1,2) now])
  have "in_grace t0 ob ?rt = in_grace t0 ob (superviseLldp Q a now rt)"
    by (rule in_grace_cong) (simp_all add: reassertLldpNeighbors_def frame_simps split: option.split)
  with g have g': "in_grace t0 ob ?rt" by simp
  show ?case
  proof (cases stop)
    case False
    then obtain rt1 where t: "tick Q a r now rt = Some (Inr rt1)" "supervisionLoop Q rounds rt1 = Some (Inr rt')"
      using Cons.prems(4) x by (auto split: option.splits sum.splits)
    have "in_grace t0 ob rt1" using resync_in_grace[OF g' now] t(1) by (simp add: tick_def)
    from Cons.IH[OF this Cons.prems(2) _ t(2)] Cons.prems(3) show ?thesis by simp
  qed (use Cons.prems x in simp)
qed simp



section \<open>From the monitor to the model\<close>

fun sink_payload :: "sink_call \<Rightarrow> observation_payload list" where
  "sink_payload (SinkLink o') = [LinkPayload o']"
| "sink_payload (SinkAddress o') = [AddressPayload o']"
| "sink_payload (SinkNeighbor o') = [NeighborPayload o']"
| "sink_payload (SinkFdb o') = [FdbPayload o']"
| "sink_payload (SinkLinkStateForLldp ifname up) = []"

definition reported :: "time_point \<Rightarrow> monitor_output list \<Rightarrow> observation_payload list" where
  "reported now outs = concat (map sink_payload (concat (map (makeCallbacks all_sinks now) outs)))"

abbreviation open_queue :: "'q queue_ops \<Rightarrow> 'q runtime \<Rightarrow> bool" where
  "open_queue Q rt \<equiv> \<not> qo_closed Q (oq_queue (rt_queue rt))"

lemma oq_push_items:
  assumes "queue_ok cap Q" "\<not> qo_closed Q (oq_queue q)" "length (pending_items Q q) < cap"
  shows "pending_items Q (oq_push Q x q) = pending_items Q q @ [x]" "\<not> qo_closed Q (oq_queue (oq_push Q x q))"
    "oq_resyncMask (oq_push Q x q) = oq_resyncMask q"
  using queue_okD(1)[OF assms, of x] queue_okD(3)[OF assms(1), of x "oq_queue q"] assms(2)
  by (simp_all add: oq_push_def case_prod_beta)

definition quiet_call :: "'q runtime \<Rightarrow> sink_call \<Rightarrow> bool" where
  "quiet_call rt call \<longleftrightarrow> rt_observer rt = None \<or> (\<forall>ifname. call \<noteq> SinkLinkStateForLldp ifname False)"

lemma runtime_sink_items:
  assumes "queue_ok cap Q" "open_queue Q rt" "quiet_call rt call"
    and "length (pending_items Q (rt_queue rt)) + length (sink_payload call) \<le> cap"
  shows "pending_items Q (rt_queue (runtime_sink Q lease now call rt))
      = pending_items Q (rt_queue rt) @ map (\<lambda>p. \<lparr>oi_source = SrcNetlink, oi_payload = p\<rparr>) (sink_payload call) \<and>
    open_queue Q (runtime_sink Q lease now call rt) \<and> rt_model (runtime_sink Q lease now call rt) = rt_model rt \<and>
    rt_observer (runtime_sink Q lease now call rt) = rt_observer rt"
proof (cases call)
  case (SinkLinkStateForLldp ifname up)
  then show ?thesis using assms(2,3)
    by (auto simp: quiet_call_def onInterfaceUp_def push_lldp_def split: option.split)
qed (use assms oq_push_items[OF assms(1,2)] in \<open>auto simp: push_netlink_def\<close>)

lemma forward_items:
  assumes "queue_ok cap Q"
  shows "open_queue Q rt \<Longrightarrow> (\<forall>call\<in>set calls. quiet_call rt call) \<Longrightarrow>
    length (pending_items Q (rt_queue rt)) + length (concat (map sink_payload calls)) \<le> cap \<Longrightarrow>
    rt' = fold (runtime_sink Q lease now) calls rt \<Longrightarrow>
    pending_items Q (rt_queue rt') = pending_items Q (rt_queue rt)
      @ map (\<lambda>p. \<lparr>oi_source = SrcNetlink, oi_payload = p\<rparr>) (concat (map sink_payload calls)) \<and> rt_model rt' = rt_model rt"
proof (induction calls arbitrary: rt)
  case (Cons call calls)
  let ?rt = "runtime_sink Q lease now call rt"
  have one: "pending_items Q (rt_queue ?rt)
      = pending_items Q (rt_queue rt) @ map (\<lambda>p. \<lparr>oi_source = SrcNetlink, oi_payload = p\<rparr>) (sink_payload call)"
    "open_queue Q ?rt" "rt_model ?rt = rt_model rt" "rt_observer ?rt = rt_observer rt"
    using runtime_sink_items[OF assms Cons.prems(1), of call lease now] Cons.prems(2,3) by auto
  have "\<forall>call\<in>set calls. quiet_call ?rt call" using Cons.prems(2) one(4) by (auto simp: quiet_call_def)
  from Cons.IH[OF one(2) this] Cons.prems(3,4) one(1,3) show ?case by simp
qed simp

lemma observationLoop_exact:
  assumes "queue_ok cap Q"
  shows "pending_items Q (rt_queue rt) = xs \<Longrightarrow> length xs \<le> n \<Longrightarrow>
    rt_model (fst (observationLoop Q pton now n rt))
      = fst (run (timed_step pton) (map (\<lambda>x. (now, now, payload_op (oi_payload x))) xs) (rt_model rt)) \<and>
    snd (observationLoop Q pton now n rt)
      = snd (run (timed_step pton) (map (\<lambda>x. (now, now, payload_op (oi_payload x))) xs) (rt_model rt))"
proof (induction n arbitrary: rt xs)
  case (Suc n)
  show ?case
  proof (cases xs)
    case Nil
    then show ?thesis using Suc.prems(1) queue_okD(6)[OF assms, of "oq_queue (rt_queue rt)"]
      by (simp add: oq_tryPop_def case_prod_beta)
  next
    case (Cons x ys)
    obtain q where q: "oq_tryPop Q (rt_queue rt) = (q, Some x)" "pending_items Q q = ys"
      using Suc.prems(1) Cons queue_okD(4,6)[OF assms, of "oq_queue (rt_queue rt)"]
      by (simp add: oq_tryPop_def case_prod_beta)
    obtain e evs where e: "applyObservation pton now x (rt_model rt) = (e, evs)"
      by (cases "applyObservation pton now x (rt_model rt)")
    have IH: "rt_model (fst (observationLoop Q pton now n (rt\<lparr>rt_model := e, rt_queue := q\<rparr>)))
        = fst (run (timed_step pton) (map (\<lambda>x. (now, now, payload_op (oi_payload x))) ys) e) \<and>
      snd (observationLoop Q pton now n (rt\<lparr>rt_model := e, rt_queue := q\<rparr>))
        = snd (run (timed_step pton) (map (\<lambda>x. (now, now, payload_op (oi_payload x))) ys) e)"
      using Suc.IH[of "rt\<lparr>rt_model := e, rt_queue := q\<rparr>" ys] q(2) Suc.prems(2) Cons by simp
    have l: "observationLoop Q pton now (Suc n) rt =
        (fst (observationLoop Q pton now n (rt\<lparr>rt_model := e, rt_queue := q\<rparr>)),
         evs @ snd (observationLoop Q pton now n (rt\<lparr>rt_model := e, rt_queue := q\<rparr>)))"
      using q(1) e by (simp add: case_prod_beta)
    have s: "timed_step pton (now, now, payload_op (oi_payload x)) (rt_model rt) = (e, evs)"
      using e by (simp add: timed_step_def applyObservation_def)
    show ?thesis unfolding l Cons list.map run.simps s using IH by (simp add: case_prod_beta)
  qed
qed simp



text \<open>
  A resync for Netlink throws the whole backlog away, LLDP announcements included; no bit is
  raised for them and the LLDP observer is not asked again.
\<close>

theorem resync_discards_lldp:
  assumes "queue_ok cap Q" "wants SrcNetlink (rt_queue rt)" "\<not> wants SrcLldp (rt_queue rt)"
    and "rt_monitor rt = Some m"
    and "requestRedump (rd_indextoname r) (rd_ntop r) (rd_dumpFd r) False (rd_lifecycleRunning r) (rd_dumpThrows r)
       (rd_script r) (m, []) = Some (Inr (True, (m', []), os))"
  shows "\<exists>rt'. performResync Q a r now rt = Some (Inr rt') \<and> pending_items Q (rt_queue rt') = [] \<and>
    \<not> wants SrcLldp (rt_queue rt') \<and> rt_observer rt' = rt_observer rt \<and> rt_model rt' = rt_model rt"
  using assms queue_okD(7)[OF assms(1)]
  by (auto simp: performResync_def takeResyncMask_def wants_def resync_netlink_def oq_discardAll_def forward_outputs_def
      Let_def)


section \<open>Concrete inputs\<close>

text \<open>A drop-oldest queue: whether it is closed, and its items.\<close>

definition list_queue :: "nat \<Rightarrow> (bool \<times> observation_item list) queue_ops" where
  "list_queue cap =
     \<lparr>qo_push = \<lambda>x (closed, xs). if closed then ((closed, xs), None)
        else if length xs < cap then ((closed, xs @ [x]), None) else ((closed, tl xs @ [x]), Some (hd xs)),
      qo_tryPop = \<lambda>(closed, xs). (case xs of [] \<Rightarrow> ((closed, []), None) | y # ys \<Rightarrow> ((closed, ys), Some y)),
      qo_discardAll = \<lambda>(closed, xs). (closed, []),
      qo_reopen = \<lambda>_. (False, []),
      qo_close = \<lambda>(closed, xs). (True, xs),
      qo_closed = fst, qo_items = snd\<rparr>"

lemma list_queue_ok: "queue_ok cap (list_queue cap)"
  by (auto simp: queue_ok_def list_queue_def Let_def split: list.split)

definition idle_runtime :: "(bool \<times> observation_item list) runtime" where
  "idle_runtime = new_runtime default_model_config (False, [])"

definition idle_script :: os_script where
  "idle_script = \<lparr>os_polls = [], os_drains = [], os_recvs = [], os_sends = [], os_stops = []\<rparr>"

definition idle_redump :: redump_env where
  "idle_redump = \<lparr>rd_indextoname = \<lambda>_. None, rd_ntop = \<lambda>_ _. None, rd_dumpFd = 3, rd_lifecycleRunning = False,
     rd_dumpThrows = False, rd_script = idle_script\<rparr>"

definition dead_daemon :: tick_answers where
  "dead_daemon = \<lparr>ta_built = False, ta_connection = None, ta_lease = True, ta_backendAlive = False,
     ta_start = \<lparr>la_begin = True, la_running = False, la_leasesOutstanding = False, la_built = False, la_connection = None,
       la_tryComplete = True, la_stopLocked = True\<rparr>, ta_readings = \<lambda>_. 0\<rparr>"

theorem keepalive_prevents_aging_witness:
  "findCandidateByMac ''02:00:00:00:00:09'' (fst (engine_age 70 (20 * nanos_per_sec) (fst (engine_onLldpObservation 5 5
       \<lparr>ll_observedAt = 5, ll_localIfname = ''eth0'', ll_event = Present, ll_remoteChassisId = Some ''02:00:00:00:00:09'',
        ll_remotePortId = None, ll_remoteSystemName = None, ll_keepalive = True\<rparr>
       ((new_engine default_model_config)\<lparr>en_candidates := [(''02:00:00:00:00:09'', empty_candidate\<lparr>rc_status := Confirmed\<rparr>)]\<rparr>)))))
   = findCandidateByMac ''02:00:00:00:00:09'' (fst (engine_onLldpObservation 5 5
       \<lparr>ll_observedAt = 5, ll_localIfname = ''eth0'', ll_event = Present, ll_remoteChassisId = Some ''02:00:00:00:00:09'',
        ll_remotePortId = None, ll_remoteSystemName = None, ll_keepalive = True\<rparr>
       ((new_engine default_model_config)\<lparr>en_candidates := [(''02:00:00:00:00:09'', empty_candidate\<lparr>rc_status := Confirmed\<rparr>)]\<rparr>)))"
proof (rule keepalive_prevents_aging[where c = "empty_candidate\<lparr>rc_status := Confirmed\<rparr>"])
  show "''02:00:00:00:00:09'' = resolveLldpIdentity
      (ll_remoteChassisId \<lparr>ll_observedAt = 5, ll_localIfname = ''eth0'', ll_event = Present,
        ll_remoteChassisId = Some ''02:00:00:00:00:09'', ll_remotePortId = None, ll_remoteSystemName = None, ll_keepalive = True\<rparr>)
      (ll_remotePortId \<lparr>ll_observedAt = 5, ll_localIfname = ''eth0'', ll_event = Present,
        ll_remoteChassisId = Some ''02:00:00:00:00:09'', ll_remotePortId = None, ll_remoteSystemName = None, ll_keepalive = True\<rparr>)"
    by code_simp
  show "ip_allowLldpEvidence (en_interfacePolicy ((new_engine default_model_config)
      \<lparr>en_candidates := [(''02:00:00:00:00:09'', empty_candidate\<lparr>rc_status := Confirmed\<rparr>)]\<rparr>))
      (ll_localIfname \<lparr>ll_observedAt = 5, ll_localIfname = ''eth0'', ll_event = Present,
        ll_remoteChassisId = Some ''02:00:00:00:00:09'', ll_remotePortId = None, ll_remoteSystemName = None, ll_keepalive = True\<rparr>)"
    by code_simp
qed (simp_all add: new_engine_def default_model_config_def nanos_per_sec_def deriveReassertInterval_def empty_candidate_def)

theorem resync_not_forgotten_witness:
  "\<exists>rt'. performResync (list_queue 4) dead_daemon idle_redump 1
      (idle_runtime\<lparr>rt_queue := \<lparr>oq_resyncMask = 1, oq_queue = (False, [])\<rparr>\<rparr>) = Some (Inr rt') \<and> wants SrcNetlink (rt_queue rt')"
proof -
  let ?rt = "idle_runtime\<lparr>rt_queue := \<lparr>oq_resyncMask = 1, oq_queue = (False, [])\<rparr>\<rparr>"
  have "\<exists>rt'. performResync (list_queue 4) dead_daemon idle_redump 1 ?rt = Some (Inr rt')"
    by (simp add: performResync_def takeResyncMask_def resync_netlink_def idle_runtime_def new_runtime_def Let_def)
  then obtain rt' where r: "performResync (list_queue 4) dead_daemon idle_redump 1 ?rt = Some (Inr rt')" by blast
  have "wants SrcNetlink (rt_queue ?rt)" "rt_monitor ?rt = None"
    by (simp_all add: wants_def idle_runtime_def new_runtime_def)
  with resync_not_forgotten[OF r] have "wants SrcNetlink (rt_queue rt')" by simp
  with r show ?thesis by blast
qed

definition watched_runtime :: "(bool \<times> observation_item list) runtime" where
  "watched_runtime = idle_runtime\<lparr>rt_observer := Some \<lparr>ob_source = new_lldpd_source default_lldp_config True, ob_running = True\<rparr>\<rparr>"



end
