(* ===== verification/Inventory_Service.thy ===== *)
theory Inventory_Service
  imports Inventory_Manager "HOL-Library.Word"
begin

text \<open>
  \<open>service/InventoryService.cpp\<close>: the refresh loop with its throttling, the publication of what a
  refresh changed, and the lifecycle of the worker that runs the loop.

  \<open>ServiceBase\<close>, \<open>LifecycleCoordinator\<close>, \<open>ManagedWorker\<close>, \<open>EventFdSignal\<close>, \<open>PollUtils\<close> and the file watcher
  are not part of the repository: they appear as the calls the service makes (\<open>inv_event\<close>) and the
  answers it gets. The steady clock counts nanoseconds; the settings are milliseconds. \<open>refresh\<close>
  may be called from another thread between any two places where the loop takes \<open>refreshMutex_\<close>;
  each such place has a flag of the round that says whether it was.
\<close>

section \<open>State\<close>

record inv_settings =
  st_reconcileInterval :: int
  st_minRefreshInterval :: int

definition default_inv_settings :: inv_settings where
  "default_inv_settings = \<lparr>st_reconcileInterval = 60000, st_minRefreshInterval = 1000\<rparr>"

abbreviation ms :: "int \<Rightarrow> int" where
  "ms n \<equiv> n * 1000000"

record inv_service =
  iv_manager :: inventory_manager
  iv_settings :: inv_settings
  iv_transports :: "string list"
  iv_watched :: "string list"
  iv_loopFailed :: bool
  iv_refreshRequested :: bool
  iv_lastRefresh :: int
  iv_nextReconcile :: int
  iv_signal :: bool

datatype inv_service_error = ManagerIsNull | WatcherIsNull | NullSource | NullTransport
  | AddAfterStart | ManagerRefused manager_error | RestartRequiresStop

definition new_inv_service ::
  "inventory_manager option \<Rightarrow> inv_settings \<Rightarrow> bool \<Rightarrow> inv_service_error + inv_service" where
  "new_inv_service manager settings watcher =
     (case manager of
        None \<Rightarrow> Inl ManagerIsNull
      | Some m \<Rightarrow>
          if \<not> watcher then Inl WatcherIsNull
          else Inr \<lparr>iv_manager = m, iv_settings = settings, iv_transports = [], iv_watched = [],
                    iv_loopFailed = False, iv_refreshRequested = False, iv_lastRefresh = 0,
                    iv_nextReconcile = 0, iv_signal = False\<rparr>)"

text \<open>A source to register, with its watch path when it is an \<open>IWatchableInventorySource\<close>.\<close>

definition inv_addSource ::
  "bool \<Rightarrow> (inventory_source \<times> string option) option \<Rightarrow> inv_service \<Rightarrow> inv_service_error + inv_service" where
  "inv_addSource running source s =
     (case source of
        None \<Rightarrow> Inl NullSource
      | Some (src, watchPath) \<Rightarrow>
          if running then Inl AddAfterStart
          else (case addSource (Some src) (iv_manager s) of
                  Inl err \<Rightarrow> Inl (ManagerRefused err)
                | Inr m \<Rightarrow> Inr (s\<lparr>iv_manager := m,
                    iv_watched := (case watchPath of Some p \<Rightarrow> iv_watched s @ [p] | None \<Rightarrow> iv_watched s)\<rparr>)))"

definition inv_addTransport :: "bool \<Rightarrow> string option \<Rightarrow> inv_service \<Rightarrow> inv_service_error + inv_service" where
  "inv_addTransport running transport s =
     (case transport of
        None \<Rightarrow> Inl NullTransport
      | Some t \<Rightarrow> if running then Inl AddAfterStart
                   else Inr (s\<lparr>iv_transports := iv_transports s @ [t]\<rparr>))"


section \<open>Queries\<close>

definition inv_getIdentity :: "inv_service \<Rightarrow> inventory_snapshot" where
  "inv_getIdentity s = getSnapshot (iv_manager s)"

definition inv_getField :: "string \<Rightarrow> inv_service \<Rightarrow> inventory_fields" where
  "inv_getField fieldName s = make_single_field_map (getSnapshot (iv_manager s)) fieldName"

definition inv_getSourceStates :: "inv_service \<Rightarrow> source_state_map" where
  "inv_getSourceStates s = getSourceStates (iv_manager s)"

definition inv_getPhase :: "inv_service \<Rightarrow> string" where
  "inv_getPhase s = manager_getPhase (iv_manager s)"

definition inv_getVersion :: "inv_service \<Rightarrow> 64 word" where
  "inv_getVersion s = manager_getVersion (iv_manager s)"

definition ISSUE_CODE_LOOP_STOPPED :: string where
  "ISSUE_CODE_LOOP_STOPPED = ''inventory.loop.stopped''"

definition inv_getIssues :: "inv_service \<Rightarrow> inventory_issues" where
  "inv_getIssues s =
     (let issues = deriveIssues (getSourceStates (iv_manager s))
      in if iv_loopFailed s then
           (let issue = oput ISSUE_ORIGIN (FString ''InventoryService::runLoop'')
                  (oput ISSUE_MESSAGE
                     (FString ''inventory refresh loop terminated unexpectedly; inventory data may be stale'')
                  (oput ISSUE_SEVERITY (FString SEVERITY_ERROR) []))
            in oput ISSUE_CODE_LOOP_STOPPED issue issues)
         else issues)"


section \<open>Publication of a refresh\<close>

datatype inv_event =
    RefreshAll int
  | PublishInventoryChanged string string
  | PublishSourceStateChanged string string
  | LogSourceFailed string string
  | LogSourceRecovered string
  | InvSetReady bool
  | BindQueryService string
  | InvQuiesceQueries
  | InvBaseStop
  | InvWorkerStart
  | InvWorkerStop
  | SignalRefresh

definition sourceStateTransitioned :: "source_state \<Rightarrow> source_state \<Rightarrow> bool" where
  "sourceStateTransitioned lhs rhs \<longleftrightarrow>
     ss_health lhs \<noteq> ss_health rhs \<or> ss_stale lhs \<noteq> ss_stale rhs \<or> ss_lastError lhs \<noteq> ss_lastError rhs"

text \<open>The log line of a source that changed and the calls one entry of the new states causes.\<close>

definition source_log :: "source_state option \<Rightarrow> string \<Rightarrow> source_state \<Rightarrow> inv_event list" where
  "source_log old sourceName newState =
     (if ss_health newState = HealthFailed \<and> ss_lastError newState \<noteq> None
      then [LogSourceFailed sourceName (the (ss_lastError newState))]
      else if old \<noteq> None \<and> ss_health (the old) = HealthFailed \<and> ss_health newState = HealthOk
      then [LogSourceRecovered sourceName] else [])"

definition publish_source :: "string list \<Rightarrow> source_state_map \<Rightarrow> string \<times> source_state \<Rightarrow> inv_event list" where
  "publish_source transports oldStates entry =
     (case entry of (sourceName, newState) \<Rightarrow>
       (let old = map_of oldStates sourceName;
            transitioned = (old = None \<or> sourceStateTransitioned (the old) newState)
        in if transitioned
           then source_log old sourceName newState @ map (\<lambda>t. PublishSourceStateChanged t sourceName) transports
           else []))"

definition publishDiff ::
  "string list \<Rightarrow> inventory_diff \<Rightarrow> source_state_map \<Rightarrow> source_state_map \<Rightarrow> bool \<Rightarrow> bool \<Rightarrow> inv_event list" where
  "publishDiff transports diff oldStates newStates oldReady newReady =
     concat (map (\<lambda>field. map (\<lambda>t. PublishInventoryChanged t field) transports) (df_changedFields diff))
     @ concat (map (\<lambda>field. map (\<lambda>t. PublishInventoryChanged t field) transports) (df_removedFields diff))
     @ concat (map (publish_source transports oldStates) newStates)
     @ (if oldReady \<noteq> newReady then [InvSetReady newReady] else [])"


section \<open>The refresh loop\<close>

definition inv_refresh :: "inv_service \<Rightarrow> inv_service \<times> inv_event list" where
  "inv_refresh s =
     (s\<lparr>iv_refreshRequested := True\<rparr>, if iv_signal s then [SignalRefresh] else [])"

definition request_if :: "bool \<Rightarrow> inv_service \<Rightarrow> inv_service" where
  "request_if called s = (if called then fst (inv_refresh s) else s)"

text \<open>
  What one cycle reads: the steady clock, the answers of the sources, the wall clock, and whether
  \<open>refresh\<close> is called before the flag is cleared and after.
\<close>

record cycle_input =
  cy_now :: int
  cy_refreshBefore :: bool
  cy_refreshAfter :: bool
  cy_ask :: "string \<Rightarrow> source_answer"
  cy_attemptTs :: "64 word"
  cy_successTs :: "string \<Rightarrow> 64 word"
  cy_wallNow :: "64 word"

definition doRefreshCycle :: "bool \<Rightarrow> cycle_input \<Rightarrow> inv_service \<Rightarrow> inv_service \<times> inv_event list" where
  "doRefreshCycle force c s =
     (let now = cy_now c;
          s0 = request_if (cy_refreshBefore c) s
      in if force \<and> now - iv_lastRefresh s < ms (st_minRefreshInterval (iv_settings s))
         then (request_if (cy_refreshAfter c) (s0\<lparr>iv_refreshRequested := True\<rparr>), [])
         else
           (let s1 = request_if (cy_refreshAfter c) (s0\<lparr>iv_refreshRequested := False\<rparr>);
                m = iv_manager s1;
                oldStates = getSourceStates m;
                oldReady = manager_isReady m;
                (m', diff) = refreshAll (cy_ask c) (cy_attemptTs c) (cy_successTs c) (cy_wallNow c) m;
                newStates = getSourceStates m';
                newReady = manager_isReady m'
            in (s1\<lparr>iv_manager := m', iv_lastRefresh := now,
                   iv_nextReconcile := now + ms (st_reconcileInterval (iv_settings s))\<rparr>,
                RefreshAll now # publishDiff (iv_transports s) diff oldStates newStates oldReady newReady)))"

definition msUntil :: "int \<Rightarrow> int \<Rightarrow> int" where
  "msUntil now ts = (if ts \<le> now then 0 else sint (word_of_int ((ts - now) div 1000000) :: 32 word))"

text \<open>\<open>wakeTs\<close> as the loop computes it under the mutex.\<close>

definition wake_ts :: "inv_service \<Rightarrow> int" where
  "wake_ts s =
     (if iv_refreshRequested s
      then min (iv_nextReconcile s) (iv_lastRefresh s + ms (st_minRefreshInterval (iv_settings s)))
      else iv_nextReconcile s)"

datatype inv_poll =
    InvPollStop
  | InvPollFailure int
  | InvPollTimeout
  | InvPollReady "16 word" "16 word"

definition INV_POLLIN :: "16 word" where "INV_POLLIN = 1"
definition terminalEvents :: "16 word" where "terminalEvents = 56"

datatype loop_error =
    SignalUnavailable
  | InvPollError int
  | SignalTerminal "16 word"
  | WatcherTerminal "16 word"
  | DrainFailed int

datatype loop_exit = StillRunning | LoopReturned | LoopThrew loop_error

record inv_round =
  rd_stopBefore :: bool
  rd_refreshEarly :: bool
  rd_poll :: "int \<Rightarrow> inv_poll"
  rd_msNow :: int
  rd_drain :: int
  rd_changedPaths :: "string list"
  rd_stopAfter :: bool
  rd_refreshLate :: bool
  rd_now :: int
  rd_cycle :: cycle_input

text \<open>What the answer of the poll means: \<open>Inr\<close> whether a watched source changed.\<close>

definition inv_readiness :: "inv_round \<Rightarrow> inv_poll \<Rightarrow> loop_error + bool" where
  "inv_readiness r answer =
     (case answer of
        InvPollReady sig watch \<Rightarrow>
          if Bit_Operations.and sig terminalEvents \<noteq> 0 then Inl (SignalTerminal sig)
          else if Bit_Operations.and watch terminalEvents \<noteq> 0 then Inl (WatcherTerminal watch)
          else if Bit_Operations.and sig INV_POLLIN \<noteq> 0 \<and> rd_drain r \<noteq> 0 then Inl (DrainFailed (rd_drain r))
          else Inr (Bit_Operations.and watch INV_POLLIN \<noteq> 0 \<and> rd_changedPaths r \<noteq> [])
      | _ \<Rightarrow> Inr False)"

definition inv_loop_round :: "inv_round \<Rightarrow> inv_service \<Rightarrow> inv_service \<times> inv_event list \<times> loop_exit" where
  "inv_loop_round r s =
     (if rd_stopBefore r then (s, [], LoopReturned)
      else
        (let s1 = request_if (rd_refreshEarly r) s;
             answer = rd_poll r (msUntil (rd_msNow r) (wake_ts s1))
         in if \<not> iv_signal s1 then (s1, [], LoopThrew SignalUnavailable)
            else (case answer of
                    InvPollStop \<Rightarrow> (s1, [], LoopReturned)
                  | InvPollFailure err \<Rightarrow> (s1, [], LoopThrew (InvPollError err))
                  | _ \<Rightarrow>
                     (case inv_readiness r answer of
                        Inl err \<Rightarrow> (s1, [], LoopThrew err)
                      | Inr sourceTriggered \<Rightarrow>
                          if rd_stopAfter r then (s1, [], LoopReturned)
                          else
                            (let s2 = request_if (rd_refreshLate r) s1;
                                 (s3, evs) = (if iv_refreshRequested s2 \<or> sourceTriggered
                                              then doRefreshCycle True (rd_cycle r) s2
                                              else if rd_now r \<ge> iv_nextReconcile s2
                                              then doRefreshCycle False (rd_cycle r) s2
                                              else (s2, []))
                             in (s3, evs, StillRunning))))))"

fun inv_loop_rounds :: "inv_round list \<Rightarrow> inv_service \<Rightarrow> inv_service \<times> inv_event list \<times> loop_exit" where
  "inv_loop_rounds [] s = (s, [], StillRunning)"
| "inv_loop_rounds (r # rs) s =
     (case inv_loop_round r s of
        (s1, evs1, StillRunning) \<Rightarrow>
          (let (s2, evs2, x) = inv_loop_rounds rs s1 in (s2, evs1 @ evs2, x))
      | (s1, evs1, x) \<Rightarrow> (s1, evs1, x))"

definition runLoop :: "cycle_input \<Rightarrow> inv_round list \<Rightarrow> inv_service \<Rightarrow> inv_service \<times> inv_event list \<times> loop_exit" where
  "runLoop c rs s =
     (let (s1, evs1) = doRefreshCycle True c s;
          (s2, evs2, x) = inv_loop_rounds rs s1
      in (s2, evs1 @ evs2, x))"


section \<open>Lifecycle\<close>

definition inv_initializeComponents :: "bool \<Rightarrow> inv_service \<Rightarrow> inv_service \<times> inv_event list \<times> bool" where
  "inv_initializeComponents createThrows s =
     (if \<not> iv_signal s \<and> createThrows then (s, [], False)
      else (s\<lparr>iv_signal := True\<rparr>, map BindQueryService (iv_transports s), True))"

text \<open>
  \<open>baseStart\<close> is \<open>ServiceBase::start\<close>, which calls back \<open>initializeComponents\<close>. The worker ends a
  thrown launch with \<open>quiesceQueriesOnTransports\<close> and \<open>ServiceBase::stop\<close>.
\<close>

definition inv_start ::
  "(inv_service \<Rightarrow> inv_service \<times> inv_event list \<times> bool) \<Rightarrow> bool \<Rightarrow> int \<Rightarrow> bool \<Rightarrow> inv_service
     \<Rightarrow> inv_service_error + inv_service \<times> inv_event list \<times> bool" where
  "inv_start baseStart begun now workerThrows s =
     (if \<not> begun then
        (if iv_loopFailed s then Inl RestartRequiresStop else Inr (s, [], True))
      else
        (case baseStart s of
           (s1, evs1, ok) \<Rightarrow>
             if \<not> ok then Inr (s1\<lparr>iv_signal := False\<rparr>, evs1, False)
             else
               (let s2 = s1\<lparr>iv_loopFailed := False, iv_nextReconcile := now\<rparr>
                in if workerThrows
                   then Inr (s2\<lparr>iv_signal := False\<rparr>, evs1 @ [InvWorkerStart, InvQuiesceQueries, InvBaseStop], False)
                   else Inr (s2, evs1 @ [InvWorkerStart], True))))"

definition inv_stop :: "bool \<Rightarrow> bool \<Rightarrow> inv_service \<Rightarrow> inv_service \<times> inv_event list" where
  "inv_stop onWorkerThread begun s =
     (if onWorkerThread then (s, [])
      else if \<not> begun then (s, [])
      else (s\<lparr>iv_loopFailed := False, iv_refreshRequested := False, iv_signal := False\<rparr>,
            [InvQuiesceQueries, InvWorkerStop, InvBaseStop]))"

definition onRefreshWorkerExit :: "loop_exit \<Rightarrow> inv_service \<Rightarrow> inv_service" where
  "onRefreshWorkerExit x s = (case x of LoopThrew e \<Rightarrow> s\<lparr>iv_loopFailed := True\<rparr> | _ \<Rightarrow> s)"

end
