(* ===== verification/Inventory_Service_Properties.thy ===== *)
theory Inventory_Service_Properties
  imports Inventory_Service Inventory_Properties Event_Sourcing
begin

text \<open>
  Correctness of the inventory service: a requested refresh is never lost and is not delayed past the
  throttling interval, refreshes are spaced, a client that follows the published changes holds the
  snapshot's fields, readiness is announced once, and a dead loop is reported.
\<close>

section \<open>One cycle\<close>

abbreviation throttled :: "bool \<Rightarrow> cycle_input \<Rightarrow> inv_service \<Rightarrow> bool" where
  "throttled force c s \<equiv> force \<and> cy_now c - iv_lastRefresh s < ms (st_minRefreshInterval (iv_settings s))"

abbreviation refreshed :: "cycle_input \<Rightarrow> inventory_manager \<Rightarrow> inventory_manager \<times> inventory_diff" where
  "refreshed c m \<equiv> refreshAll (cy_ask c) (cy_attemptTs c) (cy_successTs c) (cy_wallNow c) m"

definition cycle_events :: "cycle_input \<Rightarrow> inv_service \<Rightarrow> inv_event list" where
  "cycle_events c s =
     (let m = iv_manager s; m' = fst (refreshed c m)
      in RefreshAll (cy_now c) # publishDiff (iv_transports s) (snd (refreshed c m)) (getSourceStates m)
           (getSourceStates m') (manager_isReady m) (manager_isReady m'))"

definition cycle_state :: "cycle_input \<Rightarrow> inv_service \<Rightarrow> inv_service" where
  "cycle_state c s = s\<lparr>iv_manager := fst (refreshed c (iv_manager s)), iv_refreshRequested := cy_refreshAfter c,
     iv_lastRefresh := cy_now c, iv_nextReconcile := cy_now c + ms (st_reconcileInterval (iv_settings s))\<rparr>"

lemma request_if_simps [simp]:
  "iv_manager (request_if b s) = iv_manager s"
  "iv_settings (request_if b s) = iv_settings s"
  "iv_transports (request_if b s) = iv_transports s"
  "iv_lastRefresh (request_if b s) = iv_lastRefresh s"
  "iv_nextReconcile (request_if b s) = iv_nextReconcile s"
  "iv_signal (request_if b s) = iv_signal s"
  "iv_refreshRequested (request_if b s) \<longleftrightarrow> b \<or> iv_refreshRequested s"
  "request_if False s = s"
  "request_if b (request_if a s) = request_if (a \<or> b) s"
  by (simp_all add: request_if_def inv_refresh_def)

lemma cycle_throttled:
  "throttled force c s \<Longrightarrow> doRefreshCycle force c s = (s\<lparr>iv_refreshRequested := True\<rparr>, [])"
  by (simp add: doRefreshCycle_def request_if_def inv_refresh_def Let_def)

lemma cycle_runs:
  "\<not> throttled force c s \<Longrightarrow> doRefreshCycle force c s = (cycle_state c s, cycle_events c s)"
  by (auto simp: doRefreshCycle_def cycle_events_def cycle_state_def request_if_def inv_refresh_def Let_def split: prod.splits)

text \<open>
  What one round of the loop does: nothing but note requests, or one cycle. A cycle that was not
  forced runs only when the reconcile time has come and no request is pending.
\<close>

definition round_answer :: "inv_round \<Rightarrow> inv_service \<Rightarrow> inv_poll" where
  "round_answer r s = rd_poll r (msUntil (rd_msNow r) (wake_ts (request_if (rd_refreshEarly r) s)))"

lemma loop_round_running:
  assumes "inv_loop_round r s = (s', evs, StillRunning)"
  shows "\<not> rd_stopBefore r" "\<not> rd_stopAfter r" "iv_signal s"
    "\<exists>trig. inv_readiness r (round_answer r s) = Inr trig \<and>
       (s', evs) =
         (let s2 = request_if (rd_refreshEarly r \<or> rd_refreshLate r) s
          in if iv_refreshRequested s2 \<or> trig then doRefreshCycle True (rd_cycle r) s2
             else if rd_now r \<ge> iv_nextReconcile s2 then doRefreshCycle False (rd_cycle r) s2 else (s2, []))"
  using assms unfolding inv_loop_round_def round_answer_def
  by (auto simp: Let_def split: if_splits inv_poll.splits sum.splits prod.splits)

lemma loop_round_ended:
  assumes "inv_loop_round r s = (s', evs, x)" "x \<noteq> StillRunning"
  shows "evs = []" "s' = s \<or> s' = request_if (rd_refreshEarly r) s"
  using assms unfolding inv_loop_round_def
  by (auto simp: Let_def split: if_splits inv_poll.splits sum.splits prod.splits)

lemma loop_round_cases:
  assumes "inv_loop_round r s = (s', evs, x)"
  obtains (idle) b where "s' = request_if b s" "evs = []"
      "x = StillRunning \<Longrightarrow> \<not> iv_refreshRequested s' \<and> rd_now r < iv_nextReconcile s"
  | (forced) b where "doRefreshCycle True (rd_cycle r) (request_if b s) = (s', evs)" "x = StillRunning"
  | (reconcile) "doRefreshCycle False (rd_cycle r) s = (s', evs)" "x = StillRunning"
      "\<not> iv_refreshRequested s" "iv_nextReconcile s \<le> rd_now r"
proof (cases "x = StillRunning")
  case False
  then show ?thesis using loop_round_ended[OF assms] idle[of False] idle[of "rd_refreshEarly r"] by auto
next
  case True
  let ?b = "rd_refreshEarly r \<or> rd_refreshLate r"
  obtain trig where r: "(s', evs) =
         (let s2 = request_if ?b s
          in if iv_refreshRequested s2 \<or> trig then doRefreshCycle True (rd_cycle r) s2
             else if rd_now r \<ge> iv_nextReconcile s2 then doRefreshCycle False (rd_cycle r) s2 else (s2, []))"
    using loop_round_running(4) assms True by blast
  show ?thesis
  proof (cases "iv_refreshRequested (request_if ?b s) \<or> trig")
    case True': True
    then show ?thesis using r True forced[of ?b] by (simp add: Let_def)
  next
    case none: False
    then have b: "?b = False" by simp
    show ?thesis using r True none idle[of False] reconcile unfolding b Let_def
      by (cases "iv_nextReconcile s \<le> rd_now r") auto
  qed
qed


section \<open>Requests\<close>

lemma cycle_forced_request:
  assumes "doRefreshCycle True c s = (s', evs)"
  shows "(cy_now c - iv_lastRefresh s < ms (st_minRefreshInterval (iv_settings s)) \<and>
            s' = s\<lparr>iv_refreshRequested := True\<rparr> \<and> evs = []) \<or>
         (iv_lastRefresh s + ms (st_minRefreshInterval (iv_settings s)) \<le> cy_now c \<and> RefreshAll (cy_now c) \<in> set evs)"
  using assms cycle_throttled[of True c s] cycle_runs[of True c s]
  by (cases "throttled True c s") (auto simp: cycle_events_def Let_def)

lemma round_requested:
  assumes "inv_loop_round r s = (s', evs, StillRunning)"
    "iv_refreshRequested s \<or> rd_refreshEarly r \<or> rd_refreshLate r"
  shows "(cy_now (rd_cycle r) - iv_lastRefresh s < ms (st_minRefreshInterval (iv_settings s)) \<and>
            iv_refreshRequested s' \<and> iv_lastRefresh s' = iv_lastRefresh s \<and> iv_settings s' = iv_settings s \<and> evs = []) \<or>
         (iv_lastRefresh s + ms (st_minRefreshInterval (iv_settings s)) \<le> cy_now (rd_cycle r) \<and>
            RefreshAll (cy_now (rd_cycle r)) \<in> set evs)"
proof -
  let ?s = "request_if (rd_refreshEarly r \<or> rd_refreshLate r) s"
  have "iv_refreshRequested ?s" using assms(2) by auto
  then have "(s', evs) = doRefreshCycle True (rd_cycle r) ?s"
    using loop_round_running(4)[OF assms(1)] by (auto simp: Let_def)
  then show ?thesis using cycle_forced_request[of "rd_cycle r" ?s s' evs] by auto
qed

lemma wait_bounded:
  assumes "iv_refreshRequested s" "iv_lastRefresh s \<le> now"
    "0 \<le> st_minRefreshInterval (iv_settings s)" "st_minRefreshInterval (iv_settings s) < 2 ^ 31"
  shows "0 \<le> msUntil now (wake_ts s)"
    "now + ms (msUntil now (wake_ts s)) \<le> max now (iv_lastRefresh s + ms (st_minRefreshInterval (iv_settings s)))"
proof -
  let ?d = "wake_ts s - now" and ?due = "iv_lastRefresh s + ms (st_minRefreshInterval (iv_settings s))"
  have w: "wake_ts s \<le> ?due" using assms(1) by (simp add: wake_ts_def)
  have small: "sint (word_of_int (?d div 1000000) :: 32 word) = ?d div 1000000" if "0 < ?d"
  proof -
    have "?d \<le> ms (st_minRefreshInterval (iv_settings s))" using w assms(2) by simp
    then have "?d div 1000000 \<le> st_minRefreshInterval (iv_settings s)"
      using zdiv_mono1[of ?d "ms (st_minRefreshInterval (iv_settings s))" 1000000] by simp
    moreover have "0 \<le> ?d div 1000000" using that by simp
    ultimately show ?thesis using assms(4)
      by (simp add: sint_sbintrunc' signed_take_bit_int_eq_self)
  qed
  have "?d div 1000000 * 1000000 \<le> ?d"
    using div_mult_mod_eq[of ?d 1000000] pos_mod_sign[of 1000000 ?d] by linarith
  then show "0 \<le> msUntil now (wake_ts s)"
    "now + ms (msUntil now (wake_ts s)) \<le> max now ?due"
    using small w by (auto simp: msUntil_def)
qed


definition sample_cycle :: "int \<Rightarrow> cycle_input" where
  "sample_cycle now = \<lparr>cy_now = now, cy_refreshBefore = False, cy_refreshAfter = False, cy_ask = sample_answer,
     cy_attemptTs = 7, cy_successTs = (\<lambda>_. 8), cy_wallNow = 9\<rparr>"

definition sample_round :: "int \<Rightarrow> inv_round" where
  "sample_round now = \<lparr>rd_stopBefore = False, rd_refreshEarly = False, rd_poll = (\<lambda>_. InvPollTimeout), rd_msNow = now,
     rd_drain = 0, rd_changedPaths = [], rd_stopAfter = False, rd_refreshLate = False, rd_now = now,
     rd_cycle = sample_cycle now\<rparr>"

definition sample_inv_service :: inv_service where
  "sample_inv_service = \<lparr>iv_manager = sample_manager, iv_settings = default_inv_settings, iv_transports = [''dbus''],
     iv_watched = [], iv_loopFailed = False, iv_refreshRequested = True, iv_lastRefresh = 5,
     iv_nextReconcile = ms 60000 + 5, iv_signal = True\<rparr>"

lemma sample_round_throttled:
  "now < ms 1000 + 5 \<Longrightarrow> inv_loop_round (sample_round now) sample_inv_service = (sample_inv_service, [], StillRunning)"
  by (simp add: inv_loop_round_def sample_round_def sample_cycle_def inv_readiness_def Let_def
      sample_inv_service_def cycle_throttled default_inv_settings_def)

lemma sample_round_runs:
  "ms 1000 + 5 \<le> now \<Longrightarrow> inv_loop_round (sample_round now) sample_inv_service
     = (cycle_state (sample_cycle now) sample_inv_service, cycle_events (sample_cycle now) sample_inv_service, StillRunning)"
  by (simp add: inv_loop_round_def sample_round_def inv_readiness_def Let_def cycle_runs)
     (simp add: sample_inv_service_def cycle_runs default_inv_settings_def sample_cycle_def)

lemma sample_rounds:
  "inv_loop_rounds [sample_round 6, sample_round (ms 1000 + 5)] sample_inv_service =
     (cycle_state (sample_cycle (ms 1000 + 5)) sample_inv_service,
      cycle_events (sample_cycle (ms 1000 + 5)) sample_inv_service, StillRunning)"
  by (simp add: sample_round_throttled sample_round_runs[simplified])



section \<open>Spacing of the refreshes\<close>

fun refresh_times :: "inv_event list \<Rightarrow> int list" where
  "refresh_times [] = []"
| "refresh_times (RefreshAll t # evs) = t # refresh_times evs"
| "refresh_times (_ # evs) = refresh_times evs"

lemma refresh_times_append [simp]: "refresh_times (a @ b) = refresh_times a @ refresh_times b"
  by (induction a rule: refresh_times.induct) simp_all

lemma refresh_times_none: "\<forall>t. RefreshAll t \<notin> set evs \<Longrightarrow> refresh_times evs = []"
  by (induction evs rule: refresh_times.induct) auto

lemma source_log_events: "e \<in> set (source_log old n st) \<Longrightarrow> (\<exists>x. e = LogSourceFailed n x) \<or> e = LogSourceRecovered n"
  by (simp add: source_log_def split: if_splits)

lemma publish_source_events:
  "e \<in> set (publish_source ts os (n, st)) \<longleftrightarrow>
     (\<forall>old. map_of os n = Some old \<longrightarrow> sourceStateTransitioned old st) \<and>
     (e \<in> set (source_log (map_of os n) n st) \<or> (\<exists>t \<in> set ts. e = PublishSourceStateChanged t n))"
  by (cases "map_of os n") (simp_all add: publish_source_def Let_def image_iff)

lemma publish_source_other:
  "e \<in> set (publish_source ts os entry) \<Longrightarrow>
     (\<exists>n x. e = LogSourceFailed n x) \<or> (\<exists>n. e = LogSourceRecovered n) \<or> (\<exists>t n. e = PublishSourceStateChanged t n)"
  by (cases entry) (auto simp: publish_source_events dest!: source_log_events)

lemma publish_source_states:
  "PublishSourceStateChanged t n \<in> set (publish_source ts os entry) \<longleftrightarrow>
     t \<in> set ts \<and> n = fst entry \<and> (\<forall>old. map_of os n = Some old \<longrightarrow> sourceStateTransitioned old (snd entry))"
  by (cases entry) (auto simp: publish_source_events dest!: source_log_events)

lemma publishDiff_no_refresh: "RefreshAll t \<notin> set (publishDiff ts d os ns a b)"
  by (auto simp: publishDiff_def dest: publish_source_other)

lemma cycle_events_times: "refresh_times (cycle_events c s) = [cy_now c]"
  by (simp add: cycle_events_def Let_def refresh_times_none publishDiff_no_refresh)

text \<open>The clock a round reads for its cycle is not before the one it compared with the reconcile time.\<close>

definition clocks_ok :: "inv_round list \<Rightarrow> bool" where
  "clocks_ok rs \<longleftrightarrow> (\<forall>r \<in> set rs. rd_now r \<le> cy_now (rd_cycle r))"

text \<open>While no request is pending, the next reconcile lies a whole interval after the last refresh.\<close>

definition reconcile_ok :: "inv_service \<Rightarrow> bool" where
  "reconcile_ok s \<longleftrightarrow> iv_refreshRequested s \<or>
     iv_lastRefresh s + ms (st_reconcileInterval (iv_settings s)) \<le> iv_nextReconcile s"

definition refresh_gap :: "inv_settings \<Rightarrow> int" where
  "refresh_gap st = ms (min (st_minRefreshInterval st) (st_reconcileInterval st))"

fun spaced :: "int \<Rightarrow> int \<Rightarrow> int list \<Rightarrow> bool" where
  "spaced gap t0 [] \<longleftrightarrow> True"
| "spaced gap t0 (t # ts) \<longleftrightarrow> t0 + gap \<le> t \<and> spaced gap t ts"

lemma spaced_append: "spaced gap t0 (a @ b) \<longleftrightarrow> spaced gap t0 a \<and> spaced gap (last (t0 # a)) b"
  by (induction a arbitrary: t0) auto

definition cycle_spaced :: "inv_service \<Rightarrow> inv_event list \<Rightarrow> inv_service \<Rightarrow> bool" where
  "cycle_spaced s evs s' \<longleftrightarrow>
     reconcile_ok s' \<and> iv_settings s' = iv_settings s \<and> iv_lastRefresh s' = last (iv_lastRefresh s # refresh_times evs) \<and>
     spaced (refresh_gap (iv_settings s)) (iv_lastRefresh s) (refresh_times evs)"

lemma cycle_spacedI:
  assumes "doRefreshCycle force c s = (s', evs)"
    "\<not> force \<Longrightarrow> iv_lastRefresh s + ms (st_reconcileInterval (iv_settings s)) \<le> cy_now c"
  shows "cycle_spaced s evs s'"
proof (cases "throttled force c s")
  case True
  then show ?thesis using assms(1) by (simp add: cycle_throttled cycle_spaced_def reconcile_ok_def) auto
next
  case False
  have "iv_lastRefresh s + refresh_gap (iv_settings s) \<le> cy_now c"
    using False assms(2) by (cases force) (auto simp: refresh_gap_def min_def)
  then show ?thesis using False assms(1)
    by (auto simp: cycle_runs cycle_spaced_def reconcile_ok_def cycle_events_times cycle_state_def)
qed

lemma cycle_spaced_trans:
  "cycle_spaced s evs s1 \<Longrightarrow> cycle_spaced s1 evs' s2 \<Longrightarrow> cycle_spaced s (evs @ evs') s2"
  by (auto simp: cycle_spaced_def spaced_append last_append)

lemma round_spaced:
  assumes "inv_loop_round r s = (s', evs, x)" "reconcile_ok s" "rd_now r \<le> cy_now (rd_cycle r)"
  shows "cycle_spaced s evs s'"
  using assms(1)
proof (cases rule: loop_round_cases)
  case (idle b)
  then show ?thesis using assms(2) by (auto simp: cycle_spaced_def reconcile_ok_def)
next
  case (forced b)
  then show ?thesis using cycle_spacedI[of True "rd_cycle r" "request_if b s" s' evs] by (simp add: cycle_spaced_def)
next
  case reconcile
  then show ?thesis using cycle_spacedI[of False "rd_cycle r" s s' evs] assms(2,3) by (simp add: reconcile_ok_def)
qed

lemma rounds_spaced:
  "inv_loop_rounds rs s = (s', evs, x) \<Longrightarrow> reconcile_ok s \<Longrightarrow> clocks_ok rs \<Longrightarrow> cycle_spaced s evs s'"
proof (induction rs arbitrary: s evs)
  case Nil
  then show ?case by (simp add: cycle_spaced_def)
next
  case (Cons r rs)
  obtain s1 evs1 y where r: "inv_loop_round r s = (s1, evs1, y)" by (cases "inv_loop_round r s") auto
  have first: "cycle_spaced s evs1 s1"
    by (rule round_spaced[OF r Cons.prems(2)]) (use Cons.prems(3) in \<open>simp add: clocks_ok_def\<close>)
  show ?case
  proof (cases "y = StillRunning")
    case True
    then obtain evs2 where rest: "inv_loop_rounds rs s1 = (s', evs2, x)" "evs = evs1 @ evs2"
      using Cons.prems(1) r by (auto split: prod.splits)
    have "cycle_spaced s1 evs2 s'"
      by (rule Cons.IH[OF rest(1)]) (use first Cons.prems(3) in \<open>auto simp: cycle_spaced_def clocks_ok_def\<close>)
    with first rest(2) show ?thesis using cycle_spaced_trans by blast
  next
    case False
    then have "s' = s1" "evs = evs1" using Cons.prems(1) r by (cases y; simp)+
    with first show ?thesis by simp
  qed
qed

text \<open>
  (C28) Refreshes are spaced: in every run of the loop, from any state a start can leave, two refreshes
  in a row are at least the smaller of the two configured intervals apart, the first of the run and
  the last of an earlier run included, however many requests and file events arrive.
\<close>

theorem refreshes_spaced:
  assumes "runLoop c rs s = (s', evs, x)" "clocks_ok rs"
  shows "spaced (refresh_gap (iv_settings s)) (iv_lastRefresh s) (refresh_times evs)"
proof -
  obtain s1 evs1 where c: "doRefreshCycle True c s = (s1, evs1)" by fastforce
  then obtain evs2 where r: "inv_loop_rounds rs s1 = (s', evs2, x)" "evs = evs1 @ evs2"
    using assms(1) by (auto simp: runLoop_def split: prod.splits)
  have "cycle_spaced s evs1 s1" by (rule cycle_spacedI[OF c]) simp
  moreover from this have "cycle_spaced s1 evs2 s'"
    using rounds_spaced[OF r(1) _ assms(2)] by (simp add: cycle_spaced_def)
  ultimately have "cycle_spaced s evs s'" unfolding r(2) by (rule cycle_spaced_trans)
  then show ?thesis by (simp add: cycle_spaced_def)
qed

theorem refreshes_spaced_witness:
  "spaced (ms 1000) 5 (refresh_times (cycle_events (sample_cycle (ms 1000 + 5)) sample_inv_service))"
proof -
  have "runLoop (sample_cycle 6) [sample_round 6, sample_round (ms 1000 + 5)] sample_inv_service =
     (cycle_state (sample_cycle (ms 1000 + 5)) sample_inv_service,
      cycle_events (sample_cycle (ms 1000 + 5)) sample_inv_service, StillRunning)"
    using sample_rounds
    by (simp add: runLoop_def cycle_throttled sample_cycle_def sample_inv_service_def default_inv_settings_def)
  from refreshes_spaced[OF this] show ?thesis
    by (simp add: clocks_ok_def sample_round_def sample_cycle_def sample_inv_service_def default_inv_settings_def
        refresh_gap_def)
qed


section \<open>What is announced\<close>

text \<open>The published inventory changes of one transport, in order, and its source-state changes.\<close>

definition announced :: "string \<Rightarrow> inv_event list \<Rightarrow> string set" where
  "announced t evs = {f. PublishInventoryChanged t f \<in> set evs}"

definition announced_sources :: "string \<Rightarrow> inv_event list \<Rightarrow> string set" where
  "announced_sources t evs = {n. PublishSourceStateChanged t n \<in> set evs}"

abbreviation inv_fields :: "inv_service \<Rightarrow> inventory_fields" where
  "inv_fields s \<equiv> is_fields (mg_snapshot (iv_manager s))"

lemma publishDiff_announced:
  "t \<in> set ts \<Longrightarrow> announced t (publishDiff ts d os ns a b) = set (df_changedFields d) \<union> set (df_removedFields d)"
  by (auto simp: announced_def publishDiff_def dest: publish_source_other)

lemma publishDiff_sources:
  assumes "t \<in> set ts"
  shows "announced_sources t (publishDiff ts d os ns a b) =
     {n. \<exists>st. (n, st) \<in> set ns \<and> (\<forall>o'. map_of os n = Some o' \<longrightarrow> sourceStateTransitioned o' st)}"
  using assms by (force simp: announced_sources_def publishDiff_def publish_source_states)

lemma refreshed_fields:
  assumes "manager_ok m" "answers_ok (cy_ask c)"
  shows "manager_ok (fst (refreshed c m))"
    "set (df_changedFields (snd (refreshed c m))) \<union> set (df_removedFields (snd (refreshed c m)))
       = {f. map_of (is_fields (mg_snapshot m)) f \<noteq> map_of (is_fields (mg_snapshot (fst (refreshed c m)))) f}"
proof -
  show ok: "manager_ok (fst (refreshed c m))"
    unfolding refreshAll_def by (rule refresh_merge_ok[OF assms subset_refl])
  obtain F S where FS: "fold (merge_result m) (refresh_collect (cy_ask c) (cy_attemptTs c) (cy_successTs c) (mg_sources m))
      (is_fields (mg_snapshot m), mg_sourceStates m) = (F, S)" by fastforce
  obtain m' d where md: "refreshed c m = (m', d)" by fastforce
  note P = refresh_merge_parts[OF FS md[unfolded refreshAll_def]]
  have "omap_ok (is_fields (mg_snapshot m))" "omap_ok F"
    using assms(1) ok md P(4) by (auto simp: manager_ok_def snapshot_ok_def)
  note D = diff_sets[OF this]
  show "set (df_changedFields (snd (refreshed c m))) \<union> set (df_removedFields (snd (refreshed c m)))
       = {f. map_of (is_fields (mg_snapshot m)) f \<noteq> map_of (is_fields (mg_snapshot (fst (refreshed c m)))) f}"
    using md P(4,5) D by (auto simp: set_eq_iff) (metis option.exhaust)
qed

text \<open>
  A refresh announces exactly what it changed: each transport is told of a field exactly when the
  snapshot's value for it changed, appeared or disappeared, and of a source exactly when its health,
  staleness or error changed or it is new; a change of the timestamps alone is not announced.
\<close>

theorem cycle_announces_changes:
  assumes "manager_reachable (iv_manager s)" "answers_ok (cy_ask c)" "doRefreshCycle force c s = (s', evs)"
    "t \<in> set (iv_transports s)"
  shows "announced t evs = {f. map_of (inv_fields s) f \<noteq> map_of (inv_fields s') f} \<and>
    announced_sources t evs = {n. \<exists>st. map_of (mg_sourceStates (iv_manager s')) n = Some st \<and> evs \<noteq> [] \<and>
      (\<forall>old. map_of (mg_sourceStates (iv_manager s)) n = Some old \<longrightarrow>
         ss_health old \<noteq> ss_health st \<or> ss_stale old \<noteq> ss_stale st \<or> ss_lastError old \<noteq> ss_lastError st)}"
proof (cases "throttled force c s")
  case True
  then show ?thesis using assms(3) by (auto simp: cycle_throttled announced_def announced_sources_def)
next
  case False
  have ok: "manager_ok (iv_manager s)" by (rule manager_reachable_ok[OF assms(1)])
  note F = refreshed_fields[OF ok assms(2)]
  have s': "s' = cycle_state c s" "evs = cycle_events c s" using False assms(3) by (simp_all add: cycle_runs)
  have "distinct_keys (mg_sourceStates (fst (refreshed c (iv_manager s))))"
    using F(1) by (simp add: manager_ok_def omap_ok_distinct)
  note I = in_set_map_of[OF this]
  have "announced t (RefreshAll n # es) = announced t es"
    "announced_sources t (RefreshAll n # es) = announced_sources t es" for n es
    by (auto simp: announced_def announced_sources_def)
  then show ?thesis using publishDiff_announced[OF assms(4)] publishDiff_sources[OF assms(4)] F(2)
    by (simp add: s' cycle_events_def cycle_state_def Let_def getSourceStates_def I sourceStateTransitioned_def)
qed

definition sample_cycle_result :: "inv_service \<times> inv_event list" where
  "sample_cycle_result = doRefreshCycle False (sample_cycle 6) sample_inv_service"

theorem cycle_announces_changes_witness:
  "announced ''dbus'' (snd sample_cycle_result)
     = {f. map_of (inv_fields sample_inv_service) f \<noteq> map_of (inv_fields (fst sample_cycle_result)) f}"
  using cycle_announces_changes[of sample_inv_service "sample_cycle 6" False "fst sample_cycle_result"
      "snd sample_cycle_result" "''dbus''"] sample_manager_reachable sample_answers_ok
  by (simp add: sample_cycle_result_def) (simp add: sample_inv_service_def sample_cycle_def)


section \<open>A client that follows the announcements\<close>

text \<open>
  The service announces on one transport the fields its cycles changed; a client reads a field with
  \<open>getField\<close> when it is told that the field changed. This is an instance of \<open>announced_view\<close>.
\<close>

datatype inv_op = InvCycle cycle_input | InvRound inv_round

fun announcements :: "string \<Rightarrow> inv_event list \<Rightarrow> string list" where
  "announcements t [] = []"
| "announcements t (e # evs) =
     (case e of PublishInventoryChanged t' f \<Rightarrow> if t' = t then f # announcements t evs else announcements t evs
      | _ \<Rightarrow> announcements t evs)"

lemma set_announcements: "set (announcements t evs) = announced t evs"
  by (induction evs) (auto simp: announced_def split: inv_event.splits)

fun inv_op_step :: "string \<Rightarrow> inv_op \<Rightarrow> inv_service \<Rightarrow> inv_service \<times> string list" where
  "inv_op_step t (InvCycle c) s = (let (s', evs) = doRefreshCycle True c s in (s', announcements t evs))"
| "inv_op_step t (InvRound r) s = (let (s', evs, x) = inv_loop_round r s in (s', announcements t evs))"

fun inv_op_ok :: "inv_op \<Rightarrow> bool" where
  "inv_op_ok (InvCycle c) \<longleftrightarrow> answers_ok (cy_ask c)"
| "inv_op_ok (InvRound r) \<longleftrightarrow> answers_ok (cy_ask (rd_cycle r))"

definition announcing :: "string \<Rightarrow> inv_service \<Rightarrow> bool" where
  "announcing t s \<longleftrightarrow> manager_ok (iv_manager s) \<and> t \<in> set (iv_transports s)"

definition read_field :: "inv_service \<Rightarrow> string \<Rightarrow> field_value option" where
  "read_field s f = map_of (inv_getField f s) f"

lemma manager_ok_no_metadata: "manager_ok m \<Longrightarrow> is_metadata_field f \<Longrightarrow> map_of (is_fields (mg_snapshot m)) f = None"
proof -
  assume ok: "manager_ok m" and f: "is_metadata_field f"
  have "map_of (mg_fieldOwners m) f = None"
    using ok f by (auto simp: manager_ok_def owners_ok_def not_Some_eq[symmetric] simp del: not_Some_eq)
  then show ?thesis using ok by (simp add: manager_ok_def snapshot_ok_def)
qed

lemma read_field_owned: "\<not> is_metadata_field f \<Longrightarrow> read_field s f = map_of (inv_fields s) f"
  by (simp add: read_field_def inv_getField_def make_single_field_map_def get_field_value_def getSnapshot_def
      is_metadata_field_def split: option.split)

definition told_changes :: "string \<Rightarrow> inv_service \<Rightarrow> inv_service \<Rightarrow> inv_event list \<Rightarrow> bool" where
  "told_changes t s s' evs \<longleftrightarrow> announcing t s' \<and> announced t evs = {f. map_of (inv_fields s) f \<noteq> map_of (inv_fields s') f}"

lemma cycle_told:
  assumes ok: "announcing t s" "answers_ok (cy_ask c)" and r: "doRefreshCycle force c s = (s', evs)"
  shows "told_changes t s s' evs"
proof -
  have ok': "manager_ok (iv_manager s)" "t \<in> set (iv_transports s)" using ok(1) by (simp_all add: announcing_def)
  note F = refreshed_fields[OF ok'(1) ok(2)]
  have "announced t (RefreshAll n # es) = announced t es" for n es by (auto simp: announced_def)
  then have "announced t (cycle_events c s)
      = {f. map_of (inv_fields s) f \<noteq> map_of (inv_fields (cycle_state c s)) f}"
    using publishDiff_announced[OF ok'(2)] F(2) by (simp add: cycle_state_def cycle_events_def Let_def)
  moreover have "announcing t (cycle_state c s)" using F(1) ok' by (simp add: announcing_def cycle_state_def)
  ultimately have "told_changes t s (cycle_state c s) (cycle_events c s)" by (simp add: told_changes_def)
  moreover have "told_changes t s (s\<lparr>iv_refreshRequested := True\<rparr>) []"
    using ok' by (simp add: told_changes_def announcing_def announced_def)
  ultimately show ?thesis
    using r cycle_throttled[of force c s] cycle_runs[of force c s] by (cases "throttled force c s") auto
qed

lemma round_told:
  assumes ok: "announcing t s" "answers_ok (cy_ask (rd_cycle r))" and r: "inv_loop_round r s = (s', evs, x)"
  shows "told_changes t s s' evs"
  using r
proof (cases rule: loop_round_cases)
  case (idle b)
  then show ?thesis using ok(1) by (simp add: told_changes_def announcing_def announced_def)
next
  case (forced b)
  have "announcing t (request_if b s)" using ok(1) by (simp add: announcing_def)
  from cycle_told[OF this ok(2) forced(1)] show ?thesis by (simp add: told_changes_def)
next
  case reconcile
  then show ?thesis using cycle_told[OF ok] by blast
qed

lemma op_told:
  assumes "announcing t s" "inv_op_ok op"
  shows "\<exists>s' evs. inv_op_step t op s = (s', announcements t evs) \<and> told_changes t s s' evs"
proof (cases op)
  case (InvCycle c)
  then show ?thesis using assms cycle_told[of t s c True] by (cases "doRefreshCycle True c s") auto
next
  case (InvRound r)
  then show ?thesis using assms round_told[of t s r] by (cases "inv_loop_round r s") auto
qed

interpretation inv_announced: announced_view "announcing t" inv_op_ok "inv_op_step t" "\<lambda>f. \<not> is_metadata_field f"
  "\<lambda>s. map_of (inv_fields s)" read_field for t
proof (unfold_locales)
  fix s op f
  assume ok: "announcing t s" "inv_op_ok op"
  obtain s' evs where s': "inv_op_step t op s = (s', announcements t evs)" "told_changes t s s' evs"
    using op_told[OF ok] by blast
  have m: "manager_ok (iv_manager s)" "manager_ok (iv_manager s')"
    using ok(1) s'(2) by (simp_all add: announcing_def told_changes_def)
  show "announcing t (fst (inv_op_step t op s))" using s' by (simp add: told_changes_def)
  show "\<not> is_metadata_field f" if "f \<in> set (snd (inv_op_step t op s))"
    using that s' manager_ok_no_metadata[OF m(1), of f] manager_ok_no_metadata[OF m(2), of f]
    by (auto simp: set_announcements told_changes_def)
  show "map_of (inv_fields (fst (inv_op_step t op s))) f = map_of (inv_fields s) f"
    if "f \<notin> set (snd (inv_op_step t op s))"
    using that s' by (auto simp: set_announcements told_changes_def)
qed (simp add: read_field_owned)

text \<open>
  (C29) Following the announcements is enough: in any interleaving of refresh cycles, rounds of the loop
  and deliveries, a client that reads a field with \<open>getField\<close> whenever its transport announces it
  holds, once everything announced was delivered, exactly the fields of the manager's snapshot.
\<close>

theorem inventory_client_exact:
  assumes "manager_reachable (iv_manager s)" "t \<in> set (iv_transports s)" "\<forall>op \<in> set ops. link_adm inv_op_ok op"
    and "fold (link_step (inv_op_step t) read_field) ops (s, [], map_of (is_fields (inv_getIdentity s))) = (s', [], client)"
  shows "client = map_of (is_fields (inv_getIdentity s'))"
proof -
  have "announcing t s" using assms(1,2) manager_reachable_ok by (simp add: announcing_def)
  from inv_announced.client_exact[OF this assms(3)] show ?thesis
    using assms(4) by (simp add: inv_getIdentity_def getSnapshot_def)
qed

definition sample_ops :: "inv_op link_op list" where
  "sample_ops = [LinkStep (InvRound (sample_round 6)), LinkStep (InvCycle (sample_cycle (ms 1000 + 5))), LinkDeliver]"

theorem inventory_client_exact_witness:
  "\<exists>s' client. fold (link_step (inv_op_step ''dbus'') read_field) sample_ops
      (sample_inv_service, [], map_of (is_fields (inv_getIdentity sample_inv_service))) = (s', [], client) \<and>
    client = map_of (is_fields (inv_getIdentity s'))"
proof -
  let ?s = "cycle_state (sample_cycle (ms 1000 + 5)) sample_inv_service"
  have "\<not> throttled True (sample_cycle (ms 1000 + 5)) sample_inv_service"
    by (simp add: sample_cycle_def sample_inv_service_def default_inv_settings_def)
  moreover have "announcements ''dbus'' (cycle_events (sample_cycle (ms 1000 + 5)) sample_inv_service) = [''uuid'']"
    by code_simp
  ultimately have "\<exists>client. fold (link_step (inv_op_step ''dbus'') read_field) sample_ops
      (sample_inv_service, [], map_of (is_fields (inv_getIdentity sample_inv_service))) = (?s, [], client)"
    by (simp add: sample_ops_def sample_round_throttled cycle_runs)
  moreover have "\<forall>op \<in> set sample_ops. link_adm inv_op_ok op"
    using sample_answers_ok by (simp add: sample_ops_def sample_round_def sample_cycle_def)
  moreover have "manager_reachable (iv_manager sample_inv_service)" "''dbus'' \<in> set (iv_transports sample_inv_service)"
    using sample_manager_reachable by (simp_all add: sample_inv_service_def)
  ultimately show ?thesis using inventory_client_exact by blast
qed


section \<open>Readiness\<close>

fun ready_calls :: "inv_event list \<Rightarrow> bool list" where
  "ready_calls [] = []"
| "ready_calls (InvSetReady b # evs) = b # ready_calls evs"
| "ready_calls (_ # evs) = ready_calls evs"

lemma ready_calls_append [simp]: "ready_calls (a @ b) = ready_calls a @ ready_calls b"
  by (induction a rule: ready_calls.induct) simp_all

lemma ready_calls_none: "\<forall>b. InvSetReady b \<notin> set evs \<Longrightarrow> ready_calls evs = []"
  by (induction evs rule: ready_calls.induct) auto

lemma publishDiff_ready: "ready_calls (publishDiff ts d os ns a b) = (if a \<noteq> b then [b] else [])"
proof -
  have "ready_calls (concat (map (publish_source ts os) ns)) = []"
    by (rule ready_calls_none) (auto dest: publish_source_other)
  moreover have "ready_calls (concat (map (\<lambda>f. map (\<lambda>t. PublishInventoryChanged t f) ts) fs)) = []" for fs
    by (rule ready_calls_none) auto
  ultimately show ?thesis by (simp add: publishDiff_def)
qed

lemma refresh_keeps_ready: "manager_isReady m \<Longrightarrow> manager_isReady (fst (refreshAll ask ta ts now m))"
  by (simp add: manager_isReady_def refreshAll_def refresh_merge_def Let_def split: prod.split)

abbreviation svc_ready :: "inv_service \<Rightarrow> bool" where
  "svc_ready s \<equiv> manager_isReady (iv_manager s)"

text \<open>The calls of \<open>setReady\<close> between two states: one when the manager became ready, none otherwise.\<close>

definition ready_told :: "inv_service \<Rightarrow> inv_event list \<Rightarrow> inv_service \<Rightarrow> bool" where
  "ready_told s evs s' \<longleftrightarrow>
     (svc_ready s \<longrightarrow> svc_ready s') \<and> ready_calls evs = (if \<not> svc_ready s \<and> svc_ready s' then [True] else [])"

lemma ready_told_trans: "ready_told s a s1 \<Longrightarrow> ready_told s1 b s2 \<Longrightarrow> ready_told s (a @ b) s2"
  by (auto simp: ready_told_def split: if_splits)

lemma cycle_ready: "doRefreshCycle force c s = (s', evs) \<Longrightarrow> ready_told s evs s'"
  using refresh_keeps_ready[of "iv_manager s"]
  by (cases "throttled force c s")
     (auto simp: cycle_throttled cycle_runs ready_told_def cycle_state_def cycle_events_def Let_def publishDiff_ready)

lemma round_ready:
  assumes "inv_loop_round r s = (s', evs, x)"
  shows "ready_told s evs s'"
  using assms
proof (cases rule: loop_round_cases)
  case (idle b)
  then show ?thesis by (simp add: ready_told_def)
next
  case (forced b)
  then show ?thesis using cycle_ready[OF forced(1)] by (simp add: ready_told_def)
next
  case reconcile
  then show ?thesis using cycle_ready by simp
qed

lemma rounds_ready: "inv_loop_rounds rs s = (s', evs, x) \<Longrightarrow> ready_told s evs s'"
proof (induction rs arbitrary: s evs)
  case Nil
  then show ?case by (simp add: ready_told_def)
next
  case (Cons r rs)
  obtain s1 evs1 y where r: "inv_loop_round r s = (s1, evs1, y)" by (cases "inv_loop_round r s") auto
  show ?case
  proof (cases "y = StillRunning")
    case True
    then obtain evs2 where rest: "inv_loop_rounds rs s1 = (s', evs2, x)" "evs = evs1 @ evs2"
      using Cons.prems(1) r by (auto split: prod.splits)
    then show ?thesis using ready_told_trans[OF round_ready[OF r] Cons.IH[OF rest(1)]] by simp
  next
    case False
    then have "s' = s1" "evs = evs1" using Cons.prems(1) r by (cases y; simp)+
    then show ?thesis using round_ready[OF r] by simp
  qed
qed

lemma run_ready:
  assumes "runLoop c rs s = (s', evs, x)"
  shows "ready_told s evs s'"
proof -
  obtain s1 evs1 where c: "doRefreshCycle True c s = (s1, evs1)" by fastforce
  then obtain evs2 where r: "inv_loop_rounds rs s1 = (s', evs2, x)" "evs = evs1 @ evs2"
    using assms by (auto simp: runLoop_def split: prod.splits)
  show ?thesis using ready_told_trans[OF cycle_ready[OF c] rounds_ready[OF r(1)]] r(2) by simp
qed

text \<open>
  Readiness is announced once and only for a manager that becomes ready: a run of the loop calls
  \<open>setReady(true)\<close> once if the manager was not ready before it and is ready after it, and otherwise
  never calls \<open>setReady\<close>; once ready, the manager stays ready.
\<close>

theorem ready_announced_once:
  assumes "runLoop c rs s = (s', evs, x)"
  shows "ready_calls evs = (if \<not> svc_ready s \<and> svc_ready s' then [True] else []) \<and> (svc_ready s \<longrightarrow> svc_ready s')"
  using run_ready[OF assms] by (simp add: ready_told_def)

theorem ready_announced_once_witness:
  "ready_calls (snd (doRefreshCycle True (sample_cycle (ms 1000 + 5)) sample_inv_service)) = [True]"
proof -
  let ?r = "doRefreshCycle True (sample_cycle (ms 1000 + 5)) sample_inv_service"
  have "runLoop (sample_cycle (ms 1000 + 5)) [] sample_inv_service = (fst ?r, snd ?r, StillRunning)"
    by (simp add: runLoop_def split: prod.split)
  note P = ready_announced_once[OF this]
  have "\<not> svc_ready sample_inv_service" "svc_ready (cycle_state (sample_cycle (ms 1000 + 5)) sample_inv_service)"
    by (code_simp, code_simp)
  moreover have "fst ?r = cycle_state (sample_cycle (ms 1000 + 5)) sample_inv_service"
    using cycle_runs[of True "sample_cycle (ms 1000 + 5)" sample_inv_service]
    by (simp add: sample_cycle_def sample_inv_service_def default_inv_settings_def)
  ultimately show ?thesis using P by simp
qed

text \<open>
  The readiness of an earlier epoch is not announced again: when a service whose manager is ready is
  stopped and started, no run of the new epoch calls \<open>setReady\<close>.
\<close>

theorem restart_not_announced:
  assumes "svc_ready s" "inv_stop False True s = (s1, calls)"
    "inv_start base True now False s1 = Inr (s2, evs1, True)" "iv_manager (fst (base s1)) = iv_manager s1"
    "runLoop c rs s2 = (s3, evs, x)"
  shows "ready_calls evs = []"
proof -
  obtain s1' e ok where "base s1 = (s1', e, ok)" by (cases "base s1") auto
  then have "svc_ready s2"
    using assms(1-4) by (simp add: inv_stop_def inv_start_def Let_def split: if_splits) auto
  then show ?thesis using run_ready[OF assms(5)] by (simp add: ready_told_def)
qed


section \<open>A loop that dies\<close>

lemma cycle_manager_ok:
  assumes "manager_ok (iv_manager s)" "answers_ok (cy_ask c)" "doRefreshCycle force c s = (s', evs)"
  shows "manager_ok (iv_manager s')"
  using refreshed_fields(1)[OF assms(1,2)] assms(1,3) cycle_throttled[of force c s] cycle_runs[of force c s]
  by (cases "throttled force c s") (auto simp: cycle_state_def)

lemma round_manager_ok:
  assumes "manager_ok (iv_manager s)" "answers_ok (cy_ask (rd_cycle r))" "inv_loop_round r s = (s', evs, x)"
  shows "manager_ok (iv_manager s')"
  using assms(3)
proof (cases rule: loop_round_cases)
  case (forced b)
  then show ?thesis using cycle_manager_ok[OF _ assms(2) forced(1)] assms(1) by simp
qed (use assms(1,2) cycle_manager_ok in \<open>auto\<close>)

lemma rounds_manager_ok:
  "inv_loop_rounds rs s = (s', evs, x) \<Longrightarrow> manager_ok (iv_manager s) \<Longrightarrow>
   \<forall>r \<in> set rs. answers_ok (cy_ask (rd_cycle r)) \<Longrightarrow> manager_ok (iv_manager s')"
proof (induction rs arbitrary: s evs)
  case (Cons r rs)
  obtain s1 evs1 y where r: "inv_loop_round r s = (s1, evs1, y)" by (cases "inv_loop_round r s") auto
  have "manager_ok (iv_manager s1)" using round_manager_ok[OF Cons.prems(2) _ r] Cons.prems(3) by simp
  then show ?case using Cons.IH[of s1] Cons.prems(1,3) r by (cases y) (auto split: prod.splits)
qed simp

lemma deriveIssues_omap: "omap_ok states \<Longrightarrow> omap_ok (deriveIssues states)"
  unfolding deriveIssues_def by (induction states) auto

text \<open>
  A refresh loop that dies is reported and blocks a silent restart: when the loop ends with an
  exception, \<open>getIssues\<close> has a \<open>loop stopped\<close> issue of severity error beside the issues of the
  sources, a repeated \<open>start\<close> is refused until \<open>stop\<close>, and \<open>stop\<close> clears the issue and any
  pending request after it has quiesced the queries and joined the worker; a loop that returned
  normally reports nothing.
\<close>

theorem loop_failure_reported:
  assumes "runLoop c rs s = (s', evs, x)" "manager_reachable (iv_manager s)" "answers_ok (cy_ask c)"
    "\<forall>r \<in> set rs. answers_ok (cy_ask (rd_cycle r))" "s1 = onRefreshWorkerExit x s'"
    "inv_stop False True s1 = (s2, calls)"
  shows "(\<forall>e. x = LoopThrew e \<longrightarrow>
      (\<exists>issue. map_of (inv_getIssues s1) ISSUE_CODE_LOOP_STOPPED = Some issue \<and>
         map_of issue ISSUE_SEVERITY = Some (FString SEVERITY_ERROR)) \<and>
      inv_start base False now w s1 = Inl RestartRequiresStop) \<and>
    (\<forall>code. code \<noteq> ISSUE_CODE_LOOP_STOPPED \<longrightarrow>
       map_of (inv_getIssues s1) code = map_of (deriveIssues (inv_getSourceStates s1)) code) \<and>
    (x = LoopReturned \<longrightarrow> s1 = s') \<and>
    inv_getIssues s2 = deriveIssues (inv_getSourceStates s1) \<and> \<not> iv_refreshRequested s2 \<and>
    calls = [InvQuiesceQueries, InvWorkerStop, InvBaseStop]"
proof -
  obtain s0 evs1 where c: "doRefreshCycle True c s = (s0, evs1)" by fastforce
  then obtain evs2 where r: "inv_loop_rounds rs s0 = (s', evs2, x)"
    using assms(1) by (auto simp: runLoop_def split: prod.splits)
  have "manager_ok (iv_manager s')"
    using rounds_manager_ok[OF r cycle_manager_ok[OF manager_reachable_ok[OF assms(2)] assms(3) c] assms(4)] .
  then have ok: "omap_ok (deriveIssues (mg_sourceStates (iv_manager s')))"
    by (simp add: manager_ok_def deriveIssues_omap)
  have m: "iv_manager s1 = iv_manager s'" using assms(5) by (cases x) (simp_all add: onRefreshWorkerExit_def)
  have stop: "s2 = s1\<lparr>iv_loopFailed := False, iv_refreshRequested := False, iv_signal := False\<rparr>"
    "calls = [InvQuiesceQueries, InvWorkerStop, InvBaseStop]" using assms(6) by (simp_all add: inv_stop_def)
  have "map_of (inv_getIssues s1) code = map_of (deriveIssues (inv_getSourceStates s1)) code"
    if "code \<noteq> ISSUE_CODE_LOOP_STOPPED" for code
    using that ok m by (simp add: inv_getIssues_def inv_getSourceStates_def getSourceStates_def map_of_oput Let_def)
  moreover have "(\<exists>issue. map_of (inv_getIssues s1) ISSUE_CODE_LOOP_STOPPED = Some issue \<and>
         map_of issue ISSUE_SEVERITY = Some (FString SEVERITY_ERROR)) \<and>
      inv_start base False now w s1 = Inl RestartRequiresStop" if "x = LoopThrew e" for e
    using that ok m assms(5)
    by (simp add: inv_getIssues_def getSourceStates_def map_of_oput omap_ok_oput Let_def onRefreshWorkerExit_def
        inv_start_def issue_names)
  moreover have "x = LoopReturned \<longrightarrow> s1 = s'" using assms(5) by (simp add: onRefreshWorkerExit_def)
  moreover have "inv_getIssues s2 = deriveIssues (inv_getSourceStates s1)" "\<not> iv_refreshRequested s2"
    by (simp_all add: stop inv_getIssues_def inv_getSourceStates_def getSourceStates_def Let_def)
  ultimately show ?thesis using stop(2) by blast
qed

theorem loop_failure_reported_witness:
  "\<exists>issue. map_of (inv_getIssues (sample_inv_service\<lparr>iv_loopFailed := True\<rparr>)) ISSUE_CODE_LOOP_STOPPED = Some issue"
proof -
  let ?r = "(sample_round 6)\<lparr>rd_poll := \<lambda>_. InvPollFailure 9\<rparr>"
  have run: "runLoop (sample_cycle 6) [?r] sample_inv_service = (sample_inv_service, [], LoopThrew (InvPollError 9))"
    by (simp add: runLoop_def cycle_throttled sample_cycle_def sample_inv_service_def default_inv_settings_def
        inv_loop_round_def sample_round_def Let_def)
  have "manager_reachable (iv_manager sample_inv_service)" "answers_ok (cy_ask (sample_cycle 6))"
    "\<forall>r \<in> set [?r]. answers_ok (cy_ask (rd_cycle r))"
    using sample_manager_reachable sample_answers_ok
    by (simp_all add: sample_inv_service_def sample_round_def sample_cycle_def)
  note P = loop_failure_reported[OF run this refl prod.collapse[symmetric],
      THEN conjunct1, THEN spec, THEN mp, OF refl, THEN conjunct1]
  show ?thesis using P by (auto simp: onRefreshWorkerExit_def)
qed

end
