(* ===== verification/Query_Path.thy ===== *)
theory Query_Path
  imports Observation_Service
begin

text \<open>
  The query path of the network-observation service: \<open>NetworkObservationQueryHandler.cpp\<close> on the
  service side and \<open>DbusClient.cpp\<close> on the client side.

  \<open>ServiceBinding\<close>, the dbus-cxx library and \<open>dbus_client_support::invokeQuery\<close> with its
  \<open>ClientResult\<close> are not part of the repository. Whether the binding grants a lease is an argument,
  the outcome of a method call is an argument (\<open>Inl\<close> when it throws), and the client's
  \<open>invokeQuery\<close> is the argument \<open>invoke\<close>; \<open>invoke_ok\<close> states that it returns the value of a
  function that returns and an error for one that throws.
\<close>

section \<open>Results of a client call\<close>

datatype client_error_code = ServiceUnavailable | ClientTimeout | OtherCode nat

record client_error =
  ce_code :: client_error_code
  ce_message :: string

datatype client_exception = CallFailed string | DecodeFailed decode_error

type_synonym 'a client_outcome = "client_exception + 'a"
type_synonym 'a client_result = "client_error + 'a"

definition invoke_ok :: "('a client_outcome \<Rightarrow> 'a client_result) \<Rightarrow> bool" where
  "invoke_ok invoke \<longleftrightarrow> (\<forall>v. invoke (Inr v) = Inr v) \<and> (\<forall>x. \<exists>err. invoke (Inl x) = Inl err)"

lemma invoke_okD: "invoke_ok invoke \<Longrightarrow> invoke (Inr v) = Inr v"
  by (simp add: invoke_ok_def)

definition decoding :: "decode_error + 'a \<Rightarrow> 'a client_outcome" where
  "decoding r = (case r of Inl e \<Rightarrow> Inl (DecodeFailed e) | Inr a \<Rightarrow> Inr a)"

lemma decoding_simps [simp]: "decoding (Inr a) = Inr a" "decoding (Inl e) = Inl (DecodeFailed e)"
  by (simp_all add: decoding_def)

definition value_or :: "'a \<Rightarrow> 'a client_result \<Rightarrow> 'a" where
  "value_or fallback r = (case r of Inr v \<Rightarrow> v | Inl e \<Rightarrow> fallback)"

lemma value_or_simps [simp]: "value_or d (Inr v) = v" "value_or d (Inl e) = d"
  by (simp_all add: value_or_def)


section \<open>The query handler\<close>

text \<open>\<open>invokeQuery\<close> of the handlers: without a lease, or when the function throws, the fallback.\<close>

definition handler_invoke :: "bool \<Rightarrow> 'r \<Rightarrow> 'e + 'r \<Rightarrow> 'r" where
  "handler_invoke leased fallback outcome =
     (if \<not> leased then fallback else case outcome of Inr r \<Rightarrow> r | Inl e \<Rightarrow> fallback)"

text \<open>
  The contract of a query whose answer travels through a codec: with a lease, a value within the
  limits reaches the client unchanged.
\<close>

locale wire_codec = checked_codec enc dec fits
  for enc :: "'a \<Rightarrow> decode_error + 'w" and dec :: "'w \<Rightarrow> decode_error + 'a" and fits :: "'a \<Rightarrow> bool"
begin

lemma through_client:
  "fits a \<Longrightarrow> invoke_ok invoke \<Longrightarrow>
   invoke (rbind (Inr (handler_invoke True d (enc a))) (\<lambda>raw. decoding (dec raw))) = Inr a"
  using round_trip[of a] by (auto simp: handler_invoke_def decoding_def invoke_ok_def)

end

definition toWireCandidate :: "remote_candidate \<Rightarrow> wire_candidate" where
  "toWireCandidate c =
     \<lparr>wc_mac = rc_mac c, wc_classification = rc_classification c, wc_status = rc_status c,
      wc_seenInFdb = rc_seenInFdb c, wc_seenInNeigh = rc_seenInNeigh c, wc_seenInLldp = rc_seenInLldp c,
      wc_bridgePort = rc_bridgePort c, wc_remoteChassisId = rc_remoteChassisId c,
      wc_remotePortId = rc_remotePortId c, wc_remoteSystemName = rc_remoteSystemName c,
      wc_neighborIfaces = rc_neighborIfaces c, wc_ipv4 = rc_ipv4 c, wc_ipv6 = rc_ipv6 c\<rparr>"

definition toWireSnapshot :: "local_network_snapshot \<Rightarrow> local_interface_state umap" where
  "toWireSnapshot snapshot = ls_interfaces snapshot"

definition qh_getLocalSnapshot :: "'v variant_ops \<Rightarrow> bool \<Rightarrow> engine \<Rightarrow> 'v omap" where
  "qh_getLocalSnapshot V leased e =
     handler_invoke leased [] (encodeLocalSnapshot V (toWireSnapshot (localSnapshot e)))"

definition qh_getInterface :: "'v variant_ops \<Rightarrow> bool \<Rightarrow> string \<Rightarrow> engine \<Rightarrow> 'v omap" where
  "qh_getInterface V leased ifname e =
     handler_invoke leased []
       (case obs_getInterface ifname e of None \<Rightarrow> Inr [] | Some i \<Rightarrow> toVariantMap_iface V i)"

definition qh_getRemoteCandidateMacs :: "bool \<Rightarrow> engine \<Rightarrow> string list" where
  "qh_getRemoteCandidateMacs leased e =
     handler_invoke leased [] (encodeCandidateMacs (map rc_mac (remoteCandidates e)))"

definition qh_getCandidateByMac :: "'v variant_ops \<Rightarrow> bool \<Rightarrow> string \<Rightarrow> engine \<Rightarrow> 'v omap" where
  "qh_getCandidateByMac V leased mac e =
     handler_invoke leased []
       (case findCandidateByMac mac e of
          None \<Rightarrow> Inr []
        | Some c \<Rightarrow> toVariantMap_candidate V (toWireCandidate c))"

definition qh_getIssues :: "'v variant_ops \<Rightarrow> bool \<Rightarrow> observation_issues \<Rightarrow> 'v omap omap" where
  "qh_getIssues V leased issues = handler_invoke leased [] (obs_encodeIssues V issues)"

definition qh_getReady :: "bool \<Rightarrow> bool \<Rightarrow> bool" where
  "qh_getReady leased ready = handler_invoke leased False (Inr ready :: unit + bool)"

definition qh_getPhase :: "bool \<Rightarrow> string \<Rightarrow> string" where
  "qh_getPhase leased phase = handler_invoke leased OBS_PHASE_STOPPED (Inr phase :: unit + string)"


section \<open>The client\<close>

text \<open>
  The connection of the client: the bus it names, whether the interface proxy exists, whether it counts
  as connected, the signal proxies it has created and the callbacks connected to each.
\<close>

record obs_client =
  oc_busType :: string
  oc_iface :: bool
  oc_connected :: bool
  oc_signals :: "string list"
  oc_slots :: "(string \<times> nat) list"

datatype bus_type = SessionBus | SystemBus

definition toBusType :: "string \<Rightarrow> bus_type" where
  "toBusType busType = (if busType = ''session'' then SessionBus else SystemBus)"

definition new_obs_client :: "string \<Rightarrow> obs_client" where
  "new_obs_client busType = \<lparr>oc_busType = busType, oc_iface = False, oc_connected = False, oc_signals = [], oc_slots = []\<rparr>"

definition client_reset :: "obs_client \<Rightarrow> obs_client" where
  "client_reset c = c\<lparr>oc_signals := [], oc_slots := [], oc_iface := False, oc_connected := False\<rparr>"

definition interface_unavailable :: client_error where
  "interface_unavailable = \<lparr>ce_code = ServiceUnavailable,
     ce_message = ''network observation interface proxy is unavailable''\<rparr>"

text \<open>
  \<open>create\<close> is the outcome of creating dispatcher, connection and proxies on a bus: whether the
  interface proxy is not null, or an exception.
\<close>

definition tryConnect ::
  "(unit client_outcome \<Rightarrow> unit client_result) \<Rightarrow> (bus_type \<Rightarrow> bool client_outcome) \<Rightarrow> obs_client
     \<Rightarrow> obs_client \<times> unit client_result" where
  "tryConnect invoke create c =
     (let c1 = client_reset c
      in case create (toBusType (oc_busType c)) of
           Inl x \<Rightarrow> (c1, invoke (Inl x))
         | Inr iface \<Rightarrow>
             if iface then (c1\<lparr>oc_iface := True, oc_connected := True\<rparr>, invoke (Inr ()))
             else (c1, Inl interface_unavailable))"

definition client_connect :: "unit client_result \<Rightarrow> bool" where
  "client_connect r = (case r of Inr _ \<Rightarrow> True | Inl _ \<Rightarrow> False)"

definition validateStringList :: "string list \<Rightarrow> decode_error + string list" where
  "validateStringList values =
     (if length values > kMaxCandidates then Inl LimitExceeded
      else if list_ex (\<lambda>v. length v > kMaxStringLength) values then Inl LimitExceeded
      else Inr values)"

definition dc_query :: "('a client_outcome \<Rightarrow> 'a client_result) \<Rightarrow> obs_client \<Rightarrow> 'a client_outcome \<Rightarrow> 'a client_result" where
  "dc_query invoke c body = (if \<not> oc_iface c then Inl interface_unavailable else invoke body)"

definition tryGetLocalSnapshot ::
  "'v variant_ops \<Rightarrow> (local_interface_state umap client_outcome \<Rightarrow> local_interface_state umap client_result) \<Rightarrow> obs_client
     \<Rightarrow> 'v omap client_outcome \<Rightarrow> local_interface_state umap client_result" where
  "tryGetLocalSnapshot V invoke c call =
     dc_query invoke c (rbind call (\<lambda>raw. decoding (fromVariantMapLocalSnapshot V raw)))"

definition tryGetInterface ::
  "'v variant_ops \<Rightarrow> (local_interface_state option client_outcome \<Rightarrow> local_interface_state option client_result) \<Rightarrow> obs_client
     \<Rightarrow> 'v omap client_outcome \<Rightarrow> local_interface_state option client_result" where
  "tryGetInterface V invoke c call =
     dc_query invoke c (rbind call (\<lambda>raw. if raw = [] then Inr None
        else rbind (decoding (fromVariantMapIface V raw)) (\<lambda>i. Inr (Some i))))"

definition tryGetRemoteCandidateMacs ::
  "(string list client_outcome \<Rightarrow> string list client_result) \<Rightarrow> obs_client \<Rightarrow> string list client_outcome
     \<Rightarrow> string list client_result" where
  "tryGetRemoteCandidateMacs invoke c call =
     dc_query invoke c (rbind call (\<lambda>raw. decoding (validateStringList raw)))"

definition tryGetCandidateByMac ::
  "'v variant_ops \<Rightarrow> (wire_candidate option client_outcome \<Rightarrow> wire_candidate option client_result) \<Rightarrow> obs_client
     \<Rightarrow> 'v omap client_outcome \<Rightarrow> wire_candidate option client_result" where
  "tryGetCandidateByMac V invoke c call =
     dc_query invoke c (rbind call (\<lambda>raw. if raw = [] then Inr None
        else rbind (decoding (fromVariantMapCandidate V raw)) (\<lambda>w. Inr (Some w))))"

definition dc_tryGetIssues ::
  "'v variant_ops \<Rightarrow> (observation_issues client_outcome \<Rightarrow> observation_issues client_result) \<Rightarrow> obs_client
     \<Rightarrow> 'v omap omap client_outcome \<Rightarrow> observation_issues client_result" where
  "dc_tryGetIssues V invoke c call = dc_query invoke c (rbind call (\<lambda>raw. decoding (obs_decodeIssues V raw)))"

definition dc_tryGetReady ::
  "(bool client_outcome \<Rightarrow> bool client_result) \<Rightarrow> obs_client \<Rightarrow> bool client_outcome \<Rightarrow> bool client_result" where
  "dc_tryGetReady invoke c call = dc_query invoke c call"

definition dc_tryGetPhase ::
  "(string client_outcome \<Rightarrow> string client_result) \<Rightarrow> obs_client \<Rightarrow> string client_outcome \<Rightarrow> string client_result" where
  "dc_tryGetPhase invoke c call = dc_query invoke c call"

text \<open>The variants that return a value on every error.\<close>

definition dc_getLocalSnapshot :: "local_interface_state umap client_result \<Rightarrow> local_interface_state umap" where
  "dc_getLocalSnapshot r = value_or [] r"

definition dc_getInterface :: "local_interface_state option client_result \<Rightarrow> local_interface_state option" where
  "dc_getInterface r = value_or None r"

definition dc_getRemoteCandidateMacs :: "string list client_result \<Rightarrow> string list" where
  "dc_getRemoteCandidateMacs r = value_or [] r"

definition dc_getCandidateByMac :: "wire_candidate option client_result \<Rightarrow> wire_candidate option" where
  "dc_getCandidateByMac r = value_or None r"

definition dc_getIssues :: "observation_issues client_result \<Rightarrow> observation_issues" where
  "dc_getIssues r = value_or [] r"

definition dc_getReady :: "bool client_result \<Rightarrow> bool" where
  "dc_getReady r = value_or False r"

definition dc_getPhase :: "string client_result \<Rightarrow> string" where
  "dc_getPhase r = value_or ''unknown'' r"

text \<open>
  The subscriptions \<open>onLocalStateChanged\<close>, \<open>onInterfaceChanged\<close>, \<open>onCandidateChanged\<close>,
  \<open>onInterfaceRemoved\<close>, \<open>onCandidateRemoved\<close> and \<open>onReadyChanged\<close> have one body, for the name of
  their signal: nothing without an interface proxy, and one signal proxy for all callbacks.
\<close>

definition client_subscribe :: "string \<Rightarrow> nat \<Rightarrow> obs_client \<Rightarrow> obs_client" where
  "client_subscribe signal cb c =
     (if \<not> oc_iface c then c
      else c\<lparr>oc_signals := (if signal \<in> set (oc_signals c) then oc_signals c else oc_signals c @ [signal]),
             oc_slots := oc_slots c @ [(signal, cb)]\<rparr>)"

end
