(* ===== verification/Inventory_Client.thy ===== *)
theory Inventory_Client
  imports Inventory_Service Inventory_Codec Query_Path
begin

text \<open>
  The query path of the inventory service: \<open>InventoryQueryHandler.cpp\<close> on the service side and
  \<open>InventoryClient.cpp\<close> on the client side, with the arguments of \<open>Query_Path\<close> for the code outside
  the repository. \<open>tryWaitReady\<close> polls until a deadline; whether it returns depends on the clock, so
  it is a partial function whose value is \<open>None\<close> if it never does.
\<close>

section \<open>The query handler\<close>

definition ih_getIdentity :: "'v variant_ops \<Rightarrow> bool \<Rightarrow> inv_service \<Rightarrow> 'v omap" where
  "ih_getIdentity V leased s = handler_invoke leased [] (encodeSnapshot V (inv_getIdentity s))"

definition ih_getField :: "'v variant_ops \<Rightarrow> bool \<Rightarrow> string \<Rightarrow> inv_service \<Rightarrow> 'v omap" where
  "ih_getField V leased fieldName s =
     handler_invoke leased [] (Inr (encodeFields V (inv_getField fieldName s)) :: unit + 'v omap)"

definition ih_getSourceStates :: "'v variant_ops \<Rightarrow> bool \<Rightarrow> inv_service \<Rightarrow> 'v omap omap" where
  "ih_getSourceStates V leased s =
     handler_invoke leased [] (Inr (encodeSourceStates V (inv_getSourceStates s)) :: unit + 'v omap omap)"

definition ih_getIssues :: "'v variant_ops \<Rightarrow> bool \<Rightarrow> inv_service \<Rightarrow> 'v omap omap" where
  "ih_getIssues V leased s =
     handler_invoke leased [] (Inr (inv_encodeIssues V (inv_getIssues s)) :: unit + 'v omap omap)"

definition ih_getReady :: "bool \<Rightarrow> bool \<Rightarrow> bool" where
  "ih_getReady leased ready = handler_invoke leased False (Inr ready :: unit + bool)"

definition ih_getPhase :: "bool \<Rightarrow> inv_service \<Rightarrow> string" where
  "ih_getPhase leased s = handler_invoke leased ''unknown'' (Inr (inv_getPhase s) :: unit + string)"

definition ih_getVersion :: "bool \<Rightarrow> inv_service \<Rightarrow> 64 word" where
  "ih_getVersion leased s = handler_invoke leased 0 (Inr (inv_getVersion s) :: unit + 64 word)"

definition ih_refresh :: "bool \<Rightarrow> inv_service \<Rightarrow> inv_service \<times> inv_event list" where
  "ih_refresh leased s = (if \<not> leased then (s, []) else inv_refresh s)"


section \<open>The client\<close>

record inv_client =
  ic_iface :: bool
  ic_signals :: "string list"
  ic_slots :: "(string \<times> nat) list"

datatype inv_client_error = NoObjectProxy | NoInterfaceProxy

text \<open>Whether the two proxies could be created; the constructor throws when one is null.\<close>

definition new_inv_client :: "bool \<Rightarrow> bool \<Rightarrow> inv_client_error + inv_client" where
  "new_inv_client proxy iface =
     (if \<not> proxy then Inl NoObjectProxy
      else if \<not> iface then Inl NoInterfaceProxy
      else Inr \<lparr>ic_iface = True, ic_signals = [], ic_slots = []\<rparr>)"

definition inv_interface_unavailable :: client_error where
  "inv_interface_unavailable = \<lparr>ce_code = ServiceUnavailable,
     ce_message = ''inventory client interface proxy is unavailable''\<rparr>"

definition ic_query :: "('a client_outcome \<Rightarrow> 'a client_result) \<Rightarrow> inv_client \<Rightarrow> 'a client_outcome \<Rightarrow> 'a client_result" where
  "ic_query invoke c body = (if \<not> ic_iface c then Inl inv_interface_unavailable else invoke body)"

definition tryGetIdentity ::
  "'v variant_ops \<Rightarrow> (inventory_snapshot client_outcome \<Rightarrow> inventory_snapshot client_result) \<Rightarrow> inv_client
     \<Rightarrow> 'v omap client_outcome \<Rightarrow> inventory_snapshot client_result" where
  "tryGetIdentity V invoke c call = ic_query invoke c (rbind call (\<lambda>raw. decoding (decodeSnapshot V raw)))"

definition tryGetField ::
  "'v variant_ops \<Rightarrow> (inventory_fields client_outcome \<Rightarrow> inventory_fields client_result) \<Rightarrow> inv_client
     \<Rightarrow> 'v omap client_outcome \<Rightarrow> inventory_fields client_result" where
  "tryGetField V invoke c call = ic_query invoke c (rbind call (\<lambda>raw. decoding (decodeFields V raw)))"

definition tryGetSourceStates ::
  "'v variant_ops \<Rightarrow> (source_state_map client_outcome \<Rightarrow> source_state_map client_result) \<Rightarrow> inv_client
     \<Rightarrow> 'v omap omap client_outcome \<Rightarrow> source_state_map client_result" where
  "tryGetSourceStates V invoke c call = ic_query invoke c (rbind call (\<lambda>raw. decoding (decodeSourceStates V raw)))"

definition ic_tryGetReady ::
  "(bool client_outcome \<Rightarrow> bool client_result) \<Rightarrow> inv_client \<Rightarrow> bool client_outcome \<Rightarrow> bool client_result" where
  "ic_tryGetReady invoke c call = ic_query invoke c call"

definition ic_tryGetPhase ::
  "(string client_outcome \<Rightarrow> string client_result) \<Rightarrow> inv_client \<Rightarrow> string client_outcome \<Rightarrow> string client_result" where
  "ic_tryGetPhase invoke c call = ic_query invoke c call"

definition tryGetVersion ::
  "(64 word client_outcome \<Rightarrow> 64 word client_result) \<Rightarrow> inv_client \<Rightarrow> 64 word client_outcome \<Rightarrow> 64 word client_result" where
  "tryGetVersion invoke c call = ic_query invoke c call"

definition ic_tryGetIssues ::
  "'v variant_ops \<Rightarrow> (inventory_issues client_outcome \<Rightarrow> inventory_issues client_result) \<Rightarrow> inv_client
     \<Rightarrow> 'v omap omap client_outcome \<Rightarrow> inventory_issues client_result" where
  "ic_tryGetIssues V invoke c call = ic_query invoke c (rbind call (\<lambda>raw. decoding (inv_decodeIssues V raw)))"

definition tryRefresh ::
  "(unit client_outcome \<Rightarrow> unit client_result) \<Rightarrow> inv_client \<Rightarrow> unit client_outcome \<Rightarrow> unit client_result" where
  "tryRefresh invoke c call = ic_query invoke c call"

definition ic_getIdentity :: "inventory_snapshot client_result \<Rightarrow> inventory_snapshot" where
  "ic_getIdentity r = value_or empty_inventory_snapshot r"

definition ic_getField :: "inventory_fields client_result \<Rightarrow> inventory_fields" where
  "ic_getField r = value_or [] r"

definition ic_getSourceStates :: "source_state_map client_result \<Rightarrow> source_state_map" where
  "ic_getSourceStates r = value_or [] r"

definition ic_getReady :: "bool client_result \<Rightarrow> bool" where
  "ic_getReady r = value_or False r"

definition ic_getPhase :: "string client_result \<Rightarrow> string" where
  "ic_getPhase r = value_or ''unknown'' r"

definition ic_getVersion :: "64 word client_result \<Rightarrow> 64 word" where
  "ic_getVersion r = value_or 0 r"

definition ic_getIssues :: "inventory_issues client_result \<Rightarrow> inventory_issues" where
  "ic_getIssues r = value_or [] r"

text \<open>\<open>onInventoryChanged\<close>, \<open>onSourceStateChanged\<close> and \<open>onReadyChanged\<close>, for the name of their signal.\<close>

definition inv_client_subscribe :: "string \<Rightarrow> nat \<Rightarrow> inv_client \<Rightarrow> inv_client" where
  "inv_client_subscribe signal cb c =
     (if \<not> ic_iface c then c
      else c\<lparr>ic_signals := (if signal \<in> set (ic_signals c) then ic_signals c else ic_signals c @ [signal]),
             ic_slots := ic_slots c @ [(signal, cb)]\<rparr>)"


section \<open>Waiting for readiness\<close>

text \<open>
  \<open>clock i\<close> is what the \<open>i\<close>-th test of the loop reads and \<open>ready i\<close> the answer of the \<open>i\<close>-th call of
  \<open>tryGetReady\<close>; the call after the loop is the one with the next index.
\<close>

definition wait_timeout_message :: "client_error option \<Rightarrow> string" where
  "wait_timeout_message lastError =
     ''inventory service did not become ready before timeout''
       @ (case lastError of Some e \<Rightarrow> '': '' @ ce_message e | None \<Rightarrow> [])"

partial_function (option) wait_ready_loop ::
  "(nat \<Rightarrow> int) \<Rightarrow> (nat \<Rightarrow> bool client_result) \<Rightarrow> int \<Rightarrow> nat \<Rightarrow> client_error option \<Rightarrow> (bool client_result \<times> nat) option" where
  "wait_ready_loop clock ready deadline i lastError =
     (if clock i < deadline then
        (if ready i = Inr True then Some (Inr True, i)
         else if isl (ready i) \<and> ce_code (projl (ready i)) \<noteq> ServiceUnavailable then Some (ready i, i)
         else wait_ready_loop clock ready deadline (Suc i) (if isl (ready i) then Some (projl (ready i)) else lastError))
      else if ready i = Inr True then Some (Inr True, i)
      else Some (Inl \<lparr>ce_code = ClientTimeout, ce_message = wait_timeout_message lastError\<rparr>, i))"

definition kPollInterval :: int where "kPollInterval = 200"

text \<open>The result with the number of the last call that was made.\<close>

definition tryWaitReady ::
  "int \<Rightarrow> (nat \<Rightarrow> int) \<Rightarrow> (nat \<Rightarrow> bool client_result) \<Rightarrow> int \<Rightarrow> (bool client_result \<times> nat) option" where
  "tryWaitReady start clock ready timeout = wait_ready_loop clock ready (start + ms timeout) 0 None"

definition waitReady :: "bool client_result \<Rightarrow> bool" where
  "waitReady r = value_or False r"

end
