(* ===== verification/Client_Properties.thy ===== *)
theory Client_Properties
  imports Inventory_Client Inventory_Service_Properties Engine_Properties Codec_Properties
begin

text \<open>
  What a client gets from the two query paths, end to end: from the state of the service through the
  handler, the codec and the client. An answer is the state of the service or an error or default,
  never something else; and waiting for readiness ends.
\<close>

section \<open>Observation queries\<close>

lemma handler_invoke_simps [simp]:
  "handler_invoke False d r = d" "handler_invoke True d (Inr v) = v" "handler_invoke True d (Inl e) = d"
  by (simp_all add: handler_invoke_def)

lemma dc_query_invoked [simp]: "oc_iface c \<Longrightarrow> invoke_ok invoke \<Longrightarrow> dc_query invoke c (Inr v) = Inr v"
  by (simp add: dc_query_def invoke_ok_def)

lemma dc_query_threw: "invoke_ok invoke \<Longrightarrow> \<exists>err. dc_query invoke c (Inl x) = Inl err"
  by (simp add: dc_query_def invoke_ok_def)

lemma validateStringSet_fits: "finite S \<Longrightarrow> validateStringSet S = Inr u \<longleftrightarrow> set_fits S"
  by (auto simp: validateStringSet_def set_fits_def all_ok_Inr split: if_splits)

lemma validateOptional_fits: "validateOptional v = Inr u \<longleftrightarrow> option_fits v"
  by (simp add: validateOptional_def option_fits_def split: option.split)

text \<open>The encoder accepts exactly the candidates within the limits.\<close>

lemma candidate_encodes_iff:
  assumes "finite (wc_neighborIfaces c)" "finite (wc_ipv4 c)" "finite (wc_ipv6 c)"
  shows "(\<exists>w. toVariantMap_candidate V c = Inr w) \<longleftrightarrow> candidate_fits c"
  using assms
  by (auto simp: toVariantMap_candidate_def candidate_fits_def validateStringSet_fits validateOptional_fits Let_def)

lemma candidate_wire_nonempty: "toVariantMap_candidate V c = Inr w \<Longrightarrow> w \<noteq> []"
proof -
  assume w: "toVariantMap_candidate V c = Inr w"
  then obtain m v where "w = oput K_IPV6 v m" by (auto simp: toVariantMap_candidate_def Let_def)
  then have "fst ` set w \<noteq> {}" by simp
  then show ?thesis by auto
qed

definition client_candidate ::
  "'v variant_ops \<Rightarrow> (wire_candidate option client_outcome \<Rightarrow> wire_candidate option client_result) \<Rightarrow> obs_client \<Rightarrow> bool
     \<Rightarrow> string \<Rightarrow> engine \<Rightarrow> wire_candidate option" where
  "client_candidate V invoke c leased mac e =
     dc_getCandidateByMac (tryGetCandidateByMac V invoke c (Inr (qh_getCandidateByMac V leased mac e)))"

definition client_macs ::
  "(string list client_outcome \<Rightarrow> string list client_result) \<Rightarrow> obs_client \<Rightarrow> bool \<Rightarrow> engine \<Rightarrow> string list" where
  "client_macs invoke c leased e =
     dc_getRemoteCandidateMacs (tryGetRemoteCandidateMacs invoke c (Inr (qh_getRemoteCandidateMacs leased e)))"

lemma client_candidate_none:
  assumes "invoke_ok invoke" "qh_getCandidateByMac V leased mac e = []"
  shows "client_candidate V invoke c leased mac e = None"
  using assms
  by (cases "oc_iface c")
     (simp_all add: client_candidate_def tryGetCandidateByMac_def dc_getCandidateByMac_def dc_query_def invoke_okD)

lemma client_candidate_found:
  assumes V: "variant_ok V" and i: "invoke_ok invoke" "oc_iface c"
    and f: "findCandidateByMac mac e = Some cand" "candidate_fits (toWireCandidate cand)"
  shows "client_candidate V invoke c True mac e = Some (toWireCandidate cand)"
proof -
  obtain w where w: "toVariantMap_candidate V (toWireCandidate cand) = Inr w"
    "fromVariantMapCandidate V w = Inr (toWireCandidate cand)"
    using candidate_round_trip[OF V f(2)] by blast
  then show ?thesis using i f(1) candidate_wire_nonempty[OF w(1)]
    by (simp add: client_candidate_def tryGetCandidateByMac_def dc_getCandidateByMac_def qh_getCandidateByMac_def)
qed

lemma reachable_candidate:
  assumes "engine_reachable C pton cfg e" "findCandidateByMac mac e = Some cand"
  shows "rc_mac cand = mac" "finite (rc_neighborIfaces cand)" "finite (rc_ipv4 cand)" "finite (rc_ipv6 cand)"
proof -
  have "map_of (en_candidates e) mac = Some cand"
    using assms(2) by (auto simp: findCandidateByMac_def split: option.splits if_splits)
  then have "cand_ok mac cand"
    using engine_reachable_ok[OF assms(1)] cands_okD(2) entry_okD by (fastforce simp: engine_ok_def)
  then show "rc_mac cand = mac" "finite (rc_neighborIfaces cand)" "finite (rc_ipv4 cand)" "finite (rc_ipv6 cand)"
    by (simp_all add: cand_ok_def)
qed

text \<open>
  (C31) A client's answer about a candidate is the model's: for every state of the model, the candidate
  a client receives is the model's candidate with the evidence and timestamps left out, under the
  MAC it asked for, or nothing; it is nothing only when the model publishes no such candidate, the
  query was not admitted, the client is not connected, or the candidate exceeds a limit of the wire.
\<close>

theorem client_candidate_exact:
  assumes "variant_ok V" "invoke_ok invoke" "engine_reachable C pton cfg e"
  shows "client_candidate V invoke c leased mac e =
    (case findCandidateByMac mac e of
       Some cand \<Rightarrow> if leased \<and> oc_iface c \<and> candidate_fits (toWireCandidate cand) then Some (toWireCandidate cand) else None
     | None \<Rightarrow> None) \<and>
    (\<forall>w. client_candidate V invoke c leased mac e = Some w \<longrightarrow> wc_mac w = mac)"
proof -
  have exact: "client_candidate V invoke c leased mac e =
    (case findCandidateByMac mac e of
       Some cand \<Rightarrow> if leased \<and> oc_iface c \<and> candidate_fits (toWireCandidate cand) then Some (toWireCandidate cand) else None
     | None \<Rightarrow> None)"
  proof (cases "findCandidateByMac mac e")
    case None
    then have "qh_getCandidateByMac V leased mac e = []" by (cases leased) (simp_all add: qh_getCandidateByMac_def)
    then show ?thesis using client_candidate_none[OF assms(2)] None by simp
  next
    case (Some cand)
    have fin: "finite (wc_neighborIfaces (toWireCandidate cand))" "finite (wc_ipv4 (toWireCandidate cand))"
      "finite (wc_ipv6 (toWireCandidate cand))"
      using reachable_candidate[OF assms(3) Some] by (simp_all add: toWireCandidate_def)
    consider "leased" "oc_iface c" "candidate_fits (toWireCandidate cand)" | "\<not> leased" | "\<not> oc_iface c"
      | "\<not> candidate_fits (toWireCandidate cand)" by blast
    then show ?thesis
    proof cases
      case 1
      then show ?thesis using client_candidate_found[OF assms(1,2) _ Some] Some by simp
    next
      case 2
      then have "qh_getCandidateByMac V leased mac e = []" by (simp add: qh_getCandidateByMac_def)
      then show ?thesis using client_candidate_none[OF assms(2)] Some 2 by simp
    next
      case 3
      then show ?thesis using Some
        by (simp add: client_candidate_def tryGetCandidateByMac_def dc_getCandidateByMac_def dc_query_def)
    next
      case 4
      then obtain err where "toVariantMap_candidate V (toWireCandidate cand) = Inl err"
        using candidate_encodes_iff[OF fin, of V] by (cases "toVariantMap_candidate V (toWireCandidate cand)") auto
      then have "qh_getCandidateByMac V leased mac e = []"
        using Some by (cases leased) (simp_all add: qh_getCandidateByMac_def)
      then show ?thesis using client_candidate_none[OF assms(2)] Some 4 by simp
    qed
  qed
  moreover have "wc_mac (toWireCandidate cand) = mac" if "findCandidateByMac mac e = Some cand" for cand
    using reachable_candidate(1)[OF assms(3) that] by (simp add: toWireCandidate_def)
  ultimately show ?thesis by (auto split: option.splits if_splits)
qed

definition sample_invoke :: "'a client_outcome \<Rightarrow> 'a client_result" where
  "sample_invoke r = (case r of Inr v \<Rightarrow> Inr v | Inl x \<Rightarrow> Inl \<lparr>ce_code = OtherCode 0, ce_message = []\<rparr>)"

lemma sample_invoke_ok: "invoke_ok sample_invoke"
  by (simp add: invoke_ok_def sample_invoke_def)

definition sample_obs_client :: obs_client where
  "sample_obs_client = (new_obs_client ''system'')\<lparr>oc_iface := True, oc_connected := True\<rparr>"

lemma sample_live_fits:
  "\<exists>c. findCandidateByMac ''02:00:00:00:00:09'' sample_live = Some c \<and> candidate_fits (toWireCandidate c)"
proof -
  have key: "resolveLldpIdentity (Some ''02:00:00:00:00:09'') None = ''02:00:00:00:00:09''"
    by code_simp
  have pol: "ip_allowLldpEvidence defaultInterfacePolicy ''eth0''" by code_simp
  show ?thesis
    by (simp add: sample_live_def engine_eval Let_def case_prod_beta sample_lldp_def key pol
        findCandidateByMac_def hasNoEvidence_def isPublishable_def isConfirmedWorthy_def
        rule_based_classify_def candidate_fits_def toWireCandidate_def option_fits_def set_fits_def ingress_limits)
qed

theorem client_candidate_exact_witness:
  "\<exists>w. client_candidate dvariant_ops sample_invoke sample_obs_client True ''02:00:00:00:00:09'' sample_live = Some w"
  using client_candidate_exact[OF dvariant_ok sample_invoke_ok sample_live_reachable,
      of sample_obs_client True "''02:00:00:00:00:09''"] sample_live_fits
  by (auto simp: sample_obs_client_def new_obs_client_def)


lemma client_macs_value:
  assumes "invoke_ok invoke" "oc_iface c" "\<forall>cand \<in> set (remoteCandidates e). string_fits (rc_mac cand)"
  shows "client_macs invoke c True e =
    (if length (remoteCandidates e) \<le> kMaxCandidates then map rc_mac (remoteCandidates e) else []) \<and>
    tryGetRemoteCandidateMacs invoke c (Inr (qh_getRemoteCandidateMacs True e)) = Inr (client_macs invoke c True e)"
proof -
  have "all_ok validateString (map rc_mac (remoteCandidates e)) = Inr ()"
    using assms(3) by (simp add: all_ok_Inr)
  then have q: "qh_getRemoteCandidateMacs True e =
      (if length (remoteCandidates e) \<le> kMaxCandidates then map rc_mac (remoteCandidates e) else [])"
    by (simp add: qh_getRemoteCandidateMacs_def encodeCandidateMacs_def)
  have "validateStringList (qh_getRemoteCandidateMacs True e) = Inr (qh_getRemoteCandidateMacs True e)"
    using assms(3) unfolding q by (auto simp: validateStringList_def list_ex_iff)
  then show ?thesis using q assms(1,2)
    by (simp add: client_macs_def dc_getRemoteCandidateMacs_def tryGetRemoteCandidateMacs_def)
qed

text \<open>
  The list of candidates a client sees is complete or empty: with MACs within the string limit it
  is the MACs of the published candidates in the model's order, unless there are more than the 1024
  the wire allows, and then the client sees none at all and no error.
\<close>

theorem client_macs_exact:
  assumes "invoke_ok invoke" "oc_iface c" "\<forall>cand \<in> set (remoteCandidates e). string_fits (rc_mac cand)"
  shows "client_macs invoke c True e =
    (if length (remoteCandidates e) \<le> kMaxCandidates then map rc_mac (remoteCandidates e) else []) \<and>
    tryGetRemoteCandidateMacs invoke c (Inr (qh_getRemoteCandidateMacs True e)) = Inr (client_macs invoke c True e)"
  using client_macs_value[OF assms] .

lemma sample_live_macs: "map rc_mac (remoteCandidates sample_live) = [''02:00:00:00:00:09'']"
proof -
  have key: "resolveLldpIdentity (Some ''02:00:00:00:00:09'') None = ''02:00:00:00:00:09''"
    by code_simp
  have pol: "ip_allowLldpEvidence defaultInterfacePolicy ''eth0''" by code_simp
  show ?thesis
    by (simp add: sample_live_def engine_eval Let_def case_prod_beta sample_lldp_def key pol
        remoteCandidates_def hasNoEvidence_def isPublishable_def isConfirmedWorthy_def rule_based_classify_def)
qed

theorem client_macs_exact_witness:
  "client_macs sample_invoke sample_obs_client True sample_live = [''02:00:00:00:00:09'']"
proof -
  have "\<forall>cand \<in> set (remoteCandidates sample_live). string_fits (rc_mac cand)"
    "length (remoteCandidates sample_live) = 1"
    using sample_live_macs by (auto simp: kMaxStringLength_def dest: arg_cong[where f = length])
  with client_macs_exact[OF sample_invoke_ok, of sample_obs_client sample_live] sample_live_macs show ?thesis
    by (simp add: sample_obs_client_def new_obs_client_def kMaxCandidates_def)
qed

text \<open>A connected client that reconnects has no subscriptions left.\<close>

lemma reconnect_drops_subscriptions:
  "oc_slots (fst (tryConnect invoke create c)) = [] \<and> oc_signals (fst (tryConnect invoke create c)) = []"
  by (simp add: tryConnect_def client_reset_def Let_def split: sum.split)

lemma connected_iff_iface:
  "oc_connected (fst (tryConnect invoke create c)) = oc_iface (fst (tryConnect invoke create c))"
  by (simp add: tryConnect_def client_reset_def Let_def split: sum.split)


section \<open>Inventory queries\<close>

lemma ic_query_invoked [simp]: "ic_iface c \<Longrightarrow> invoke_ok invoke \<Longrightarrow> ic_query invoke c (Inr v) = Inr v"
  by (simp add: ic_query_def invoke_ok_def)

interpretation identity_path: wire_codec "encodeSnapshot V" "decodeSnapshot V" "\<lambda>s. variant_ok V \<and> snapshot_fits s" for V
  by unfold_locales

interpretation field_path: wire_codec "\<lambda>fs. Inr (encodeFields V fs)" "decodeFields V"
  "\<lambda>fs. variant_ok V \<and> fields_fit kMaxFields fs" for V
  by unfold_locales

interpretation states_path: wire_codec "\<lambda>s. Inr (encodeSourceStates V s)" "decodeSourceStates V"
  "\<lambda>s. variant_ok V \<and> states_fit s" for V
  by unfold_locales

interpretation issues_path: wire_codec "\<lambda>i. Inr (inv_encodeIssues V i)" "inv_decodeIssues V"
  "\<lambda>i. variant_ok V \<and> issues_fit i" for V
  by unfold_locales


definition sample_inv_client :: inv_client where
  "sample_inv_client = \<lparr>ic_iface = True, ic_signals = [], ic_slots = []\<rparr>"


lemma decode_snapshot_fields_refuses:
  assumes "(f, x) \<in> set m" "\<not> is_metadata_field f" "decodeFieldValue V x = Inl err"
  shows "\<exists>e. decode_snapshot_fields V m out = Inl e"
  using assms
proof (induction V m out rule: decode_snapshot_fields.induct)
  case (2 V key v m out)
  show ?case
  proof (cases "validateKey key")
    case (Inr u)
    then show ?thesis using 2 by (cases "decodeFieldValue V v") (auto simp: is_metadata_field_def)
  qed simp
qed simp

text \<open>
  (C34) One long value hides the whole inventory: the encoder puts no bound on a field's string, so a
  source value longer than the 4096 characters the decoder accepts, which a file of up to 64 KiB can
  hold, makes every client reject the complete snapshot and see an empty one.
\<close>

theorem long_value_hides_identity:
  assumes "variant_ok V" "invoke_ok invoke" "manager_reachable (iv_manager s)"
    "map_of (is_fields (inv_getIdentity s)) f = Some (FString v)" "kMaxStringLength < length v"
  shows "(\<exists>err. tryGetIdentity V invoke c (Inr (ih_getIdentity V leased s)) = Inl err) \<and>
    ic_getIdentity (tryGetIdentity V invoke c (Inr (ih_getIdentity V leased s))) = empty_inventory_snapshot"
proof -
  have ok: "manager_ok (iv_manager s)" by (rule manager_reachable_ok[OF assms(3)])
  have f: "map_of (inv_fields s) f = Some (FString v)"
    using assms(4) by (simp add: inv_getIdentity_def getSnapshot_def)
  have nm: "\<not> is_metadata_field f" using manager_ok_no_metadata[OF ok, of f] f by auto
  have "\<exists>e. decodeSnapshot V w = Inl e" if w: "encodeSnapshot V (inv_getIdentity s) = Inr w" for w
  proof -
    let ?e = "encodeFields V (inv_fields s)"
    have o: "omap_ok (inv_fields s)" using ok by (simp add: manager_ok_def snapshot_ok_def)
    have e: "map_of ?e f = Some (vo_of_string V v)" "omap_ok ?e"
      unfolding encodeFields_map[OF o]
      using f o map_of_map_value[of "\<lambda>_. encodeFieldValue V" "inv_fields s" f]
      by (simp_all add: case_prod_unfold o_def)
    have "map_of w f = map_of ?e f"
      using w nm e(2) by (auto simp: encodeSnapshot_def inv_getIdentity_def getSnapshot_def map_of_oput omap_ok_oput
          is_metadata_field_def)
    then have "(f, vo_of_string V v) \<in> set w" using e(1) map_of_SomeD by fastforce
    moreover have "decodeFieldValue V (vo_of_string V v) = Inl LimitExceeded"
      using assms(5) by (simp add: decodeFieldValue_def variant_okD[OF assms(1)] validateString_def)
    ultimately obtain x where "decode_snapshot_fields V w [] = Inl x"
      using decode_snapshot_fields_refuses[OF _ nm, of _ w V _ "[]"] by metis
    then show ?thesis by (cases "decodeSnapshot V w") (auto simp: decodeSnapshot_def)
  qed
  moreover have "\<exists>e. decodeSnapshot V ([] :: 'a omap) = Inl e"
    by (simp add: decodeSnapshot_def validateFieldMapSize_def requireField_def)
  ultimately have "\<exists>e. decodeSnapshot V (ih_getIdentity V leased s) = Inl e"
    by (cases leased; cases "encodeSnapshot V (inv_getIdentity s)") (simp_all add: ih_getIdentity_def)
  then show ?thesis using assms(2)
    by (auto simp: tryGetIdentity_def ic_query_def invoke_ok_def ic_getIdentity_def)
       (metis value_or_simps(2))
qed


definition long_answer :: "string \<Rightarrow> source_answer" where
  "long_answer n = (empty_source_state, Inr [(''uuid'', FString (replicate 5000 CHR ''7''))])"

definition long_service :: inv_service where
  "long_service = sample_inv_service\<lparr>iv_manager := fst (refreshAll long_answer 7 (\<lambda>_. 8) 9 sample_manager)\<rparr>"

theorem long_value_hides_identity_witness:
  "ic_getIdentity (tryGetIdentity dvariant_ops sample_invoke sample_inv_client
     (Inr (ih_getIdentity dvariant_ops True long_service))) = empty_inventory_snapshot"
proof -
  have a: "answers_ok long_answer" by (simp add: answers_ok_def long_answer_def)
  have r: "manager_reachable (iv_manager long_service)"
    using manager_reachable.refresh[OF sample_manager_reachable a subset_refl, of 9 7 "\<lambda>_. 8"]
    by (simp add: long_service_def refreshAll_def)
  have "map_of (is_fields (inv_getIdentity long_service)) ''uuid'' = Some (FString (replicate 5000 CHR ''7''))"
    using refresh_exact_fields[OF sample_manager_reachable a prod.collapse[symmetric], of sample_source "''uuid''" 7 "\<lambda>_. 8" 9]
    by (simp add: long_service_def inv_getIdentity_def getSnapshot_def sample_manager_def sample_source_def long_answer_def
        is_metadata_field_def metadata_names)
  from long_value_hides_identity[OF dvariant_ok sample_invoke_ok r this] show ?thesis by (simp add: kMaxStringLength_def)
qed


section \<open>Waiting for readiness\<close>

lemma clock_grows:
  fixes clock :: "nat \<Rightarrow> int"
  assumes "\<forall>i. clock i + ms kPollInterval \<le> clock (Suc i)"
  shows "clock i + ms (kPollInterval * int n) \<le> clock (i + n)"
proof (induction n)
  case (Suc n)
  then show ?case using assms[rule_format, of "i + n"] by (simp add: kPollInterval_def)
qed simp

text \<open>What the loop returns from its \<open>i\<close>-th test on.\<close>

definition waited :: "(nat \<Rightarrow> int) \<Rightarrow> (nat \<Rightarrow> bool client_result) \<Rightarrow> int \<Rightarrow> nat \<Rightarrow> bool client_result \<Rightarrow> nat \<Rightarrow> bool" where
  "waited clock ready deadline i r n \<longleftrightarrow>
     i \<le> n \<and>
     (\<forall>j. i \<le> j \<and> j < n \<longrightarrow> clock j < deadline \<and> ready j \<noteq> Inr True \<and>
        (\<forall>err. ready j = Inl err \<longrightarrow> ce_code err = ServiceUnavailable)) \<and>
     (if ready n = Inr True then r = Inr True
      else if clock n < deadline then (\<exists>err. ready n = Inl err \<and> ce_code err \<noteq> ServiceUnavailable \<and> r = Inl err)
      else (\<exists>msg. r = Inl \<lparr>ce_code = ClientTimeout, ce_message = msg\<rparr>))"

lemma waited_step:
  assumes "waited clock ready deadline (Suc i) r n" "clock i < deadline" "ready i \<noteq> Inr True"
    "\<forall>err. ready i = Inl err \<longrightarrow> ce_code err = ServiceUnavailable"
  shows "waited clock ready deadline i r n"
proof -
  have "clock j < deadline \<and> ready j \<noteq> Inr True \<and> (\<forall>err. ready j = Inl err \<longrightarrow> ce_code err = ServiceUnavailable)"
    if "i \<le> j" "j < n" for j
  proof (cases "j = i")
    case False
    then have "Suc i \<le> j" using that by simp
    then show ?thesis using assms(1) that(2) unfolding waited_def by blast
  qed (use assms(2-4) in simp)
  moreover have "i \<le> n" using assms(1) by (simp add: waited_def)
  ultimately show ?thesis using assms(1) unfolding waited_def by blast
qed

lemma wait_ready_loop_returns:
  assumes clk: "\<forall>i. clock i + ms kPollInterval \<le> clock (Suc i)"
  shows "\<exists>r n. wait_ready_loop clock ready deadline i lastError = Some (r, n) \<and> waited clock ready deadline i r n"
proof (induction "nat (deadline - clock i)" arbitrary: i lastError rule: less_induct)
  case less
  show ?case
  proof (cases "clock i < deadline \<and> ready i \<noteq> Inr True \<and> \<not> (isl (ready i) \<and> ce_code (projl (ready i)) \<noteq> ServiceUnavailable)")
    case True
    then have step: "wait_ready_loop clock ready deadline i lastError
        = wait_ready_loop clock ready deadline (Suc i) (if isl (ready i) then Some (projl (ready i)) else lastError)"
      by (subst wait_ready_loop.simps) auto
    have "clock i < clock (Suc i)" using clk[rule_format, of i] by (simp add: kPollInterval_def)
    then have "nat (deadline - clock (Suc i)) < nat (deadline - clock i)" using True by simp
    from less[OF this] obtain r n where
      "wait_ready_loop clock ready deadline (Suc i) (if isl (ready i) then Some (projl (ready i)) else lastError) = Some (r, n)"
      "waited clock ready deadline (Suc i) r n" by blast
    moreover from this(2) have "waited clock ready deadline i r n"
      by (rule waited_step) (use True in \<open>auto simp: isl_def\<close>)
    ultimately show ?thesis using step by metis
  next
    case False
    have e: "wait_ready_loop clock ready deadline i lastError =
        (if ready i = Inr True then Some (Inr True, i)
         else if clock i < deadline then Some (ready i, i)
         else Some (Inl \<lparr>ce_code = ClientTimeout, ce_message = wait_timeout_message lastError\<rparr>, i))"
      using False wait_ready_loop.simps[of clock ready deadline i lastError] by auto
    show ?thesis using False unfolding e by (cases "ready i") (auto simp: waited_def)
  qed
qed

text \<open>
  (C33) Waiting for readiness ends: when \<open>sleep_for\<close> sleeps at least its 200 ms between two readings of
  the clock, \<open>tryWaitReady\<close> returns whatever the service answers, after at most one call per 200 ms
  of the timeout and one more; it returns \<open>true\<close> exactly when its last answer was ready, an error
  other than \<open>service_unavailable\<close> at once, a timeout otherwise, and never \<open>false\<close>.
\<close>

theorem wait_ready_returns:
  assumes "\<forall>i. clock i + ms kPollInterval \<le> clock (Suc i)" "start \<le> clock 0"
  shows "\<exists>r n. tryWaitReady start clock ready timeout = Some (r, n) \<and>
    (n = 0 \<or> kPollInterval * (int n - 1) < timeout) \<and>
    (waitReady r \<longleftrightarrow> ready n = Inr True) \<and> r \<noteq> Inr False \<and>
    (\<forall>j < n. ready j \<noteq> Inr True \<and> (\<forall>err. ready j = Inl err \<longrightarrow> ce_code err = ServiceUnavailable)) \<and>
    (\<forall>err. r = Inl err \<longrightarrow> ready n = Inl err \<and> ce_code err \<noteq> ServiceUnavailable \<or>
       ce_code err = ClientTimeout \<and> start + ms timeout \<le> clock n)"
proof -
  obtain r n where r: "wait_ready_loop clock ready (start + ms timeout) 0 None = Some (r, n)"
    and w: "waited clock ready (start + ms timeout) 0 r n"
    using wait_ready_loop_returns[OF assms(1)] by blast
  have "kPollInterval * (int n - 1) < timeout" if "n \<noteq> 0"
  proof -
    obtain m where n: "n = Suc m" using \<open>n \<noteq> 0\<close> by (cases n) auto
    have "clock m < start + ms timeout" using w n by (simp add: waited_def)
    moreover have "clock 0 + ms (kPollInterval * int m) \<le> clock m" using clock_grows[OF assms(1), of 0 m] by simp
    ultimately show ?thesis using assms(2) n by simp
  qed
  moreover have "(waitReady r \<longleftrightarrow> ready n = Inr True) \<and> r \<noteq> Inr False"
    using w by (auto simp: waited_def waitReady_def split: if_splits)
  moreover have "\<forall>j < n. ready j \<noteq> Inr True \<and> (\<forall>err. ready j = Inl err \<longrightarrow> ce_code err = ServiceUnavailable)"
    using w by (simp add: waited_def)
  moreover have "\<forall>err. r = Inl err \<longrightarrow> ready n = Inl err \<and> ce_code err \<noteq> ServiceUnavailable \<or>
       ce_code err = ClientTimeout \<and> start + ms timeout \<le> clock n"
    using w by (auto simp: waited_def split: if_splits)
  ultimately show ?thesis unfolding tryWaitReady_def r by (intro exI[of _ r] exI[of _ n]) blast
qed

theorem wait_ready_returns_witness:
  "\<exists>r n. tryWaitReady 0 (\<lambda>i. ms (200 * int i)) (\<lambda>i. Inr (i = 2)) 500 = Some (r, n) \<and> waitReady r = (n = 2)"
proof -
  have "\<forall>i. ms (200 * int i) + ms kPollInterval \<le> ms (200 * int (Suc i))" by (simp add: kPollInterval_def)
  from wait_ready_returns[OF this, of 0 "\<lambda>i. Inr (i = 2)" 500] show ?thesis by fastforce
qed

end
