(* ===== verification/Transports.thy ===== *)
theory Transports
  imports Inventory_Client
begin

text \<open>
  The transports: \<open>StdoutTransport\<close>, \<open>DbusTransport\<close> with \<open>NetworkObservationDbusAdapter\<close> and their
  factory for the observation service, and the same for the inventory service.

  \<open>DbusTransportBase\<close>, \<open>ServiceBinding\<close> and dbus-cxx are outside the repository: whether the base is
  running, whether a signal object was created and whether \<open>emit\<close> throws are arguments or state. What
  a transport does is the list of lines it prints or of signals it emits.
\<close>

section \<open>Observation transports\<close>

datatype transport_kind = DbusKind | StdoutKind

datatype obs_transport = DbusTransport string | StdoutTransport

definition createTransport_kind :: "transport_kind \<Rightarrow> string \<Rightarrow> obs_transport" where
  "createTransport_kind kind config =
     (case kind of
        DbusKind \<Rightarrow> DbusTransport (if config = [] then ''system'' else config)
      | StdoutKind \<Rightarrow> StdoutTransport)"

definition createTransport :: "string \<Rightarrow> string \<Rightarrow> obs_transport option" where
  "createTransport name config =
     (if name = ''dbus'' then Some (createTransport_kind DbusKind config)
      else if name = ''stdout'' then Some (createTransport_kind StdoutKind config)
      else None)"

definition transport_name :: "obs_transport \<Rightarrow> string" where
  "transport_name t = (case t of DbusTransport bus \<Rightarrow> ''dbus'' | StdoutTransport \<Rightarrow> ''stdout'')"

text \<open>The calls of the publication worker and of \<open>setReady\<close>.\<close>

datatype obs_publish = PublishModel transport_call | PublishReadyChanged bool

definition bool_text :: "bool \<Rightarrow> string" where
  "bool_text b = (if b then ''true'' else ''false'')"

definition stdout_line :: "obs_publish \<Rightarrow> string" where
  "stdout_line p =
     (case p of
        PublishModel PublishLocalStateChanged \<Rightarrow> ''[transport] LocalStateChanged''
      | PublishModel (PublishInterfaceChanged ifname) \<Rightarrow> ''[transport] InterfaceChanged: '' @ ifname
      | PublishModel (PublishInterfaceRemoved ifname) \<Rightarrow> ''[transport] InterfaceRemoved: '' @ ifname
      | PublishModel (PublishCandidateChanged mac) \<Rightarrow> ''[transport] CandidateChanged: '' @ mac
      | PublishModel (PublishCandidateRemoved mac) \<Rightarrow> ''[transport] CandidateRemoved: '' @ mac
      | PublishReadyChanged ready \<Rightarrow> ''[transport] ReadyChanged: ready='' @ bool_text ready)"

definition stdout_publish :: "bool \<Rightarrow> obs_publish \<Rightarrow> string list" where
  "stdout_publish running p = (if \<not> running then [] else [stdout_line p])"

definition obs_signal_name :: "obs_publish \<Rightarrow> string" where
  "obs_signal_name p =
     (case p of
        PublishModel PublishLocalStateChanged \<Rightarrow> ''LocalStateChanged''
      | PublishModel (PublishInterfaceChanged ifname) \<Rightarrow> ''InterfaceChanged''
      | PublishModel (PublishInterfaceRemoved ifname) \<Rightarrow> ''InterfaceRemoved''
      | PublishModel (PublishCandidateChanged mac) \<Rightarrow> ''CandidateChanged''
      | PublishModel (PublishCandidateRemoved mac) \<Rightarrow> ''CandidateRemoved''
      | PublishReadyChanged ready \<Rightarrow> ''ReadyChanged'')"

text \<open>The adapter: the signal objects it holds and the query service it is bound to.\<close>

record dbus_adapter =
  da_signals :: "string list"
  da_methods :: "string list"
  da_bound :: bool

definition new_dbus_adapter :: dbus_adapter where
  "new_dbus_adapter = \<lparr>da_signals = [], da_methods = [], da_bound = False\<rparr>"

definition obs_createSignals :: "dbus_adapter \<Rightarrow> dbus_adapter" where
  "obs_createSignals a = a\<lparr>da_signals := [''LocalStateChanged'', ''InterfaceChanged'', ''InterfaceRemoved'',
     ''CandidateChanged'', ''CandidateRemoved'', ''ReadyChanged'']\<rparr>"

definition obs_bindMethods :: "dbus_adapter \<Rightarrow> dbus_adapter" where
  "obs_bindMethods a = a\<lparr>da_methods := [''GetLocalSnapshot'', ''GetInterface'', ''GetRemoteCandidateMacs'',
     ''GetCandidateByMac'', ''GetIssues'', ''GetReady'', ''GetPhase'']\<rparr>"

datatype adapter_error = ObjectIsNull

definition obs_bind :: "bool \<Rightarrow> dbus_adapter \<Rightarrow> adapter_error + dbus_adapter" where
  "obs_bind object a = (if \<not> object then Inl ObjectIsNull else Inr (obs_bindMethods (obs_createSignals a)))"

definition setService :: "bool \<Rightarrow> dbus_adapter \<Rightarrow> dbus_adapter" where
  "setService service a = a\<lparr>da_bound := service\<rparr>"

definition quiesceQueries :: "dbus_adapter \<Rightarrow> dbus_adapter" where
  "quiesceQueries a = a\<lparr>da_bound := False\<rparr>"

definition onTransportStopping :: "dbus_adapter \<Rightarrow> dbus_adapter" where
  "onTransportStopping a = quiesceQueries a"

text \<open>A signal that is emitted: its name with the publication that carries the argument.\<close>

definition adapter_publish :: "obs_publish \<Rightarrow> dbus_adapter \<Rightarrow> (string \<times> obs_publish) list" where
  "adapter_publish p a = (if obs_signal_name p \<notin> set (da_signals a) then [] else [(obs_signal_name p, p)])"

definition dbus_publish :: "bool \<Rightarrow> obs_publish \<Rightarrow> dbus_adapter \<Rightarrow> (string \<times> obs_publish) list" where
  "dbus_publish running p a = (if \<not> running then [] else adapter_publish p a)"

text \<open>\<open>start\<close>: what the base does, with the adapter it leaves, or an exception.\<close>

definition dbus_start :: "(dbus_adapter \<Rightarrow> string + dbus_adapter) \<Rightarrow> dbus_adapter \<Rightarrow> dbus_adapter \<times> bool" where
  "dbus_start baseStart a =
     (case baseStart a of Inr a' \<Rightarrow> (a', True) | Inl what \<Rightarrow> (setService False a, False))"


section \<open>Inventory transports\<close>

datatype inv_publish = InvInventoryChanged string | InvSourceStateChanged string | InvReadyChanged bool

fun nat_text :: "nat \<Rightarrow> string" where
  "nat_text n = (if n < 10 then [char_of (n + 48)] else nat_text (n div 10) @ [char_of (n mod 10 + 48)])"

definition int_text :: "int \<Rightarrow> string" where
  "int_text i = (if i < 0 then ''-'' @ nat_text (nat (- i)) else nat_text (nat i))"

fun fieldValueToString :: "field_value \<Rightarrow> string" where
  "fieldValueToString (FBool b) = bool_text b"
| "fieldValueToString (FString s) = s"
| "fieldValueToString (FInt w) = int_text (sint w)"
| "fieldValueToString (FUInt w) = nat_text (unat w)"

record stdout_inv =
  so_running :: bool
  so_query :: bool

definition stdout_inv_bind :: "stdout_inv \<Rightarrow> stdout_inv" where
  "stdout_inv_bind t = t\<lparr>so_query := True\<rparr>"

definition stdout_inv_start :: "stdout_inv \<Rightarrow> stdout_inv \<times> string list" where
  "stdout_inv_start t = (t\<lparr>so_running := True\<rparr>, [''[transport] StdoutInventoryTransport started''])"

definition stdout_inv_stop :: "stdout_inv \<Rightarrow> stdout_inv \<times> string list" where
  "stdout_inv_stop t =
     (t\<lparr>so_running := False, so_query := False\<rparr>, [''[transport] StdoutInventoryTransport stopped''])"

definition printField :: "inv_service \<Rightarrow> string \<Rightarrow> stdout_inv \<Rightarrow> string" where
  "printField s fieldPath t =
     (if \<not> so_query t then []
      else (case inv_getField fieldPath s of
              [] \<Rightarrow> '' = <absent>''
            | (k, v) # rest \<Rightarrow> '' = '' @ fieldValueToString v))"

definition stdout_inv_publish :: "inv_service \<Rightarrow> inv_publish \<Rightarrow> stdout_inv \<Rightarrow> string list" where
  "stdout_inv_publish s p t =
     (if \<not> so_running t then []
      else [case p of
              InvInventoryChanged f \<Rightarrow> ''[event] InventoryChanged: '' @ f @ printField s f t
            | InvSourceStateChanged n \<Rightarrow> ''[event] SourceStateChanged: '' @ n
            | InvReadyChanged b \<Rightarrow> ''[event] ReadyChanged: '' @ bool_text b])"

definition inv_createSignals :: "dbus_adapter \<Rightarrow> dbus_adapter" where
  "inv_createSignals a = a\<lparr>da_signals := [''InventoryChanged'', ''SourceStateChanged'', ''ReadyChanged'']\<rparr>"

definition inv_bindMethods :: "dbus_adapter \<Rightarrow> dbus_adapter" where
  "inv_bindMethods a = a\<lparr>da_methods := [''GetIdentity'', ''GetField'', ''GetSourceStates'', ''GetReady'', ''GetPhase'',
     ''GetVersion'', ''Refresh'', ''GetIssues'']\<rparr>"

definition inv_bind :: "bool \<Rightarrow> dbus_adapter \<Rightarrow> adapter_error + dbus_adapter" where
  "inv_bind object a = (if \<not> object then Inl ObjectIsNull else Inr (inv_bindMethods (inv_createSignals a)))"

definition inv_signal_name :: "inv_publish \<Rightarrow> string" where
  "inv_signal_name p =
     (case p of InvInventoryChanged f \<Rightarrow> ''InventoryChanged'' | InvSourceStateChanged n \<Rightarrow> ''SourceStateChanged''
      | InvReadyChanged b \<Rightarrow> ''ReadyChanged'')"

text \<open>The inventory adapter catches what \<open>emit\<close> throws.\<close>

definition inv_adapter_publish :: "bool \<Rightarrow> inv_publish \<Rightarrow> dbus_adapter \<Rightarrow> (string \<times> inv_publish) list" where
  "inv_adapter_publish emitThrows p a =
     (if inv_signal_name p \<notin> set (da_signals a) then []
      else if emitThrows then [] else [(inv_signal_name p, p)])"

definition inv_dbus_publish :: "bool \<Rightarrow> bool \<Rightarrow> inv_publish \<Rightarrow> dbus_adapter \<Rightarrow> (string \<times> inv_publish) list" where
  "inv_dbus_publish running emitThrows p a = (if \<not> running then [] else inv_adapter_publish emitThrows p a)"

datatype inv_transport = InvDbus string string string | InvStdout

text \<open>\<open>stdoutEnabled\<close> is the build option \<open>INVENTORY_ENABLE_STDOUT_TRANSPORT\<close>.\<close>

definition inv_createTransport ::
  "bool \<Rightarrow> string \<Rightarrow> bool \<Rightarrow> string \<Rightarrow> string \<Rightarrow> string \<Rightarrow> inv_transport option" where
  "inv_createTransport stdoutEnabled name connection serviceName objectPath interfaceName =
     (if stdoutEnabled \<and> name = ''stdout'' then Some InvStdout
      else if name = ''dbus'' then
        (if \<not> connection then None
         else Some (InvDbus (if serviceName = [] then ''org.rsc.Inventory'' else serviceName)
                            (if objectPath = [] then ''/org/rsc/Inventory'' else objectPath)
                            (if interfaceName = [] then ''org.rsc.Inventory'' else interfaceName)))
      else None)"

end
