(* ===== verification/Daemons.thy ===== *)
theory Daemons
  imports Transports Inventory_Source
begin

text \<open>
  The programs: the configuration \<open>inventory-agentd\<close> and \<open>network-observationd\<close> build, the queries of
  the command line client \<open>net-observe\<close>, and the event loop of \<open>inventory-watch\<close>. Flag parsing,
  logging, \<open>DaemonRunner\<close> and the JSON writer are outside the repository.
\<close>

section \<open>inventory-agentd\<close>

record agentd_flags =
  fl_transport :: string
  fl_transport_config :: string
  fl_reconcile_ms :: int
  fl_min_refresh_ms :: int
  fl_device_meta_path :: string
  fl_node_name_path :: string
  fl_firmware_path :: string
  fl_uuid_path :: string
  fl_software_path :: string

definition default_agentd_flags :: agentd_flags where
  "default_agentd_flags = \<lparr>fl_transport = ''dbus'', fl_transport_config = ''system'', fl_reconcile_ms = 60000,
     fl_min_refresh_ms = 1000, fl_device_meta_path = ''/data/info/device-meta.json'',
     fl_node_name_path = ''/data/info/node-name'', fl_firmware_path = ''/etc/rmc/firmware'',
     fl_uuid_path = ''/etc/rmc/uuid'', fl_software_path = ''/etc/rmc/software''\<rparr>"

definition FIELD_UUID :: string where "FIELD_UUID = ''uuid''"
definition FIELD_NODE_NAME :: string where "FIELD_NODE_NAME = ''nodeName''"
definition FIELD_FIRMWARE_VERSION :: string where "FIELD_FIRMWARE_VERSION = ''firmwareVersion''"
definition FIELD_SOFTWARE_VERSION :: string where "FIELD_SOFTWARE_VERSION = ''softwareVersion''"

datatype agentd_error = BadSource source_error | ServiceRefused inv_service_error | UnknownTransport string

text \<open>A file source as the service registers it: its manager's view and its watch path.\<close>

definition registered :: "file_source \<Rightarrow> inventory_source \<times> string option" where
  "registered f = (\<lparr>src_name = fs_name f, src_required = fs_required f, src_owned = fs_ownedFields f\<rparr>, Some (fs_filePath f))"

definition agentd_add :: "source_error + file_source \<Rightarrow> inv_service \<Rightarrow> agentd_error + inv_service" where
  "agentd_add f s =
     (case f of
        Inl e \<Rightarrow> Inl (BadSource e)
      | Inr src \<Rightarrow> (case inv_addSource False (Some (registered src)) s of Inl e \<Rightarrow> Inl (ServiceRefused e) | Inr s' \<Rightarrow> Inr s'))"

definition agentd_sources :: "agentd_flags \<Rightarrow> (source_error + file_source) list" where
  "agentd_sources fl =
     [new_scalar_source ''node-name-file'' False (fl_node_name_path fl) FIELD_NODE_NAME,
      new_device_meta_source (fl_device_meta_path fl) False,
      new_scalar_source ''firmware-file'' True (fl_firmware_path fl) FIELD_FIRMWARE_VERSION,
      new_scalar_source ''uuid-file'' True (fl_uuid_path fl) FIELD_UUID,
      new_scalar_source ''software-file'' False (fl_software_path fl) FIELD_SOFTWARE_VERSION]"

fun agentd_add_all :: "(source_error + file_source) list \<Rightarrow> inv_service \<Rightarrow> agentd_error + inv_service" where
  "agentd_add_all [] s = Inr s"
| "agentd_add_all (f # fs) s = rbind (agentd_add f s) (agentd_add_all fs)"

text \<open>
  \<open>main\<close> up to \<open>DaemonRunner::run\<close>: the configured service, or the exit code 1. \<open>connection\<close> says
  whether the bus connection could be made.
\<close>

definition agentd_main :: "bool \<Rightarrow> bool \<Rightarrow> agentd_flags \<Rightarrow> agentd_error + inv_service" where
  "agentd_main stdoutEnabled connection fl =
     (case new_inv_service (Some new_manager)
             \<lparr>st_reconcileInterval = fl_reconcile_ms fl, st_minRefreshInterval = fl_min_refresh_ms fl\<rparr> True of
        Inl e \<Rightarrow> Inl (ServiceRefused e)
      | Inr s0 \<Rightarrow>
          rbind (agentd_add_all (agentd_sources fl) s0) (\<lambda>s1.
            (let conn = (if fl_transport fl = ''dbus'' then connection else False)
             in case inv_createTransport stdoutEnabled (fl_transport fl) conn [] [] [] of
                  None \<Rightarrow> Inl (UnknownTransport (fl_transport fl))
                | Some t \<Rightarrow>
                    (case inv_addTransport False (Some (case t of InvDbus a b c \<Rightarrow> ''dbus'' | InvStdout \<Rightarrow> ''stdout'')) s1 of
                       Inl e \<Rightarrow> Inl (ServiceRefused e) | Inr s2 \<Rightarrow> Inr s2))))"


section \<open>network-observationd\<close>

definition observationd_main :: "string \<Rightarrow> string \<Rightarrow> string + string list" where
  "observationd_main transportName transportConfig =
     (case createTransport transportName transportConfig of
        None \<Rightarrow> Inl transportName
      | Some t \<Rightarrow> (case new_observation_service True (Some (transport_name t)) of
                     Inl e \<Rightarrow> Inl transportName | Inr ts \<Rightarrow> Inr ts))"


section \<open>net-observe\<close>

text \<open>The candidates of the two-phase fetch: the MACs, then one lookup each.\<close>

fun fetch_candidates :: "(string \<Rightarrow> wire_candidate option) \<Rightarrow> string list \<Rightarrow> wire_candidate list" where
  "fetch_candidates byMac [] = []"
| "fetch_candidates byMac (mac # macs) =
     (case byMac mac of Some c \<Rightarrow> c # fetch_candidates byMac macs | None \<Rightarrow> fetch_candidates byMac macs)"

definition fetchAllCandidates :: "string list \<Rightarrow> (string \<Rightarrow> wire_candidate option) \<Rightarrow> wire_candidate list" where
  "fetchAllCandidates macs byMac = fetch_candidates byMac macs"

record lldp_entry =
  le_chassisId :: "string option"
  le_portId :: "string option"
  le_systemName :: "string option"

definition getLldpNeighbors :: "string \<Rightarrow> wire_candidate list \<Rightarrow> lldp_entry list" where
  "getLldpNeighbors ifname candidates =
     map (\<lambda>c. \<lparr>le_chassisId = wc_remoteChassisId c, le_portId = wc_remotePortId c, le_systemName = wc_remoteSystemName c\<rparr>)
       (filter (\<lambda>c. wc_seenInLldp c \<and> ifname \<in> wc_neighborIfaces c) candidates)"

definition remote_listing :: "bool \<Rightarrow> wire_candidate list \<Rightarrow> wire_candidate list" where
  "remote_listing lldpOnly candidates = filter (\<lambda>c. \<not> (lldpOnly \<and> \<not> wc_seenInLldp c)) candidates"

text \<open>What \<open>printRemote\<close> shows: \<open>None\<close> is the empty object.\<close>

definition printRemote ::
  "string \<Rightarrow> bool \<Rightarrow> string list \<Rightarrow> (string \<Rightarrow> wire_candidate option) \<Rightarrow> wire_candidate list option" where
  "printRemote macFlag lldpOnly macs byMac =
     (if macFlag \<noteq> [] then
        (case byMac macFlag of
           Some c \<Rightarrow> if lldpOnly \<and> \<not> wc_seenInLldp c then None else Some [c]
         | None \<Rightarrow> None)
      else Some (remote_listing lldpOnly (fetchAllCandidates macs byMac)))"

text \<open>What \<open>printStatus\<close> shows for each interface, with its LLDP neighbours when they are asked for.\<close>

definition printStatus ::
  "string \<Rightarrow> bool \<Rightarrow> (string \<Rightarrow> local_interface_state option) \<Rightarrow> local_interface_state umap
     \<Rightarrow> wire_candidate list \<Rightarrow> (string \<times> local_interface_state \<times> lldp_entry list option) list" where
  "printStatus ifFlag lldp getInterface snapshot candidates =
     (if ifFlag \<noteq> [] then
        (case getInterface ifFlag of
           Some i \<Rightarrow> [(ifFlag, i, if lldp then Some (getLldpNeighbors ifFlag candidates) else None)]
         | None \<Rightarrow> [])
      else map (\<lambda>(name, i). (name, i, if lldp then Some (getLldpNeighbors name candidates) else None)) snapshot)"

datatype cli_action = CliStatus | CliRemote | CliWatch

definition net_observe_main :: "bool \<Rightarrow> string \<Rightarrow> int \<times> cli_action list" where
  "net_observe_main connected command =
     (if \<not> connected then (1, [])
      else if command = ''status'' then (0, [CliStatus])
      else if command = ''remote'' then (0, [CliRemote])
      else if command = ''watch'' then (0, [CliWatch])
      else if command = ''monitor'' then (0, [CliStatus, CliRemote, CliWatch])
      else (1, []))"


section \<open>inventory-watch\<close>

text \<open>
  The flags the callbacks share with the loop. A callback first stores the argument, then marks the
  kind as seen, then requests a refresh; the loop takes the request first, then the kinds.
\<close>

record watch_flags =
  wf_refreshRequested :: bool
  wf_seenInventory :: bool
  wf_seenSource :: bool
  wf_seenReady :: bool
  wf_lastField :: "string option"
  wf_lastSource :: "string option"
  wf_lastReady :: "bool option"

definition new_watch_flags :: watch_flags where
  "new_watch_flags = \<lparr>wf_refreshRequested = False, wf_seenInventory = False, wf_seenSource = False, wf_seenReady = False,
     wf_lastField = None, wf_lastSource = None, wf_lastReady = None\<rparr>"

definition on_inventory_changed :: "string \<Rightarrow> watch_flags \<Rightarrow> watch_flags" where
  "on_inventory_changed f w = w\<lparr>wf_lastField := Some f, wf_seenInventory := True, wf_refreshRequested := True\<rparr>"

definition on_source_changed :: "string \<Rightarrow> watch_flags \<Rightarrow> watch_flags" where
  "on_source_changed n w = w\<lparr>wf_lastSource := Some n, wf_seenSource := True, wf_refreshRequested := True\<rparr>"

definition on_ready_changed :: "bool \<Rightarrow> watch_flags \<Rightarrow> watch_flags" where
  "on_ready_changed b w = w\<lparr>wf_lastReady := Some b, wf_seenReady := True, wf_refreshRequested := True\<rparr>"

datatype watch_output = ShowField string | ShowSource string | ShowReady bool | ShowAll

text \<open>One pass of the loop when it takes a request; \<open>printAll\<close> re-reads everything from the service.\<close>

definition watch_pass :: "watch_flags \<Rightarrow> watch_flags \<times> watch_output list" where
  "watch_pass w =
     (if \<not> wf_refreshRequested w then (w, [])
      else
        (w\<lparr>wf_refreshRequested := False, wf_seenInventory := False, wf_seenSource := False, wf_seenReady := False\<rparr>,
         (case wf_lastField w of Some f \<Rightarrow> if wf_seenInventory w then [ShowField f] else [] | None \<Rightarrow> [])
         @ (case wf_lastSource w of Some n \<Rightarrow> if wf_seenSource w then [ShowSource n] else [] | None \<Rightarrow> [])
         @ (case wf_lastReady w of Some b \<Rightarrow> if wf_seenReady w then [ShowReady b] else [] | None \<Rightarrow> [])
         @ [ShowAll]))"

end
