(* ===== verification/Daemon_Properties.thy ===== *)
theory Daemon_Properties
  imports Daemons Client_Properties
begin

text \<open>
  The programs end to end: what \<open>inventory-agentd\<close> registers and waits for, what \<open>net-observe\<close> lists, and
  that \<open>inventory-watch\<close> shows every change it was told of.
\<close>

section \<open>inventory-agentd\<close>

definition path_ok :: "string \<Rightarrow> bool" where
  "path_ok p \<longleftrightarrow> p \<noteq> [] \<and> path_filename p \<noteq> []"

definition flags_ok :: "agentd_flags \<Rightarrow> bool" where
  "flags_ok fl \<longleftrightarrow> path_ok (fl_node_name_path fl) \<and> path_ok (fl_device_meta_path fl) \<and> path_ok (fl_firmware_path fl) \<and>
     path_ok (fl_uuid_path fl) \<and> path_ok (fl_software_path fl)"

definition agentd_registered :: "agentd_flags \<Rightarrow> inventory_source list" where
  "agentd_registered fl =
     [\<lparr>src_name = ''node-name-file'', src_required = False, src_owned = [FIELD_NODE_NAME]\<rparr>,
      \<lparr>src_name = ''device-meta-file'', src_required = False,
        src_owned = [FIELD_DEVICE_CLASS, FIELD_DEVICE_MODEL_ID, FIELD_DEVICE_PROJECT]\<rparr>,
      \<lparr>src_name = ''firmware-file'', src_required = True, src_owned = [FIELD_FIRMWARE_VERSION]\<rparr>,
      \<lparr>src_name = ''uuid-file'', src_required = True, src_owned = [FIELD_UUID]\<rparr>,
      \<lparr>src_name = ''software-file'', src_required = False, src_owned = [FIELD_SOFTWARE_VERSION]\<rparr>]"

lemmas field_names = FIELD_NODE_NAME_def FIELD_DEVICE_CLASS_def FIELD_DEVICE_MODEL_ID_def FIELD_DEVICE_PROJECT_def
  FIELD_FIRMWARE_VERSION_def FIELD_UUID_def FIELD_SOFTWARE_VERSION_def

lemma agentd_add_Inr:
  assumes "agentd_add f s = Inr s'" "manager_reachable (iv_manager s)"
  shows "manager_reachable (iv_manager s')"
  using assms
  by (auto simp: agentd_add_def inv_addSource_def registered_def split: sum.splits option.splits
      intro: manager_reachable.register)

lemma agentd_add_all_reachable:
  "agentd_add_all fs s = Inr s' \<Longrightarrow> manager_reachable (iv_manager s) \<Longrightarrow> manager_reachable (iv_manager s')"
proof (induction fs arbitrary: s)
  case (Cons f fs)
  then show ?case using agentd_add_Inr by auto
qed simp

lemma agentd_adds:
  assumes "flags_ok fl"
  shows "\<exists>s'. agentd_add_all (agentd_sources fl)
      \<lparr>iv_manager = new_manager, iv_settings = st, iv_transports = [], iv_watched = [], iv_loopFailed = False,
       iv_refreshRequested = False, iv_lastRefresh = 0, iv_nextReconcile = 0, iv_signal = False\<rparr> = Inr s' \<and>
    mg_sources (iv_manager s') = agentd_registered fl \<and> iv_transports s' = [] \<and>
    mg_snapshot (iv_manager s') = empty_inventory_snapshot \<and>
    iv_watched s' = [fl_node_name_path fl, fl_device_meta_path fl, fl_firmware_path fl, fl_uuid_path fl, fl_software_path fl]"
  using assms
  by (simp add: flags_ok_def path_ok_def agentd_sources_def new_scalar_source_def new_device_meta_source_def
      new_file_source_def agentd_add_def inv_addSource_def registered_def addSource_def validateSourceRegistration_def
      new_manager_def is_metadata_field_def metadata_names field_names agentd_registered_def)

text \<open>
  (C30) The inventory daemon comes up with every source and becomes ready exactly when the mandatory ones
  answered: for valid paths, registration never fails, the five sources are watched at their paths,
  no two of them own a field, and a refresh from the fresh state makes the manager ready exactly
  when both the firmware and the uuid file were read and name no reserved field.
\<close>

theorem agentd_ready_gate:
  assumes "flags_ok fl" "fl_transport fl = ''dbus''"
  shows "\<exists>s. agentd_main stdoutEnabled True fl = Inr s \<and> manager_reachable (iv_manager s) \<and>
    mg_sources (iv_manager s) = agentd_registered fl \<and> iv_transports s = [''dbus''] \<and>
    iv_watched s = [fl_node_name_path fl, fl_device_meta_path fl, fl_firmware_path fl, fl_uuid_path fl, fl_software_path fl] \<and>
    (\<forall>ask ta ts now. answers_ok ask \<longrightarrow>
       (manager_isReady (fst (refreshAll ask ta ts now (iv_manager s))) \<longleftrightarrow>
         (\<forall>n \<in> {''firmware-file'', ''uuid-file''}.
            \<exists>raw. snd (ask n) = Inr raw \<and> (\<forall>k \<in> keys raw. \<not> is_metadata_field k))))"
proof -
  obtain s1 where add: "agentd_add_all (agentd_sources fl)
      \<lparr>iv_manager = new_manager,
       iv_settings = \<lparr>st_reconcileInterval = fl_reconcile_ms fl, st_minRefreshInterval = fl_min_refresh_ms fl\<rparr>,
       iv_transports = [], iv_watched = [], iv_loopFailed = False,
       iv_refreshRequested = False, iv_lastRefresh = 0, iv_nextReconcile = 0, iv_signal = False\<rparr> = Inr s1"
    and s1: "mg_sources (iv_manager s1) = agentd_registered fl" "iv_transports s1 = []"
      "mg_snapshot (iv_manager s1) = empty_inventory_snapshot"
      "iv_watched s1 = [fl_node_name_path fl, fl_device_meta_path fl, fl_firmware_path fl, fl_uuid_path fl, fl_software_path fl]"
    using agentd_adds[OF assms(1)] by blast
  let ?s = "s1\<lparr>iv_transports := [''dbus'']\<rparr>"
  have main: "agentd_main stdoutEnabled True fl = Inr ?s"
    using add s1(2) assms(2)
    by (simp add: agentd_main_def new_inv_service_def inv_createTransport_def inv_addTransport_def Let_def)
  have reach: "manager_reachable (iv_manager ?s)"
    using agentd_add_all_reachable[OF add] manager_reachable.start by simp
  have "manager_isReady (fst (refreshAll ask ta ts now (iv_manager ?s))) \<longleftrightarrow>
         (\<forall>n \<in> {''firmware-file'', ''uuid-file''}.
            \<exists>raw. snd (ask n) = Inr raw \<and> (\<forall>k \<in> keys raw. \<not> is_metadata_field k))"
    if a: "answers_ok ask" for ask ta ts now
    using ready_iff_required[OF reach a prod.collapse[symmetric], of ta ts now] s1(1,3)
    by (simp add: agentd_registered_def manager_isReady_def empty_inventory_snapshot_def)
  then show ?thesis using main reach s1 by auto
qed

theorem agentd_ready_gate_witness:
  "\<exists>s. agentd_main False True default_agentd_flags = Inr s \<and> length (mg_sources (iv_manager s)) = 5"
proof -
  have "flags_ok default_agentd_flags"
    by (simp add: flags_ok_def path_ok_def default_agentd_flags_def path_filename_def)
  moreover have "fl_transport default_agentd_flags = ''dbus''" by (simp add: default_agentd_flags_def)
  ultimately show ?thesis using agentd_ready_gate[of default_agentd_flags False]
    by (auto simp: agentd_registered_def)
qed


section \<open>net-observe\<close>

lemma remote_candidate_found:
  assumes "engine_reachable C pton cfg e" "cand \<in> set (remoteCandidates e)"
  shows "findCandidateByMac (rc_mac cand) e = Some cand"
proof -
  have ok: "cands_ok (en_phase e) (en_candidates e)" using engine_reachable_ok[OF assms(1)] by (simp add: engine_ok_def)
  obtain k where k: "(k, cand) \<in> set (en_candidates e)" "isPublishable cand"
    using assms(2) by (auto simp: remoteCandidates_def)
  then have m: "map_of (en_candidates e) k = Some cand" using cands_okD(1)[OF ok] by simp
  then have "rc_mac cand = k" using entry_okD[OF cands_okD(2)[OF ok m]] by (simp add: cand_ok_def)
  then show ?thesis using m k(2) by (simp add: findCandidateByMac_def)
qed

lemma fetch_candidates_all:
  "\<forall>c \<in> set cs. byMac (key c) = Some (f c) \<Longrightarrow> fetch_candidates byMac (map key cs) = map f cs"
  by (induction cs) auto

text \<open>
  \<open>net-observe remote\<close> lists the model: in any reachable state whose candidates fit the wire, and
  with at most 1024 of them, the two-phase fetch of a connected client, MACs first and then one
  lookup per MAC, gives exactly the published candidates in the model's order, each as the wire has
  it, and \<open>--lldp\<close> keeps exactly those with LLDP evidence.
\<close>

theorem cli_lists_model:
  assumes "variant_ok V" "invoke_ok im" "invoke_ok ic" "oc_iface cl" "engine_reachable C pton cfg e"
    "length (remoteCandidates e) \<le> kMaxCandidates" "\<forall>c \<in> set (remoteCandidates e). candidate_fits (toWireCandidate c)"
  shows "printRemote [] lldpOnly (client_macs im cl True e) (\<lambda>mac. client_candidate V ic cl True mac e) =
    Some (map toWireCandidate (filter (\<lambda>c. lldpOnly \<longrightarrow> rc_seenInLldp c) (remoteCandidates e)))"
proof -
  have "\<forall>c \<in> set (remoteCandidates e). string_fits (rc_mac c)"
    using assms(7) by (auto simp: candidate_fits_def toWireCandidate_def)
  then have macs: "client_macs im cl True e = map rc_mac (remoteCandidates e)"
    using client_macs_value[OF assms(2,4)] assms(6) by simp
  have "\<forall>c \<in> set (remoteCandidates e). client_candidate V ic cl True (rc_mac c) e = Some (toWireCandidate c)"
    using client_candidate_found[OF assms(1,3,4)] remote_candidate_found[OF assms(5)] assms(7) by blast
  then have "fetchAllCandidates (client_macs im cl True e) (\<lambda>mac. client_candidate V ic cl True mac e)
      = map toWireCandidate (remoteCandidates e)"
    unfolding macs fetchAllCandidates_def by (rule fetch_candidates_all)
  then show ?thesis
    by (simp add: printRemote_def remote_listing_def filter_map o_def toWireCandidate_def)
qed

theorem cli_lists_model_witness:
  "printRemote [] True (client_macs sample_invoke sample_obs_client True sample_live)
     (\<lambda>mac. client_candidate dvariant_ops sample_invoke sample_obs_client True mac sample_live)
       = Some (map toWireCandidate (filter rc_seenInLldp (remoteCandidates sample_live)))"
proof -
  have len: "length (remoteCandidates sample_live) = 1"
    using arg_cong[OF sample_live_macs, of length] by simp
  have one: "findCandidateByMac ''02:00:00:00:00:09'' sample_live = Some c" if "c \<in> set (remoteCandidates sample_live)" for c
  proof -
    have "rc_mac c \<in> set (map rc_mac (remoteCandidates sample_live))" using that by simp
    then show ?thesis using remote_candidate_found[OF sample_live_reachable that] by (simp add: sample_live_macs del: set_map)
  qed
  then have "\<forall>c \<in> set (remoteCandidates sample_live). candidate_fits (toWireCandidate c)"
    using sample_live_fits by auto
  from cli_lists_model[OF dvariant_ok sample_invoke_ok sample_invoke_ok _ sample_live_reachable _ this, of sample_obs_client True]
  show ?thesis using len by (simp add: sample_obs_client_def kMaxCandidates_def)
qed


section \<open>inventory-watch\<close>

datatype watch_op = WatchField string | WatchSource string | WatchReady bool | WatchPass

fun watch_step :: "watch_op \<Rightarrow> watch_flags \<Rightarrow> watch_flags \<times> watch_output list" where
  "watch_step (WatchField f) w = (on_inventory_changed f w, [])"
| "watch_step (WatchSource n) w = (on_source_changed n w, [])"
| "watch_step (WatchReady b) w = (on_ready_changed b w, [])"
| "watch_step WatchPass w = watch_pass w"

fun watch_run :: "watch_op list \<Rightarrow> watch_flags \<Rightarrow> watch_flags \<times> watch_output list" where
  "watch_run [] w = (w, [])"
| "watch_run (op # ops) w = (let (w1, o1) = watch_step op w; (w2, o2) = watch_run ops w1 in (w2, o1 @ o2))"

lemma pending_shown:
  "wf_refreshRequested w \<Longrightarrow> WatchPass \<in> set ops \<Longrightarrow> ShowAll \<in> set (snd (watch_run ops w))"
proof (induction ops arbitrary: w)
  case (Cons op ops)
  show ?case
  proof (cases "op = WatchPass")
    case True
    then show ?thesis using Cons.prems(1) by (simp add: watch_pass_def case_prod_beta)
  next
    case False
    then have "wf_refreshRequested (fst (watch_step op w))"
      using Cons.prems(1) by (cases op) (simp_all add: on_inventory_changed_def on_source_changed_def on_ready_changed_def)
    then show ?thesis using Cons.IH[of "fst (watch_step op w)"] Cons.prems(2) False by (simp add: case_prod_beta)
  qed
qed simp

text \<open>Every announcement is followed by a complete re-read: the pass after it prints everything.\<close>

lemma watch_shows_every_event:
  assumes "op \<noteq> WatchPass" "WatchPass \<in> set ops"
  shows "ShowAll \<in> set (snd (watch_run ops (fst (watch_step op w))))"
  by (rule pending_shown[OF _ assms(2)])
     (use assms(1) in \<open>cases op; simp add: on_inventory_changed_def on_source_changed_def on_ready_changed_def\<close>)

end
