(* ===== verification/Lldp_Connection.thy ===== *)
theory Lldp_Connection
  imports Netlink_Io "HOL-Library.Signed_Division"
begin

unbundle bit_operations_syntax

text \<open>
  \<open>inputs/lldp/lldpd/BoundedLldpConnection.cpp\<close> and \<open>BoundedLldpWatch.cpp\<close>: the socket to lldpd whose
  every wait is bounded or can be interrupted, and the watch thread on it.

  System calls and the functions of liblldpctl are arguments: their return values and error numbers.
  A loop that retries is a recursion over the list of answers of the call; \<open>None\<close> means that the
  answers given so far only led to retries.
\<close>

section \<open>Errors of the setup\<close>

datatype connection_error =
    SocketFailed int
  | WakeupFailed
  | PathTooLong
  | FcntlFailed int
  | ConnectTimedOut
  | ConnectPollFailed int
  | GetsockoptFailed int
  | ConnectFailed int
  | FcntlRestoreFailed int
  | SetsockoptFailed int
  | NoMemory

definition errno_EINPROGRESS :: int where "errno_EINPROGRESS = 115"
definition errno_EAGAIN :: int where "errno_EAGAIN = 11"
definition errno_EPIPE :: int where "errno_EPIPE = 32"

definition int32_max :: int where "int32_max = 2147483647"

definition O_NONBLOCK :: "32 word" where "O_NONBLOCK = 2048"


section \<open>Bounded connect\<close>

text \<open>
  The answers of the calls of \<open>connectBounded\<close>: a result is \<open>Inl errno\<close> for a negative return value.
  \<open>kc_poll\<close> depends on the timeout it is given and returns the number of ready descriptors.
\<close>

record connect_calls =
  kc_getfl :: "int + 32 word"
  kc_setfl :: "32 word \<Rightarrow> int + unit"
  kc_connect :: "int + unit"
  kc_poll :: "int \<Rightarrow> int + nat"
  kc_getsockopt :: "int + int"
  kc_restore :: "32 word \<Rightarrow> int + unit"

definition clamp_ms :: "int \<Rightarrow> int" where
  "clamp_ms timeout = (if timeout < 0 then 0 else if int32_max < timeout then int32_max else timeout)"

definition await_connect :: "connect_calls \<Rightarrow> int \<Rightarrow> connection_error + unit" where
  "await_connect k timeout =
     (case kc_poll k (clamp_ms timeout) of
        Inl e \<Rightarrow> Inl (ConnectPollFailed e)
      | Inr n \<Rightarrow>
          if n = 0 then Inl ConnectTimedOut
          else (case kc_getsockopt k of
                  Inl e \<Rightarrow> Inl (GetsockoptFailed e)
                | Inr err \<Rightarrow> if err \<noteq> 0 then Inl (ConnectFailed err) else Inr ()))"

definition connectBounded :: "connect_calls \<Rightarrow> int \<Rightarrow> connection_error + unit" where
  "connectBounded k timeout =
     (case kc_getfl k of
        Inl e \<Rightarrow> Inl (FcntlFailed e)
      | Inr flags \<Rightarrow>
         (case kc_setfl k (flags OR O_NONBLOCK) of
            Inl e \<Rightarrow> Inl (FcntlFailed e)
          | Inr _ \<Rightarrow>
             rbind (case kc_connect k of
                      Inr _ \<Rightarrow> Inr ()
                    | Inl e \<Rightarrow> if e = errno_EINPROGRESS then await_connect k timeout else Inl (ConnectFailed e))
               (\<lambda>_. case kc_restore k flags of Inl e \<Rightarrow> Inl (FcntlRestoreFailed e) | Inr _ \<Rightarrow> Inr ())))"

text \<open>The \<open>timeval\<close> of \<open>setIoTimeouts\<close>: seconds and microseconds of a number of milliseconds.\<close>

definition io_timeval :: "int \<Rightarrow> int \<times> int" where
  "io_timeval timeout = (let secs = timeout sdiv 1000 in (secs, (timeout - secs * 1000) * 1000))"

definition setIoTimeouts :: "(int \<times> int \<Rightarrow> int option) \<Rightarrow> (int \<times> int \<Rightarrow> int option) \<Rightarrow> int \<Rightarrow> connection_error + int \<times> int" where
  "setIoTimeouts rcvtimeo sndtimeo timeout =
     (let tv = io_timeval timeout
      in case rcvtimeo tv of
           Some e \<Rightarrow> Inl (SetsockoptFailed e)
         | None \<Rightarrow> (case sndtimeo tv of Some e \<Rightarrow> Inl (SetsockoptFailed e) | None \<Rightarrow> Inr tv))"


section \<open>The connection\<close>

datatype connection_mode = BoundedMode | InterruptibleMode

record lldp_connection =
  bc_mode :: connection_mode
  bc_wakeup :: bool
  bc_unblocked :: bool
  bc_signalled :: bool
  bc_timeval :: "int \<times> int"

record setup_calls =
  su_socket :: "int + unit"
  su_eventfd :: bool
  su_connect :: connect_calls
  su_rcv :: "int \<times> int \<Rightarrow> int option"
  su_snd :: "int \<times> int \<Rightarrow> int option"
  su_newName :: bool

definition sun_path_size :: nat where "sun_path_size = 108"

definition makeWakeupSignal :: "bool \<Rightarrow> connection_mode \<Rightarrow> connection_error + bool" where
  "makeWakeupSignal created mode =
     (if mode \<noteq> InterruptibleMode then Inr False
      else if \<not> created then Inl WakeupFailed else Inr True)"

definition new_lldp_connection ::
  "string \<Rightarrow> int \<Rightarrow> int \<Rightarrow> connection_mode \<Rightarrow> setup_calls \<Rightarrow> connection_error + lldp_connection" where
  "new_lldp_connection ctlname connectTimeout ioTimeout mode su =
     (case su_socket su of
        Inl e \<Rightarrow> Inl (SocketFailed e)
      | Inr _ \<Rightarrow>
         rbind (makeWakeupSignal (su_eventfd su) mode) (\<lambda>wakeup.
           if length ctlname \<ge> sun_path_size then Inl PathTooLong
           else rbind (connectBounded (su_connect su) connectTimeout) (\<lambda>_.
                rbind (setIoTimeouts (su_rcv su) (su_snd su) ioTimeout) (\<lambda>tv.
                  if \<not> su_newName su then Inl NoMemory
                  else Inr \<lparr>bc_mode = mode, bc_wakeup = wakeup, bc_unblocked = False, bc_signalled = False,
                            bc_timeval = tv\<rparr>))))"

definition enterInterruptibleMode :: "setup_calls \<Rightarrow> lldp_connection \<Rightarrow> connection_error + lldp_connection" where
  "enterInterruptibleMode su c =
     (if bc_mode c \<noteq> InterruptibleMode then Inr c
      else rbind (setIoTimeouts (su_rcv su) (su_snd su) 0) (\<lambda>tv. Inr (c\<lparr>bc_timeval := tv\<rparr>)))"

definition unblock :: "lldp_connection \<Rightarrow> lldp_connection" where
  "unblock c = (if \<not> bc_wakeup c then c else c\<lparr>bc_unblocked := True, bc_signalled := True\<rparr>)"


section \<open>Receiving and sending\<close>

datatype lldp_io = LldpCount nat | LldpEof | LldpWouldBlock | LldpCallbackFailure

text \<open>One round of \<open>waitReadable\<close>: the flag it loads, then what \<open>pollOnce\<close> reports.\<close>

record wait_round =
  wr_unblocked :: bool
  wr_poll :: "int + 16 word \<times> 16 word"

fun waitReadable :: "wait_round list \<Rightarrow> bool option" where
  "waitReadable [] = None"
| "waitReadable (r # rs) =
     (if wr_unblocked r then Some False
      else (case wr_poll r of
              Inl e \<Rightarrow> Some False
            | Inr (data, wake) \<Rightarrow>
                if wake \<noteq> 0 then Some False
                else if data AND 25 \<noteq> 0 then Some True
                else waitReadable rs))"

fun lldp_recv_loop :: "(int + nat) list \<Rightarrow> lldp_io option" where
  "lldp_recv_loop [] = None"
| "lldp_recv_loop (r # rs) =
     (case r of
        Inr n \<Rightarrow> if n > 0 then Some (LldpCount n) else Some LldpEof
      | Inl e \<Rightarrow>
          if e = errno_EINTR then lldp_recv_loop rs
          else if e = errno_EAGAIN then Some LldpWouldBlock
          else if e = errno_ECONNRESET then Some LldpEof
          else Some LldpCallbackFailure)"

text \<open>\<open>recvCb\<close>; the second component says whether \<open>recv\<close> was reached.\<close>

definition recvCb :: "bool \<Rightarrow> nat \<Rightarrow> wait_round list \<Rightarrow> (int + nat) list \<Rightarrow> lldp_connection \<Rightarrow> (lldp_io \<times> bool) option" where
  "recvCb dataNull len waits recvs c =
     (if dataNull \<or> len = 0 then Some (LldpCallbackFailure, False)
      else if bc_mode c = InterruptibleMode \<and> bc_wakeup c then
        (case waitReadable waits of
           None \<Rightarrow> None
         | Some False \<Rightarrow> Some (LldpEof, False)
         | Some True \<Rightarrow> map_option (\<lambda>r. (r, True)) (lldp_recv_loop recvs))
      else map_option (\<lambda>r. (r, True)) (lldp_recv_loop recvs))"

fun lldp_send_loop :: "(int + nat) list \<Rightarrow> lldp_io option" where
  "lldp_send_loop [] = None"
| "lldp_send_loop (r # rs) =
     (case r of
        Inr n \<Rightarrow> Some (LldpCount n)
      | Inl e \<Rightarrow>
          if e = errno_EINTR then lldp_send_loop rs
          else if e = errno_EAGAIN then Some LldpWouldBlock
          else if e = errno_EPIPE \<or> e = errno_ECONNRESET then Some LldpEof
          else Some LldpCallbackFailure)"

definition QueryInterfacesOk :: "bool \<Rightarrow> bool" where
  "QueryInterfacesOk interfaces = interfaces"


section \<open>The watch\<close>

record lldp_watch =
  bw_callback :: "nat option"
  bw_onExit :: "nat option"
  bw_exited :: bool

definition watch_setCallback :: "nat option \<Rightarrow> lldp_watch \<Rightarrow> lldp_watch" where
  "watch_setCallback cb w = w\<lparr>bw_callback := cb\<rparr>"

definition setExitHandler :: "nat option \<Rightarrow> lldp_watch \<Rightarrow> lldp_watch" where
  "setExitHandler onExit w = w\<lparr>bw_onExit := onExit\<rparr>"

datatype watch_error = SetupFailed connection_error | SubscribeFailed

definition new_lldp_watch ::
  "connection_error + lldp_connection \<Rightarrow> bool \<Rightarrow> setup_calls \<Rightarrow> nat option \<Rightarrow> watch_error + lldp_watch \<times> lldp_connection" where
  "new_lldp_watch conn subscribed su callback =
     (case conn of
        Inl e \<Rightarrow> Inl (SetupFailed e)
      | Inr c \<Rightarrow>
          if \<not> subscribed then Inl SubscribeFailed
          else (case enterInterruptibleMode su c of
                  Inl e \<Rightarrow> Inl (SetupFailed e)
                | Inr c' \<Rightarrow> Inr (\<lparr>bw_callback = callback, bw_onExit = None, bw_exited = False\<rparr>, c')))"

text \<open>The handlers called, in order; an exception of the handler is caught.\<close>

definition notifyExit :: "lldp_watch \<Rightarrow> lldp_watch \<times> nat list" where
  "notifyExit w = (w\<lparr>bw_onExit := None\<rparr>, case bw_onExit w of Some h \<Rightarrow> [h] | None \<Rightarrow> [])"

text \<open>
  The thread: for each round whether stop was requested at the loop's test and whether \<open>lldpctl_watch\<close>
  failed. \<open>stopAtEnd\<close> is the request as read after the loop.
\<close>

fun watch_rounds :: "(bool \<times> bool) list \<Rightarrow> bool" where
  "watch_rounds [] = False"
| "watch_rounds ((stop, failed) # rs) = (if stop then True else if failed then True else watch_rounds rs)"

definition watch_thread :: "(bool \<times> bool) list \<Rightarrow> bool \<Rightarrow> lldp_watch \<Rightarrow> lldp_watch \<times> nat list" where
  "watch_thread rounds stopAtEnd w =
     (if \<not> watch_rounds rounds then (w, [])
      else (let w1 = w\<lparr>bw_exited := True\<rparr>
            in if stopAtEnd then (w1, []) else notifyExit w1))"

text \<open>The callbacks made for one change: the callback and the interface name, empty when it is null.\<close>

definition trampoline :: "string option \<Rightarrow> lldp_watch \<Rightarrow> (nat \<times> string) list" where
  "trampoline ifname w =
     (case bw_callback w of
        None \<Rightarrow> []
      | Some cb \<Rightarrow> [(cb, case ifname of Some n \<Rightarrow> n | None \<Rightarrow> [])])"

datatype watch_teardown = RequestStop | SyncUnblock | UnblockConnection | JoinThread | ReleaseConnection

definition destroy_watch :: "bool \<Rightarrow> bool \<Rightarrow> watch_teardown list" where
  "destroy_watch hasConn joinable =
     [RequestStop] @ (if hasConn then [SyncUnblock, UnblockConnection] else [])
       @ (if joinable then [JoinThread] else []) @ [ReleaseConnection]"


section \<open>Properties\<close>

lemma clamp_ms_range: "0 \<le> clamp_ms t" "clamp_ms t \<le> int32_max"
  by (simp_all add: clamp_ms_def int32_max_def)

lemma io_timeval_exact:
  assumes "0 \<le> t" "io_timeval t = (secs, usecs)"
  shows "secs * 1000000 + usecs = t * 1000" "0 \<le> usecs" "usecs < 1000000" "0 \<le> secs"
proof -
  have s: "secs = t div 1000" "usecs = (t - secs * 1000) * 1000"
    using assms by (cases "t = 0"; auto simp: io_timeval_def Let_def signed_divide_int_def sgn_if)+
  have "t - secs * 1000 = t mod 1000" unfolding s(1) by (simp add: minus_div_mult_eq_mod)
  then have u: "usecs = (t mod 1000) * 1000" using s(2) by simp
  show "secs * 1000000 + usecs = t * 1000" using s(2) by simp
  show "0 \<le> usecs" "usecs < 1000000" unfolding u using pos_mod_sign[of 1000 t] pos_mod_bound[of 1000 t] by simp_all
  show "0 \<le> secs" unfolding s(1) using assms(1) by simp
qed

text \<open>
  No wait of the setup is unbounded: \<open>connect\<close> polls only with a timeout between zero and the
  largest \<open>int\<close>, whatever 64-bit duration is configured, so that its result depends on no other
  answer of \<open>poll\<close>; and a connection that was set up has socket timeouts that are exactly the
  configured duration, which are nonzero, hence in force, whenever that is positive, until the
  watch enters interruptible mode.
\<close>

theorem lldp_waits_bounded:
  assumes "\<forall>u. 0 \<le> u \<and> u \<le> int32_max \<longrightarrow> p u = kc_poll (su_connect su) u"
    "new_lldp_connection ctlname connectTimeout ioTimeout mode su = Inr c" "0 < ioTimeout"
  shows "new_lldp_connection ctlname connectTimeout ioTimeout mode (su\<lparr>su_connect := (su_connect su)\<lparr>kc_poll := p\<rparr>\<rparr>) = Inr c \<and>
    fst (bc_timeval c) * 1000000 + snd (bc_timeval c) = ioTimeout * 1000 \<and>
    0 \<le> snd (bc_timeval c) \<and> snd (bc_timeval c) < 1000000 \<and> bc_timeval c \<noteq> (0, 0) \<and> length ctlname < sun_path_size"
proof -
  have "connectBounded ((su_connect su)\<lparr>kc_poll := p\<rparr>) connectTimeout = connectBounded (su_connect su) connectTimeout"
  proof -
    have "await_connect ((su_connect su)\<lparr>kc_poll := p\<rparr>) connectTimeout = await_connect (su_connect su) connectTimeout"
      using assms(1) clamp_ms_range[of connectTimeout] by (simp add: await_connect_def split: sum.split)
    then show ?thesis by (simp add: connectBounded_def split: sum.split)
  qed
  then have "new_lldp_connection ctlname connectTimeout ioTimeout mode (su\<lparr>su_connect := (su_connect su)\<lparr>kc_poll := p\<rparr>\<rparr>) = Inr c"
    using assms(2) by (auto simp: new_lldp_connection_def split: sum.splits if_splits)
  moreover have tv: "bc_timeval c = io_timeval ioTimeout" "length ctlname < sun_path_size"
    using assms(2) by (auto simp: new_lldp_connection_def setIoTimeouts_def Let_def split: sum.splits if_splits option.splits)
  ultimately show ?thesis
    using io_timeval_exact[of ioTimeout "fst (bc_timeval c)" "snd (bc_timeval c)"] assms(3) by auto
qed

definition sample_setup :: setup_calls where
  "sample_setup = \<lparr>su_socket = Inr (), su_eventfd = True,
     su_connect = \<lparr>kc_getfl = Inr 2, kc_setfl = (\<lambda>_. Inr ()), kc_connect = Inl errno_EINPROGRESS, kc_poll = (\<lambda>_. Inr 1),
       kc_getsockopt = Inr 0, kc_restore = (\<lambda>_. Inr ())\<rparr>,
     su_rcv = (\<lambda>_. None), su_snd = (\<lambda>_. None), su_newName = True\<rparr>"

definition sample_setup_strict :: setup_calls where
  "sample_setup_strict = sample_setup\<lparr>su_connect :=
     (su_connect sample_setup)\<lparr>kc_poll := \<lambda>u. if 0 \<le> u \<and> u \<le> int32_max then Inr 1 else Inl 22\<rparr>\<rparr>"

definition sample_connection :: lldp_connection where
  "sample_connection = \<lparr>bc_mode = BoundedMode, bc_wakeup = False, bc_unblocked = False, bc_signalled = False,
     bc_timeval = (2, 500000)\<rparr>"

theorem lldp_waits_bounded_witness:
  "new_lldp_connection ''/run/lldpd.socket'' 3000000000 2500 BoundedMode sample_setup_strict = Inr sample_connection"
proof -
  have "new_lldp_connection ''/run/lldpd.socket'' 3000000000 2500 BoundedMode sample_setup = Inr sample_connection"
    by (simp add: new_lldp_connection_def sample_setup_def makeWakeupSignal_def sun_path_size_def connectBounded_def
        await_connect_def setIoTimeouts_def io_timeval_def signed_divide_int_def sample_connection_def)
  from lldp_waits_bounded[OF _ this, of "\<lambda>u. if 0 \<le> u \<and> u \<le> int32_max then Inr 1 else Inl 22"]
  show ?thesis by (simp add: sample_setup_strict_def) (simp add: sample_setup_def)
qed

text \<open>
  Once the connection is unblocked, the next test of the wait, or the wakeup the poll sees, ends a receive
  with EOF and without reading; a wait that sees it later ends as well.
\<close>

theorem unblocked_receive_ends:
  assumes "bc_mode c = InterruptibleMode" "bc_wakeup c" "\<not> dataNull" "0 < len"
    "wr_unblocked r \<or> (\<exists>d w. wr_poll r = Inr (d, w) \<and> w \<noteq> 0)"
  shows "recvCb dataNull len (r # rs) recvs c = Some (LldpEof, False) \<and>
    waitReadable (before @ r # rs) \<noteq> None"
proof -
  have r: "waitReadable (r # rs) = Some False" using assms(5) by auto
  have "waitReadable (before @ r # rs) \<noteq> None" for before
    using r by (induction before) (auto split: sum.splits)
  then show ?thesis using assms(1-4) r by (simp add: recvCb_def)
qed

text \<open>
  The exit handler of a watch runs at most once, only for an exit nobody requested and only after the watch
  is marked as exited.
\<close>

theorem exit_handler_once:
  assumes "watch_thread rounds stopAtEnd w = (w', hs)"
  shows "length hs \<le> 1 \<and> (hs \<noteq> [] \<longrightarrow> \<not> stopAtEnd \<and> bw_exited w' \<and> snd (notifyExit w') = [])"
  using assms by (auto simp: watch_thread_def notifyExit_def Let_def split: if_splits option.splits)

end
