(* ===== verification/Netlink_Socket.thy ===== *)
theory Netlink_Socket
  imports Netlink_Io Netlink_Dump
begin

text \<open>
  The socket class of \<open>inputs/netlink/common/NetlinkIo.cpp\<close> and the constructors of \<open>NetlinkEventLoop\<close> and
  \<open>NetlinkInitialDump\<close> that hold one. \<open>UniqueFd\<close> is not part of the repository: it is the
  argument \<open>fd_ops\<close>, and \<open>unique_fd_ok\<close> says what the code relies on: the descriptor given to it
  is the one it returns and closes, and a moved-from or default value holds none.
  Objects live at addresses in a store, so that moves between them and their destruction are steps.
\<close>

record 'u fd_ops =
  uf_new :: "int \<Rightarrow> 'u"
  uf_empty :: "'u"
  uf_get :: "'u \<Rightarrow> int"
  uf_valid :: "'u \<Rightarrow> bool"
  uf_take :: "'u \<Rightarrow> 'u \<times> 'u"
  uf_close :: "'u \<Rightarrow> int set"

definition unique_fd_ok :: "'u fd_ops \<Rightarrow> bool" where
  "unique_fd_ok F \<longleftrightarrow>
     (\<forall>n. uf_get F (uf_new F n) = n \<and> (uf_valid F (uf_new F n) \<longleftrightarrow> 0 \<le> n)) \<and> \<not> uf_valid F (uf_empty F) \<and>
     (\<forall>u. fst (uf_take F u) = u \<and> \<not> uf_valid F (snd (uf_take F u))) \<and>
     (\<forall>u. uf_close F u = (if uf_valid F u then {uf_get F u} else {}))"

lemma unique_fd_okD:
  assumes "unique_fd_ok F"
  shows "uf_get F (uf_new F n) = n" "uf_valid F (uf_new F n) \<longleftrightarrow> 0 \<le> n" "\<not> uf_valid F (uf_empty F)"
    "fst (uf_take F u) = u" "\<not> uf_valid F (snd (uf_take F u))" "uf_close F u = (if uf_valid F u then {uf_get F u} else {})"
  using assms by (auto simp: unique_fd_ok_def)


section \<open>The socket object\<close>

record 'u route_socket =
  rs_ownedFd :: "'u"
  rs_fd :: int

datatype socket_error = InvalidDescriptor | EmptyHandler | SocketFailed int | BindFailed int

record open_options =
  oo_groups :: "32 word"
  oo_receiveBufferBytes :: "int option"

definition default_open_options :: open_options where
  "default_open_options = \<lparr>oo_groups = 0, oo_receiveBufferBytes = None\<rparr>"

definition borrow_socket :: "'u fd_ops \<Rightarrow> int \<Rightarrow> socket_error + 'u route_socket" where
  "borrow_socket F fd = (if fd < 0 then Inl InvalidDescriptor else Inr \<lparr>rs_ownedFd = uf_empty F, rs_fd = fd\<rparr>)"

definition own_socket :: "'u fd_ops \<Rightarrow> 'u \<Rightarrow> 'u route_socket" where
  "own_socket F u = (let owned = fst (uf_take F u) in \<lparr>rs_ownedFd = owned, rs_fd = uf_get F owned\<rparr>)"

text \<open>Moves return the new value of the target, that of the source, and the descriptors closed.\<close>

definition move_socket :: "'u fd_ops \<Rightarrow> 'u route_socket \<Rightarrow> 'u route_socket \<times> 'u route_socket" where
  "move_socket F other =
     (let (taken, left) = uf_take F (rs_ownedFd other)
      in (\<lparr>rs_ownedFd = taken, rs_fd = rs_fd other\<rparr>, \<lparr>rs_ownedFd = left, rs_fd = -1\<rparr>))"

definition assign_socket ::
  "'u fd_ops \<Rightarrow> 'u route_socket \<Rightarrow> 'u route_socket \<Rightarrow> 'u route_socket \<times> 'u route_socket \<times> int set" where
  "assign_socket F this other =
     (let (taken, left) = uf_take F (rs_ownedFd other)
      in (\<lparr>rs_ownedFd = taken, rs_fd = rs_fd other\<rparr>, \<lparr>rs_ownedFd = left, rs_fd = -1\<rparr>, uf_close F (rs_ownedFd this)))"

definition ownsDescriptor :: "'u fd_ops \<Rightarrow> 'u route_socket \<Rightarrow> bool" where
  "ownsDescriptor F s = uf_valid F (rs_ownedFd s)"


section \<open>Opening\<close>

text \<open>
  What the system answers to \<open>socket\<close>, \<open>setsockopt\<close> and \<open>bind\<close>: a descriptor or -1 with the
  \<open>errno\<close>, whether the buffer size was taken, and the \<open>errno\<close> of \<open>bind\<close> or 0. The result is the error or
  the socket, the calls made and the descriptors that are open afterwards.
\<close>

record open_answers =
  oa_fd :: int
  oa_errno :: int
  oa_rcvbuf :: bool
  oa_bind :: int

datatype socket_call = CallSocket | CallRcvBuf int int | CallBind int "32 word"

definition route_open ::
  "'u fd_ops \<Rightarrow> open_answers \<Rightarrow> open_options \<Rightarrow> int set
     \<Rightarrow> (socket_error + 'u route_socket) \<times> socket_call list \<times> int set" where
  "route_open F a options opened =
     (let fd = uf_new F (oa_fd a);
          opened1 = (if 0 \<le> oa_fd a then insert (oa_fd a) opened else opened);
          rcvbuf = (case oo_receiveBufferBytes options of Some n \<Rightarrow> [CallRcvBuf (uf_get F fd) n] | None \<Rightarrow> []);
          calls = CallSocket # rcvbuf @ [CallBind (uf_get F fd) (oo_groups options)]
      in if \<not> uf_valid F fd then (Inl (SocketFailed (oa_errno a)), [CallSocket], opened1 - uf_close F fd)
         else if oa_bind a \<noteq> 0 then (Inl (BindFailed (oa_bind a)), calls, opened1 - uf_close F fd)
         else (let (taken, left) = uf_take F fd
               in (Inr (own_socket F taken), calls, opened1 - uf_close F left)))"


section \<open>The objects that hold a socket\<close>

definition liveSocketReceiveBufferBytes :: int where "liveSocketReceiveBufferBytes = 256 * 1024"

definition liveGroups :: "32 word" where
  "liveGroups = or 0x1 (or 0x10 (or 0x100 0x4))"

definition validateHandler :: "bool \<Rightarrow> socket_error option" where
  "validateHandler hasHandler = (if \<not> hasHandler then Some EmptyHandler else None)"

text \<open>An exception of the constructor body destroys the socket member that was built before it.\<close>

definition construct_with ::
  "'u fd_ops \<Rightarrow> bool \<Rightarrow> (socket_error + 'u route_socket) \<times> socket_call list \<times> int set
     \<Rightarrow> (socket_error + 'u route_socket) \<times> socket_call list \<times> int set" where
  "construct_with F hasHandler built =
     (case built of
        (Inl e, calls, opened) \<Rightarrow> (Inl e, calls, opened)
      | (Inr s, calls, opened) \<Rightarrow>
          (case validateHandler hasHandler of
             Some e \<Rightarrow> (Inl e, calls, opened - uf_close F (rs_ownedFd s))
           | None \<Rightarrow> (Inr s, calls, opened)))"

definition new_event_loop ::
  "'u fd_ops \<Rightarrow> open_answers \<Rightarrow> bool \<Rightarrow> int set \<Rightarrow> (socket_error + 'u route_socket) \<times> socket_call list \<times> int set" where
  "new_event_loop F a hasHandler opened =
     construct_with F hasHandler
       (route_open F a \<lparr>oo_groups = liveGroups, oo_receiveBufferBytes = Some liveSocketReceiveBufferBytes\<rparr> opened)"

definition new_event_loop_on ::
  "'u fd_ops \<Rightarrow> int \<Rightarrow> bool \<Rightarrow> int set \<Rightarrow> (socket_error + 'u route_socket) \<times> socket_call list \<times> int set" where
  "new_event_loop_on F liveFd hasHandler opened = construct_with F hasHandler (borrow_socket F liveFd, [], opened)"

definition new_initial_dump ::
  "'u fd_ops \<Rightarrow> open_answers \<Rightarrow> bool \<Rightarrow> int set \<Rightarrow> (socket_error + 'u route_socket) \<times> socket_call list \<times> int set" where
  "new_initial_dump F a hasHandler opened =
     construct_with F hasHandler (route_open F a default_open_options opened)"

definition new_initial_dump_on ::
  "'u fd_ops \<Rightarrow> int \<Rightarrow> bool \<Rightarrow> int set \<Rightarrow> (socket_error + 'u route_socket) \<times> socket_call list \<times> int set" where
  "new_initial_dump_on F dumpFd hasHandler opened = construct_with F hasHandler (borrow_socket F dumpFd, [], opened)"


section \<open>A store of socket objects\<close>

record 'u socket_store =
  st_open :: "int set"
  st_objects :: "nat \<Rightarrow> 'u route_socket option"

datatype socket_op =
    OpOpen nat open_answers open_options
  | OpBorrow nat int
  | OpMove nat nat
  | OpAssign nat nat
  | OpDestroy nat

definition place :: "nat \<Rightarrow> socket_error + 'u route_socket \<Rightarrow> 'u socket_store \<Rightarrow> 'u socket_store" where
  "place at r st = (case r of Inl _ \<Rightarrow> st | Inr s \<Rightarrow> st\<lparr>st_objects := (st_objects st)(at \<mapsto> s)\<rparr>)"

fun socket_step :: "'u fd_ops \<Rightarrow> socket_op \<Rightarrow> 'u socket_store \<Rightarrow> 'u socket_store" where
  "socket_step F (OpOpen at a options) st =
     (case route_open F a options (st_open st) of (r, _, opened) \<Rightarrow> place at r (st\<lparr>st_open := opened\<rparr>))"
| "socket_step F (OpBorrow at fd) st = place at (borrow_socket F fd) st"
| "socket_step F (OpMove at from) st =
     (case st_objects st from of
        None \<Rightarrow> st
      | Some other \<Rightarrow>
          (case move_socket F other of (new, left) \<Rightarrow> st\<lparr>st_objects := (st_objects st)(from \<mapsto> left, at \<mapsto> new)\<rparr>))"
| "socket_step F (OpAssign at from) st =
     (case (st_objects st at, st_objects st from) of
        (Some this, Some other) \<Rightarrow>
          if at = from then st
          else (case assign_socket F this other of (new, left, closed) \<Rightarrow>
                  st\<lparr>st_open := st_open st - closed, st_objects := (st_objects st)(from \<mapsto> left, at \<mapsto> new)\<rparr>)
      | _ \<Rightarrow> st)"
| "socket_step F (OpDestroy at) st =
     (case st_objects st at of
        None \<Rightarrow> st
      | Some s \<Rightarrow> st\<lparr>st_open := st_open st - uf_close F (rs_ownedFd s), st_objects := (st_objects st)(at := None)\<rparr>)"

text \<open>New objects are built where there is none, and \<open>socket\<close> returns a descriptor that is not in use.\<close>

fun socket_adm :: "socket_op \<Rightarrow> 'u socket_store \<Rightarrow> bool" where
  "socket_adm (OpOpen at a options) st \<longleftrightarrow> st_objects st at = None \<and> oa_fd a \<notin> st_open st"
| "socket_adm (OpBorrow at fd) st \<longleftrightarrow> st_objects st at = None"
| "socket_adm (OpMove at from) st \<longleftrightarrow> st_objects st at = None"
| "socket_adm (OpAssign at from) st \<longleftrightarrow> True"
| "socket_adm (OpDestroy at) st \<longleftrightarrow> True"

fun socket_run :: "'u fd_ops \<Rightarrow> socket_op list \<Rightarrow> 'u socket_store \<Rightarrow> 'u socket_store" where
  "socket_run F [] st = st"
| "socket_run F (x # xs) st = socket_run F xs (socket_step F x st)"

fun socket_run_adm :: "'u fd_ops \<Rightarrow> socket_op list \<Rightarrow> 'u socket_store \<Rightarrow> bool" where
  "socket_run_adm F [] st \<longleftrightarrow> True"
| "socket_run_adm F (x # xs) st \<longleftrightarrow> socket_adm x st \<and> socket_run_adm F xs (socket_step F x st)"


section \<open>Ownership\<close>

text \<open>The descriptor each object owns, and what each operation makes of it.\<close>

definition held :: "'u fd_ops \<Rightarrow> 'u socket_store \<Rightarrow> nat \<Rightarrow> int option" where
  "held F st at = (case st_objects st at of None \<Rightarrow> None
     | Some s \<Rightarrow> if ownsDescriptor F s then Some (uf_get F (rs_ownedFd s)) else None)"

lemma held_open:
  assumes "unique_fd_ok F" "socket_adm (OpOpen at a options) st"
  shows "0 \<le> oa_fd a \<and> oa_bind a = 0 \<and> held F (socket_step F (OpOpen at a options) st) = (held F st)(at \<mapsto> oa_fd a) \<and>
       st_open (socket_step F (OpOpen at a options) st) = insert (oa_fd a) (st_open st) \<or>
     held F (socket_step F (OpOpen at a options) st) = held F st \<and>
       st_open (socket_step F (OpOpen at a options) st) = st_open st"
  using assms(2)
  by (auto simp: route_open_def own_socket_def place_def held_def ownsDescriptor_def unique_fd_okD[OF assms(1)] Let_def
      case_prod_beta fun_eq_iff)

lemma held_borrow:
  assumes "unique_fd_ok F" "st_objects st at = None"
  shows "held F (socket_step F (OpBorrow at fd) st) = held F st" "st_open (socket_step F (OpBorrow at fd) st) = st_open st"
  using assms(2) by (auto simp: borrow_socket_def place_def held_def ownsDescriptor_def unique_fd_okD[OF assms(1)] fun_eq_iff)

lemma held_move:
  assumes "unique_fd_ok F" "st_objects st at = None"
  shows "held F (socket_step F (OpMove at from) st) = (held F st)(from := None, at := held F st from)"
    "st_open (socket_step F (OpMove at from) st) = st_open st"
  using assms(2) unique_fd_okD[OF assms(1)]
  by (auto simp: move_socket_def held_def ownsDescriptor_def fun_eq_iff case_prod_beta split: option.split)

lemma held_assign:
  assumes "unique_fd_ok F"
  shows "held F (socket_step F (OpAssign at from) st) = held F st \<and> st_open (socket_step F (OpAssign at from) st) = st_open st \<or>
     at \<noteq> from \<and> held F (socket_step F (OpAssign at from) st) = (held F st)(from := None, at := held F st from) \<and>
     st_open (socket_step F (OpAssign at from) st) = st_open st - set_option (held F st at)"
  using unique_fd_okD[OF assms(1)]
  by (auto simp: assign_socket_def held_def ownsDescriptor_def fun_eq_iff case_prod_beta split: option.split)

lemma held_destroy:
  assumes "unique_fd_ok F"
  shows "held F (socket_step F (OpDestroy at) st) = (held F st)(at := None)"
    "st_open (socket_step F (OpDestroy at) st) = st_open st - set_option (held F st at)"
  using unique_fd_okD(6)[OF assms] by (auto simp: held_def ownsDescriptor_def fun_eq_iff split: option.split)

text \<open>\<open>base\<close> are the descriptors that are not the sockets' own: a borrowed one is among them.\<close>

definition ownership_ok :: "int set \<Rightarrow> (nat \<Rightarrow> int option) \<Rightarrow> int set \<Rightarrow> bool" where
  "ownership_ok base h opened \<longleftrightarrow> base \<subseteq> opened \<and> (\<forall>n. n \<in> opened - base \<longleftrightarrow> (\<exists>at. h at = Some n)) \<and>
     (\<forall>at at' n. h at = Some n \<longrightarrow> h at' = Some n \<longrightarrow> at = at')"

lemma ownership_take:
  assumes ok: "ownership_ok base h opened" and new: "n \<notin> opened" "h at = None"
  shows "ownership_ok base (h(at \<mapsto> n)) (insert n opened)"
proof -
  have "(\<exists>at'. (h(at \<mapsto> n)) at' = Some k) \<longleftrightarrow> k = n \<or> (\<exists>at'. h at' = Some k)" for k
    using new(2) by (metis fun_upd_apply option.distinct(1) option.inject)
  moreover have "h a \<noteq> Some n" for a using ok new(1) by (auto simp: ownership_ok_def)
  ultimately show ?thesis using ok new(1) by (auto simp: ownership_ok_def)
qed

lemma ownership_drop:
  assumes "ownership_ok base h opened"
  shows "ownership_ok base (h(at := None)) (opened - set_option (h at))"
proof -
  have "(\<exists>at'. (h(at := None)) at' = Some k) \<longleftrightarrow> (\<exists>at'. h at' = Some k) \<and> h at \<noteq> Some k" for k
    using assms unfolding ownership_ok_def by (metis fun_upd_apply option.distinct(1))
  then show ?thesis using assms by (auto simp: ownership_ok_def)
qed

lemma ownership_move:
  assumes "ownership_ok base h opened" "h at = None" "from \<noteq> at"
  shows "ownership_ok base (h(from := None, at := h from)) opened"
proof -
  have "(\<exists>at'. (h(from := None, at := h from)) at' = Some k) \<longleftrightarrow> (\<exists>at'. h at' = Some k)" for k
    using assms(2,3) by (metis fun_upd_apply option.distinct(1))
  then show ?thesis using assms by (auto simp: ownership_ok_def)
qed

lemma ownership_assign:
  assumes "ownership_ok base h opened" "from \<noteq> at"
  shows "ownership_ok base (h(from := None, at := h from)) (opened - set_option (h at))"
proof -
  have "h(from := None, at := h from) = (h(at := None))(from := None, at := (h(at := None)) from)"
    using assms(2) by (auto simp: fun_eq_iff)
  then show ?thesis using ownership_move[OF ownership_drop[OF assms(1), of at], of at "from"] assms(2) by simp
qed

lemma socket_step_ownership:
  assumes F: "unique_fd_ok F" and adm: "socket_adm x st" and ok: "ownership_ok base (held F st) (st_open st)"
  shows "ownership_ok base (held F (socket_step F x st)) (st_open (socket_step F x st))"
proof (cases x)
  case (OpOpen at a options)
  then have "oa_fd a \<notin> st_open st" "held F st at = None" using adm by (simp_all add: held_def)
  from ownership_take[OF ok this] held_open[OF F adm[unfolded OpOpen]] ok OpOpen show ?thesis by (elim disjE) simp_all
next
  case (OpBorrow at fd)
  then show ?thesis using held_borrow[OF F] adm ok by simp
next
  case (OpMove at "from")
  show ?thesis
  proof (cases "from = at")
    case True
    then show ?thesis using OpMove adm ok by simp
  next
    case False
    moreover have "held F st at = None" using OpMove adm by (simp add: held_def)
    ultimately show ?thesis using held_move[OF F, of st at "from"] ownership_move[OF ok] OpMove adm by simp
  qed
next
  case (OpAssign at "from")
  then show ?thesis using held_assign[OF F, of at "from" st] ownership_assign[OF ok, of "from" at] ok by (elim disjE) auto
next
  case (OpDestroy at)
  then show ?thesis using held_destroy[OF F, of at st] ownership_drop[OF ok, of at] by simp
qed

text \<open>\<open>fd()\<close> of an owner is the descriptor it owns.\<close>

definition fds_agree :: "'u fd_ops \<Rightarrow> 'u socket_store \<Rightarrow> bool" where
  "fds_agree F st \<longleftrightarrow> (\<forall>at s. st_objects st at = Some s \<longrightarrow> ownsDescriptor F s \<longrightarrow> rs_fd s = uf_get F (rs_ownedFd s))"

lemma socket_step_fds: "unique_fd_ok F \<Longrightarrow> fds_agree F st \<Longrightarrow> fds_agree F (socket_step F x st)"
  by (cases x)
     (auto simp: fds_agree_def ownsDescriptor_def route_open_def own_socket_def place_def borrow_socket_def move_socket_def
       assign_socket_def unique_fd_okD Let_def case_prod_beta split: option.splits if_splits)

lemma socket_run_ok:
  "unique_fd_ok F \<Longrightarrow> socket_run_adm F xs st \<Longrightarrow> ownership_ok base (held F st) (st_open st) \<Longrightarrow> fds_agree F st \<Longrightarrow>
   ownership_ok base (held F (socket_run F xs st)) (st_open (socket_run F xs st)) \<and> fds_agree F (socket_run F xs st)"
  by (induction F xs st rule: socket_run.induct) (auto intro: socket_step_ownership socket_step_fds)

definition no_sockets :: "int set \<Rightarrow> 'u socket_store" where
  "no_sockets base = \<lparr>st_open = base, st_objects = (\<lambda>_. None)\<rparr>"

text \<open>
  (C39) However sockets are opened, borrowed, moved, assigned and destroyed, each descriptor that \<open>open\<close> obtained and that is
  not closed has exactly one owner, whose \<open>fd()\<close> it is; no descriptor of others is
  closed; and when no socket is left all that were opened are closed.
\<close>

theorem socket_ownership:
  assumes "unique_fd_ok F" "socket_run_adm F xs (no_sockets base)" "st = socket_run F xs (no_sockets base)"
  shows "(\<forall>n. n \<in> st_open st - base \<longleftrightarrow> (\<exists>!at. held F st at = Some n)) \<and> base \<subseteq> st_open st \<and>
    (\<forall>at s. st_objects st at = Some s \<longrightarrow> ownsDescriptor F s \<longrightarrow> held F st at = Some (rs_fd s)) \<and>
    ((\<forall>at. st_objects st at = None) \<longrightarrow> st_open st = base)"
proof -
  have "ownership_ok base (held F (no_sockets base)) (st_open (no_sockets base))" "fds_agree F (no_sockets base)"
    by (simp_all add: ownership_ok_def held_def fds_agree_def no_sockets_def)
  from socket_run_ok[OF assms(1,2) this] assms(3)
  have ok: "ownership_ok base (held F st) (st_open st)" "fds_agree F st" by simp_all
  moreover have "held F st at = Some (rs_fd s)" if "st_objects st at = Some s" "ownsDescriptor F s" for at s
    using ok(2) that by (simp add: held_def fds_agree_def)
  moreover have "st_open st = base" if "\<forall>at. st_objects st at = None"
    using ok(1) that by (auto simp: ownership_ok_def held_def)
  ultimately show ?thesis unfolding ownership_ok_def by blast
qed

text \<open>A concrete descriptor holder, for evaluation.\<close>

definition plain_fd :: "int fd_ops" where
  "plain_fd = \<lparr>uf_new = (\<lambda>n. n), uf_empty = -1, uf_get = (\<lambda>n. n), uf_valid = (\<lambda>n. 0 \<le> n), uf_take = (\<lambda>n. (n, -1)),
     uf_close = (\<lambda>n. if 0 \<le> n then {n} else {})\<rparr>"

lemma plain_fd_ok: "unique_fd_ok plain_fd"
  by (simp add: unique_fd_ok_def plain_fd_def)

definition sample_ops :: "socket_op list" where
  "sample_ops = [OpOpen 0 \<lparr>oa_fd = 5, oa_errno = 0, oa_rcvbuf = False, oa_bind = 0\<rparr> default_open_options,
     OpBorrow 1 3, OpMove 2 0, OpAssign 1 2, OpDestroy 0, OpDestroy 2]"

theorem socket_ownership_witness:
  "held plain_fd (socket_run plain_fd sample_ops (no_sockets {3})) 1 = Some 5 \<and>
   5 \<in> st_open (socket_run plain_fd sample_ops (no_sockets {3})) - {3}"
proof -
  have "socket_run_adm plain_fd sample_ops (no_sockets {3})"
    by (simp add: sample_ops_def no_sockets_def route_open_def own_socket_def place_def borrow_socket_def move_socket_def
        assign_socket_def plain_fd_def default_open_options_def)
  moreover have "held plain_fd (socket_run plain_fd sample_ops (no_sockets {3})) at = Some 5 \<longleftrightarrow> at = 1" for at
    by (simp add: sample_ops_def no_sockets_def route_open_def own_socket_def place_def borrow_socket_def move_socket_def
        assign_socket_def plain_fd_def default_open_options_def held_def ownsDescriptor_def)
  ultimately show ?thesis using socket_ownership[OF plain_fd_ok _ refl] by metis
qed

text \<open>
  A constructor that throws leaves no descriptor behind, and one that succeeds holds the new descriptor, for
  the live loop with the multicast groups of links, addresses and neighbours joined.
\<close>

lemma construction_exact:
  assumes "unique_fd_ok F" "oa_fd a \<notin> opened" "r = construct_with F hasHandler (route_open F a options opened)"
  shows "case fst r of
      Inl e \<Rightarrow> snd (snd r) = opened
    | Inr s \<Rightarrow> hasHandler \<and> ownsDescriptor F s \<and> rs_fd s = oa_fd a \<and> snd (snd r) = insert (oa_fd a) opened \<and>
             CallBind (oa_fd a) (oo_groups options) \<in> set (fst (snd r))"
  unfolding assms(3) using assms(2)
  by (auto simp: construct_with_def validateHandler_def route_open_def own_socket_def ownsDescriptor_def Let_def
      case_prod_beta unique_fd_okD[OF assms(1)])

end
