(* ===== verification/Monitor_Worker.thy ===== *)
theory Monitor_Worker
  imports Netlink_Monitor
begin

text \<open>
  The live worker of \<open>inputs/netlink/NetlinkNetworkMonitor.cpp\<close>: what it runs, how its end is recorded, how
  \<open>stop\<close> wakes it, and the steps of \<open>stop\<close>, \<open>requestRedump\<close> and the worker that may interleave while
  an epoch ends. The thread itself belongs to \<open>ManagedWorker\<close>: the reason it gives for the end of its
  function is an argument of the exit handler. An \<open>EventFdSignal\<close> is read through what the code relies on: it is
  readable from \<open>signal\<close> to \<open>drain\<close>.
\<close>

section \<open>Names of the results\<close>

fun loop_statusName :: "loop_status \<Rightarrow> string" where
  "loop_statusName LoopStopped = ''stopped''"
| "loop_statusName LoopPollFailed = ''poll_failed''"
| "loop_statusName LoopReceiveFailed = ''receive_failed''"
| "loop_statusName LoopMalformedMessage = ''malformed_message''"
| "loop_statusName LoopTruncatedMessage = ''truncated_message''"
| "loop_statusName LoopSocketOverrun = ''socket_overrun''"
| "loop_statusName LoopStopDrainFailed = ''stop_drain_failed''"

fun dump_statusName :: "dump_status \<Rightarrow> string" where
  "dump_statusName DumpCompleted = ''completed''"
| "dump_statusName DumpCancelled = ''interrupted''"
| "dump_statusName DumpIntr = ''dump_interrupted''"
| "dump_statusName DumpSendFailed = ''send_failed''"
| "dump_statusName DumpPollFailed = ''poll_failed''"
| "dump_statusName DumpReceiveFailed = ''receive_failed''"
| "dump_statusName DumpMalformedMessage = ''malformed_message''"
| "dump_statusName DumpKernelError = ''kernel_error''"
| "dump_statusName DumpStopDrainFailed = ''stop_drain_failed''"

lemma loop_statusName_inj: "inj loop_statusName"
proof (rule injI)
  fix a b assume "loop_statusName a = loop_statusName b"
  then show "a = b" by (cases a; cases b) simp_all
qed

lemma dump_statusName_inj: "inj dump_statusName"
proof (rule injI)
  fix a b assume "dump_statusName a = dump_statusName b"
  then show "a = b" by (cases a; cases b) simp_all
qed


section \<open>The worker function and its end\<close>

datatype worker_throw = WorkerLogicError | WorkerSystemError int string

definition runLiveLoop ::
  "int \<Rightarrow> monitor_run message_handler \<Rightarrow> os_script \<Rightarrow> monitor_run
     \<Rightarrow> (read_fault + (worker_throw + unit) \<times> monitor_run \<times> os_script) option" where
  "runLiveLoop fd handler os run =
     (if \<not> mo_resources (fst run) then Some (Inr (Inl WorkerLogicError, run, os))
      else (case event_loop_run fd handler os run of
              None \<Rightarrow> None
            | Some (Inl fault) \<Rightarrow> Some (Inl fault)
            | Some (Inr ((status, error), run', os')) \<Rightarrow>
                Some (Inr (if status = LoopStopped then Inr ()
                           else Inl (WorkerSystemError (if error \<noteq> 0 then error else errno_EIO)
                                       (''NetlinkEventLoop: '' @ loop_statusName status)),
                           run', os'))))"

datatype exit_reason = ReasonReturned | ReasonException | ReasonOther
datatype lifecycle_phase = PhaseStopped | PhaseStarting | PhaseRunning | PhaseStopping

definition onWorkerExit :: "exit_reason \<Rightarrow> lifecycle_phase \<Rightarrow> monitor \<Rightarrow> monitor" where
  "onWorkerExit reason phase m =
     (if reason = ReasonException then m\<lparr>mo_workerFailed := True\<rparr>
      else if reason = ReasonReturned \<and> (phase = PhaseStarting \<or> phase = PhaseRunning)
      then m\<lparr>mo_workerFailed := True\<rparr>
      else m)"


section \<open>Waking the worker\<close>

text \<open>
  \<open>LOG(FATAL)\<close> ends the process: \<open>SignalAborted\<close>. The answers of \<open>stopSignal_->signal()\<close> are a script, as for the
  system calls; the answer of \<open>redumpStopSignal_->signal()\<close> is not looked at.
\<close>

datatype signal_outcome = SignalDone | SignalAborted

fun signal_loop :: "int list \<Rightarrow> (signal_outcome \<times> int list) option" where
  "signal_loop [] = None"
| "signal_loop (error # errors) =
     (if error = 0 then Some (SignalDone, errors)
      else if error = errno_EINTR then signal_loop errors
      else Some (SignalAborted, errors))"

definition signalStop :: "int list \<Rightarrow> monitor \<Rightarrow> (signal_outcome \<times> int list) option" where
  "signalStop errors m = (if \<not> mo_resources m then Some (SignalAborted, errors) else signal_loop errors)"

definition stopWorkerDuringStartupRollback :: "bool \<Rightarrow> monitor \<Rightarrow> monitor option" where
  "stopWorkerDuringStartupRollback stopThrows m =
     (if stopThrows then None else Some (m\<lparr>mo_workerRunning := False\<rparr>))"

definition monitor_getDevicesSnapshot :: "monitor \<Rightarrow> device_event list" where
  "monitor_getDevicesSnapshot m = getDevicesSnapshot (mo_state m)"

definition monitor_getLinksSnapshot :: "monitor \<Rightarrow> link_event list" where
  "monitor_getLinksSnapshot m = getLinksSnapshot (mo_state m)"


section \<open>The end of an epoch, step by step\<close>

text \<open>
  Where the thread in \<open>stop\<close> is, and where the redump is that has claimed \<open>redumpInFlight_\<close>. Callers of
  \<open>requestRedump\<close> that have seen the lifecycle running and not yet tried the claim are counted.
\<close>

datatype stop_pc =
    StopIdle | StopBegun | StopRedumpSignalled | StopSignalled | StopJoined | StopWaited | StopClosing | StopDone
datatype redump_pc = RedumpNone | RedumpClaimed | RedumpPolling

record epoch =
  ep_phase :: lifecycle_phase
  ep_open :: bool
  ep_stopFd :: bool
  ep_redumpFd :: bool
  ep_worker :: bool
  ep_stop :: stop_pc
  ep_checked :: nat
  ep_redump :: redump_pc

definition running_epoch :: epoch where
  "running_epoch = \<lparr>ep_phase = PhaseRunning, ep_open = True, ep_stopFd = False, ep_redumpFd = False,
     ep_worker = True, ep_stop = StopIdle, ep_checked = 0, ep_redump = RedumpNone\<rparr>"

definition redumpInFlight :: "epoch \<Rightarrow> bool" where
  "redumpInFlight s \<longleftrightarrow> ep_redump s \<noteq> RedumpNone"

text \<open>
  The atomic steps. With \<open>joined\<close> the caller of \<open>stop\<close> has joined the threads that call \<open>requestRedump\<close>
  before it stops the monitor, as \<open>ObservationService::stop\<close> does.
\<close>

inductive monitor_epoch_step :: "bool \<Rightarrow> epoch \<Rightarrow> epoch \<Rightarrow> bool" for joined :: bool where
  beginStop: "ep_phase s = PhaseRunning \<Longrightarrow> (joined \<longrightarrow> ep_checked s = 0 \<and> \<not> redumpInFlight s) \<Longrightarrow>
    monitor_epoch_step joined s (s\<lparr>ep_phase := PhaseStopping, ep_stop := StopBegun\<rparr>)"
| signalRedump: "ep_stop s = StopBegun \<Longrightarrow>
    monitor_epoch_step joined s (s\<lparr>ep_redumpFd := True, ep_stop := StopRedumpSignalled\<rparr>)"
| signalLive: "ep_stop s = StopRedumpSignalled \<Longrightarrow>
    monitor_epoch_step joined s (s\<lparr>ep_stopFd := True, ep_stop := StopSignalled\<rparr>)"
| workerStops: "ep_worker s \<Longrightarrow> ep_stopFd s \<Longrightarrow>
    monitor_epoch_step joined s (s\<lparr>ep_worker := False, ep_stopFd := False\<rparr>)"
| workerFails: "ep_worker s \<Longrightarrow> monitor_epoch_step joined s (s\<lparr>ep_worker := False\<rparr>)"
| joinWorker: "ep_stop s = StopSignalled \<Longrightarrow> \<not> ep_worker s \<Longrightarrow> monitor_epoch_step joined s (s\<lparr>ep_stop := StopJoined\<rparr>)"
| waitRedump: "ep_stop s = StopJoined \<Longrightarrow> \<not> redumpInFlight s \<Longrightarrow> monitor_epoch_step joined s (s\<lparr>ep_stop := StopWaited\<rparr>)"
| waitRedumpAgain: "ep_stop s = StopWaited \<Longrightarrow> \<not> redumpInFlight s \<Longrightarrow>
    monitor_epoch_step joined s (s\<lparr>ep_stop := StopClosing\<rparr>)"
| closeDown: "ep_stop s = StopClosing \<Longrightarrow>
    monitor_epoch_step joined s (s\<lparr>ep_open := False, ep_stopFd := False, ep_redumpFd := False,
      ep_phase := PhaseStopped, ep_stop := StopDone\<rparr>)"
| redumpCheck: "ep_phase s = PhaseRunning \<Longrightarrow> monitor_epoch_step joined s (s\<lparr>ep_checked := Suc (ep_checked s)\<rparr>)"
| redumpRefused: "ep_checked s = Suc n \<Longrightarrow> redumpInFlight s \<Longrightarrow> monitor_epoch_step joined s (s\<lparr>ep_checked := n\<rparr>)"
| redumpClaim: "ep_checked s = Suc n \<Longrightarrow> \<not> redumpInFlight s \<Longrightarrow>
    monitor_epoch_step joined s (s\<lparr>ep_checked := n, ep_redump := RedumpClaimed\<rparr>)"
| redumpOpen: "ep_redump s = RedumpClaimed \<Longrightarrow> ep_open s \<Longrightarrow> monitor_epoch_step joined s (s\<lparr>ep_redump := RedumpPolling\<rparr>)"
| redumpClosed: "ep_redump s = RedumpClaimed \<Longrightarrow> \<not> ep_open s \<Longrightarrow> monitor_epoch_step joined s (s\<lparr>ep_redump := RedumpNone\<rparr>)"
| redumpStops: "ep_redump s = RedumpPolling \<Longrightarrow> ep_redumpFd s \<Longrightarrow>
    monitor_epoch_step joined s (s\<lparr>ep_redump := RedumpNone, ep_redumpFd := False\<rparr>)"
| redumpEnds: "ep_redump s = RedumpPolling \<Longrightarrow> monitor_epoch_step joined s (s\<lparr>ep_redump := RedumpNone\<rparr>)"

abbreviation epoch_reach :: "bool \<Rightarrow> epoch \<Rightarrow> bool" where
  "epoch_reach joined \<equiv> (monitor_epoch_step joined)\<^sup>*\<^sup>* running_epoch"

end
