(* ===== verification/Monitor_Properties.thy ===== *)
theory Monitor_Properties
  imports Monitor_Worker
begin

text \<open>
  The end of a monitor epoch over the steps of \<open>Monitor_Worker\<close>: \<open>stop\<close> ends in every interleaving, and the
  signal a redump polls outlives it when the callers of \<open>requestRedump\<close> are joined first, and not otherwise.
\<close>

section \<open>Stopping ends\<close>

fun stop_rank :: "stop_pc \<Rightarrow> nat" where
  "stop_rank StopIdle = 7"
| "stop_rank StopBegun = 6"
| "stop_rank StopRedumpSignalled = 5"
| "stop_rank StopSignalled = 4"
| "stop_rank StopJoined = 3"
| "stop_rank StopWaited = 2"
| "stop_rank StopClosing = 1"
| "stop_rank StopDone = 0"

fun redump_rank :: "redump_pc \<Rightarrow> nat" where
  "redump_rank RedumpNone = 0"
| "redump_rank RedumpClaimed = 2"
| "redump_rank RedumpPolling = 1"

definition epoch_left :: "epoch \<Rightarrow> nat" where
  "epoch_left s = stop_rank (ep_stop s) + (if ep_worker s then 1 else 0) + 3 * ep_checked s + redump_rank (ep_redump s)"

definition epoch_ok :: "epoch \<Rightarrow> bool" where
  "epoch_ok s \<longleftrightarrow>
     (ep_phase s = PhaseRunning \<longleftrightarrow> ep_stop s = StopIdle) \<and> (ep_open s \<longleftrightarrow> ep_stop s \<noteq> StopDone) \<and>
     (ep_stop s = StopSignalled \<longrightarrow> ep_worker s \<longrightarrow> ep_stopFd s) \<and>
     (ep_stop s \<in> {StopJoined, StopWaited, StopClosing, StopDone} \<longrightarrow> \<not> ep_worker s)"

lemma epoch_ok_step: "monitor_epoch_step joined s s' \<Longrightarrow> epoch_ok s \<Longrightarrow> epoch_ok s'"
  by (induction rule: monitor_epoch_step.induct) (auto simp: epoch_ok_def)

lemma epoch_ok_steps: "(monitor_epoch_step joined)\<^sup>*\<^sup>* s s' \<Longrightarrow> epoch_ok s \<Longrightarrow> epoch_ok s'"
  by (induction rule: rtranclp_induct) (auto intro: epoch_ok_step)

lemma running_epoch_ok: "epoch_ok running_epoch"
  by (simp add: epoch_ok_def running_epoch_def)

text \<open>Once \<open>stop\<close> has begun every step of any thread is one step nearer to the end.\<close>

lemma epoch_left_decreases:
  "monitor_epoch_step joined s s' \<Longrightarrow> epoch_ok s \<Longrightarrow> ep_stop s \<noteq> StopIdle \<Longrightarrow> epoch_left s' < epoch_left s \<and> ep_stop s' \<noteq> StopIdle"
  by (induction rule: monitor_epoch_step.induct) (auto simp: epoch_ok_def epoch_left_def redumpInFlight_def)

lemma stopping_steps:
  "(monitor_epoch_step joined)\<^sup>*\<^sup>* s s' \<Longrightarrow> epoch_ok s \<Longrightarrow> ep_stop s \<noteq> StopIdle \<Longrightarrow> ep_stop s' \<noteq> StopIdle"
  by (induction rule: rtranclp_induct) (auto dest: epoch_left_decreases epoch_ok_steps)

lemma epoch_no_infinite_run:
  assumes "epoch_ok (run 0)" "ep_stop (run 0) \<noteq> StopIdle" "\<And>i. monitor_epoch_step joined (run i) (run (Suc i))"
  shows False
proof -
  have ok: "epoch_ok (run i) \<and> ep_stop (run i) \<noteq> StopIdle" for i
    by (induction i) (use assms epoch_ok_step epoch_left_decreases in blast)+
  then have "epoch_left (run (Suc i)) < epoch_left (run i)" for i using epoch_left_decreases assms(3) by blast
  then have "epoch_left (run i) + i \<le> epoch_left (run 0)" for i
    by (induction i) (simp, metis Suc_leI add_Suc_right add_Suc le_trans add_le_mono1)
  from this[of "Suc (epoch_left (run 0))"] show False by simp
qed

lemma epoch_stuck_done:
  assumes "epoch_ok s" "ep_stop s \<noteq> StopIdle" "\<nexists>s'. monitor_epoch_step joined s s'"
  shows "ep_stop s = StopDone \<and> \<not> ep_worker s \<and> \<not> redumpInFlight s \<and> ep_checked s = 0"
proof -
  have none: "\<not> redumpInFlight s"
    using assms(3) monitor_epoch_step.redumpOpen monitor_epoch_step.redumpClosed monitor_epoch_step.redumpEnds
    by (metis redumpInFlight_def redump_pc.exhaust)
  moreover have "ep_checked s = 0"
    using assms(3) none monitor_epoch_step.redumpClaim by (metis not0_implies_Suc)
  moreover have "\<not> ep_worker s" using assms(3) monitor_epoch_step.workerFails by blast
  moreover have "ep_stop s = StopDone"
    using assms(2,3) none \<open>\<not> ep_worker s\<close> monitor_epoch_step.intros(2,3,6,7,8,9)[of s joined]
    by (cases "ep_stop s") blast+
  ultimately show ?thesis by simp
qed


text \<open>A stop that finds a redump polling, to the wake of the worker.\<close>

definition redump_running :: epoch where
  "redump_running = running_epoch\<lparr>ep_redump := RedumpPolling\<rparr>"

definition stop_begun :: epoch where
  "stop_begun = redump_running\<lparr>ep_phase := PhaseStopping, ep_stop := StopBegun\<rparr>"

definition worker_signalled :: epoch where
  "worker_signalled = stop_begun\<lparr>ep_redumpFd := True, ep_stopFd := True, ep_stop := StopSignalled\<rparr>"

lemma redump_running_reach: "epoch_reach joined redump_running"
proof -
  have "(monitor_epoch_step joined)\<^sup>*\<^sup>* running_epoch (running_epoch\<lparr>ep_checked := 1\<rparr>)"
    using monitor_epoch_step.redumpCheck[of running_epoch joined] by (simp add: running_epoch_def)
  moreover have "monitor_epoch_step joined (running_epoch\<lparr>ep_checked := 1\<rparr>) (running_epoch\<lparr>ep_redump := RedumpClaimed\<rparr>)"
    using monitor_epoch_step.redumpClaim[of "running_epoch\<lparr>ep_checked := 1\<rparr>" 0 joined]
    by (simp add: running_epoch_def redumpInFlight_def)
  moreover have "monitor_epoch_step joined (running_epoch\<lparr>ep_redump := RedumpClaimed\<rparr>) redump_running"
    using monitor_epoch_step.redumpOpen[of "running_epoch\<lparr>ep_redump := RedumpClaimed\<rparr>" joined]
    by (simp add: running_epoch_def redump_running_def)
  ultimately show ?thesis by (meson rtranclp.rtrancl_into_rtrancl)
qed

lemma stop_begun_reach: "epoch_reach False stop_begun"
  using redump_running_reach[of False] monitor_epoch_step.beginStop[of redump_running False]
  by (simp add: stop_begun_def redump_running_def running_epoch_def rtranclp.rtrancl_into_rtrancl)

lemma worker_signalled_steps: "(monitor_epoch_step False)\<^sup>*\<^sup>* stop_begun worker_signalled"
  using monitor_epoch_step.signalRedump[of stop_begun False]
    monitor_epoch_step.signalLive[of "stop_begun\<lparr>ep_redumpFd := True, ep_stop := StopRedumpSignalled\<rparr>" False]
  by (simp add: stop_begun_def worker_signalled_def redump_running_def running_epoch_def)



section \<open>The signal a redump polls\<close>

definition redump_quiet :: "epoch \<Rightarrow> bool" where
  "redump_quiet s \<longleftrightarrow> epoch_ok s \<and> (ep_stop s \<noteq> StopIdle \<longrightarrow> ep_checked s = 0 \<and> \<not> redumpInFlight s)"

lemma redump_quiet_step: "monitor_epoch_step True s s' \<Longrightarrow> redump_quiet s \<Longrightarrow> redump_quiet s'"
proof -
  assume step: "monitor_epoch_step True s s'" and quiet: "redump_quiet s"
  from step quiet epoch_ok_step[OF step] show "redump_quiet s'"
    by (cases rule: monitor_epoch_step.cases) (auto simp: redump_quiet_def redumpInFlight_def epoch_ok_def)
qed

lemma redump_quiet_reach: "epoch_reach True s \<Longrightarrow> redump_quiet s"
proof (induction rule: rtranclp_induct)
  case base
  then show ?case by (simp add: redump_quiet_def running_epoch_ok) (simp add: running_epoch_def)
qed (rule redump_quiet_step)

text \<open>A caller that has passed the lifecycle check claims between the last wait of \<open>closeResources\<close> and the reset.\<close>

lemma redump_race:
  defines "closing \<equiv> running_epoch\<lparr>ep_phase := PhaseStopping, ep_redumpFd := True, ep_worker := False,
      ep_checked := 1, ep_stop := StopClosing\<rparr>"
  shows "epoch_reach False closing"
    and "(monitor_epoch_step False)\<^sup>*\<^sup>* closing (closing\<lparr>ep_checked := 0, ep_redump := RedumpPolling, ep_open := False,
      ep_redumpFd := False, ep_phase := PhaseStopped, ep_stop := StopDone\<rparr>)"
proof -
  let ?s1 = "running_epoch\<lparr>ep_checked := 1\<rparr>"
  let ?s2 = "?s1\<lparr>ep_phase := PhaseStopping, ep_stop := StopBegun\<rparr>"
  let ?s3 = "?s2\<lparr>ep_redumpFd := True, ep_stop := StopRedumpSignalled\<rparr>"
  let ?s4 = "?s3\<lparr>ep_stopFd := True, ep_stop := StopSignalled\<rparr>"
  let ?s5 = "?s4\<lparr>ep_worker := False, ep_stopFd := False\<rparr>"
  let ?s6 = "?s5\<lparr>ep_stop := StopJoined\<rparr>"
  let ?s7 = "?s6\<lparr>ep_stop := StopWaited\<rparr>"
  note defs = running_epoch_def redumpInFlight_def closing_def
  have "monitor_epoch_step False running_epoch ?s1" using monitor_epoch_step.redumpCheck[of running_epoch] by (simp add: defs)
  moreover have "monitor_epoch_step False ?s1 ?s2" using monitor_epoch_step.beginStop[of ?s1 False] by (simp add: defs)
  moreover have "monitor_epoch_step False ?s2 ?s3" using monitor_epoch_step.signalRedump[of ?s2] by (simp add: defs)
  moreover have "monitor_epoch_step False ?s3 ?s4" using monitor_epoch_step.signalLive[of ?s3] by (simp add: defs)
  moreover have "monitor_epoch_step False ?s4 ?s5" using monitor_epoch_step.workerStops[of ?s4] by (simp add: defs)
  moreover have "monitor_epoch_step False ?s5 ?s6" using monitor_epoch_step.joinWorker[of ?s5] by (simp add: defs)
  moreover have "monitor_epoch_step False ?s6 ?s7" using monitor_epoch_step.waitRedump[of ?s6] by (simp add: defs)
  moreover have "monitor_epoch_step False ?s7 closing" using monitor_epoch_step.waitRedumpAgain[of ?s7] by (simp add: defs)
  ultimately show "epoch_reach False closing" by (meson converse_rtranclp_into_rtranclp rtranclp.rtrancl_refl)
  let ?c1 = "closing\<lparr>ep_checked := 0, ep_redump := RedumpClaimed\<rparr>"
  let ?c2 = "closing\<lparr>ep_checked := 0, ep_redump := RedumpPolling\<rparr>"
  have "monitor_epoch_step False closing ?c1" using monitor_epoch_step.redumpClaim[of closing 0] by (simp add: defs)
  moreover have "monitor_epoch_step False ?c1 ?c2" using monitor_epoch_step.redumpOpen[of ?c1] by (simp add: defs)
  moreover have "monitor_epoch_step False ?c2 (closing\<lparr>ep_checked := 0, ep_redump := RedumpPolling, ep_open := False,
      ep_redumpFd := False, ep_phase := PhaseStopped, ep_stop := StopDone\<rparr>)"
    using monitor_epoch_step.closeDown[of ?c2] by (simp add: defs)
  ultimately show "(monitor_epoch_step False)\<^sup>*\<^sup>* closing (closing\<lparr>ep_checked := 0, ep_redump := RedumpPolling, ep_open := False,
      ep_redumpFd := False, ep_phase := PhaseStopped, ep_stop := StopDone\<rparr>)"
    by (meson converse_rtranclp_into_rtranclp rtranclp.rtrancl_refl)
qed



end
