(* ===== verification/Supervision_Properties.thy ===== *)
theory Supervision_Properties
  imports Monitor_Worker Runtime_Properties Observation_Service
begin

text \<open>
  The loss of the live Netlink worker, from the result of the event loop through the exit handler, the supervision
  ticks and the health poll to the issue a client reads.
\<close>

section \<open>A tick keeps the record of the loss\<close>

lemma on_parsed_worker: "mo_workerFailed (fst (on_parsed ev mr)) = mo_workerFailed (fst mr)"
  by (cases ev; cases mr)
     (simp_all add: onLinkCallback_def onIpCallback_def onFdbCallback_def onNeighCallback_def case_prod_beta Let_def)

lemma parsed_worker: "mo_workerFailed (fst (fold on_parsed events mr)) = mo_workerFailed (fst mr)"
  by (induction events arbitrary: mr) (simp_all add: on_parsed_worker)

lemma handler_keeps_worker:
  "handler_keeps (\<lambda>mr. mo_workerFailed (fst mr) = b) (processSingleMessage indextoname ntop)"
proof -
  have "fold on_parsed events (m, outs) = (m', outs') \<Longrightarrow> mo_workerFailed m' = mo_workerFailed m" for events m outs m' outs'
    using parsed_worker[of events "(m, outs)"] by simp
  then show ?thesis by (fastforce simp: handler_keeps_def processSingleMessage_def)
qed

lemma dump_worker:
  assumes "initial_dump_run fd (processSingleMessage ix nt) os mr = Some (Inr (res, mr', d, os'))"
  shows "mo_workerFailed (fst mr') = mo_workerFailed (fst mr)"
  using assms unfolding initial_dump_run_def by (rule run_requests_keeps[OF handler_keeps_worker refl])

lemma requestRedump_worker:
  assumes "requestRedump ix nt fd thr running throws os (m, outs) = Some (Inr (ok, (m', outs'), os'))"
  shows "mo_workerFailed m' = mo_workerFailed m"
proof -
  let ?m1 = "m\<lparr>mo_redumpInFlight := True, mo_state := netlink_clear (mo_state m)\<rparr>"
  have "m' = m \<or> m' = ?m1\<lparr>mo_redumpInFlight := False\<rparr> \<or>
    (\<exists>res m2 d. initial_dump_run fd (processSingleMessage ix nt) os (?m1, outs) = Some (Inr (res, (m2, outs'), d, os'))
       \<and> m' = m2\<lparr>mo_redumpInFlight := False\<rparr>)"
    using assms unfolding requestRedump_def Let_def
    by (auto split: if_split_asm option.split_asm sum.split_asm prod.split_asm)
  then show ?thesis by (auto dest: dump_worker)
qed

lemma runtime_sink_monitor: "rt_monitor (runtime_sink Q lease now call rt) = rt_monitor rt"
  by (cases call) (auto simp: push_netlink_def case_prod_beta Let_def frame_simps split: option.split)

lemma forward_monitor: "rt_monitor (forward_outputs Q lease now outs rt) = rt_monitor rt"
proof -
  have "rt_monitor (fold (runtime_sink Q lease now) calls rt) = rt_monitor rt" for calls
    by (induction calls arbitrary: rt) (simp_all add: runtime_sink_monitor)
  then show ?thesis by (simp add: forward_outputs_def)
qed

lemma reconnect_monitor: "rt_monitor (fst (reconnectLldp Q a ob now rt)) = rt_monitor rt"
  by (simp add: reconnectLldp_def Let_def case_prod_beta frame_simps)

lemma retry_monitor: "rt_monitor (supervise_retry Q a now rt) = rt_monitor rt"
  by (simp add: supervise_retry_def Let_def case_prod_beta frame_simps)

lemma probe_monitor: "rt_monitor (supervise_probe Q a ob now rt) = rt_monitor rt"
  by (simp add: supervise_probe_def Let_def reconnect_monitor)

lemma supervise_monitor: "rt_monitor (superviseLldp Q a now rt) = rt_monitor rt"
  by (auto simp: superviseLldp_def Let_def case_prod_beta retry_monitor probe_monitor reconnect_monitor split: option.split)

lemma reassert_monitor: "rt_monitor (reassertLldpNeighbors Q a now rt) = rt_monitor rt"
  by (simp add: reassertLldpNeighbors_def frame_simps split: option.split)

lemma resync_lldp_monitor: "rt_monitor (resync_lldp Q a now rt) = rt_monitor rt"
  by (simp add: resync_lldp_def case_prod_beta reconnect_monitor split: option.split)

lemmas monitor_frame = forward_monitor supervise_monitor reassert_monitor resync_lldp_monitor

definition netlink_lost :: "'q runtime \<Rightarrow> bool" where
  "netlink_lost rt \<longleftrightarrow> (\<exists>m. rt_monitor rt = Some m \<and> mo_workerFailed m)"

lemma resync_netlink_lost:
  "resync_netlink Q a r now rt = Some (Inr (rt', ok)) \<Longrightarrow> netlink_lost rt \<Longrightarrow> netlink_lost rt'"
  by (auto simp: resync_netlink_def netlink_lost_def Let_def forward_monitor dest: requestRedump_worker
      split: option.splits sum.splits prod.splits if_splits)

lemma performResync_lost:
  "performResync Q a r now rt = Some (Inr rt') \<Longrightarrow> netlink_lost rt \<Longrightarrow> netlink_lost rt'"
proof -
  assume run: "performResync Q a r now rt = Some (Inr rt')" and lost: "netlink_lost rt"
  define rt1 where "rt1 = rt\<lparr>rt_queue := fst (takeResyncMask (rt_queue rt))\<rparr>"
  have "netlink_lost rt1" using lost by (simp add: rt1_def netlink_lost_def)
  moreover have "netlink_lost rt2 \<Longrightarrow> netlink_lost (resync_lldp Q a now rt2)" for rt2
    by (simp add: netlink_lost_def resync_lldp_monitor)
  ultimately show ?thesis
    using run by (auto simp: performResync_def Let_def rt1_def dest: resync_netlink_lost
        split: prod.splits option.splits sum.splits if_splits)
qed

lemma tick_lost: "tick Q a r now rt = Some (Inr rt') \<Longrightarrow> netlink_lost rt \<Longrightarrow> netlink_lost rt'"
  by (auto simp: tick_def netlink_lost_def monitor_frame dest!: performResync_lost)

lemma supervision_lost:
  "supervisionLoop Q rounds rt = Some (Inr rt') \<Longrightarrow> netlink_lost rt \<Longrightarrow> netlink_lost rt'"
  by (induction Q rounds rt rule: supervisionLoop.induct)
     (auto split: if_splits option.splits sum.splits dest: tick_lost)


section \<open>The loss is reported\<close>

lemma runLiveLoop_failed:
  assumes "runLiveLoop fd handler os mr = Some (Inr (Inl e, mr', os'))" "mo_resources (fst mr)"
  shows "\<exists>status error. status \<noteq> LoopStopped \<and> event_loop_run fd handler os mr = Some (Inr ((status, error), mr', os')) \<and>
    e = WorkerSystemError (if error \<noteq> 0 then error else errno_EIO) (''NetlinkEventLoop: '' @ loop_statusName status)"
  using assms by (auto simp: runLiveLoop_def split: option.splits sum.splits prod.splits if_splits)

lemma lost_not_running: "netlink_lost rt \<Longrightarrow> \<not> runtime_isRunning running rt"
  by (auto simp: netlink_lost_def runtime_isRunning_def monitor_isRunning_def)

lemma reported_issue:
  "omap_ok issues \<Longrightarrow> map_of (fst (obs_reportIssue dg code sev cpt opn cat ident msg issues)) code = Some
    [(''category'', dg_sanitizeField dg cat), (''component'', dg_sanitizeField dg cpt),
     (''identity'', dg_sanitizeField dg ident), (''message'', dg_sanitizeMessage dg msg),
     (''operation'', dg_sanitizeField dg opn), (''severity'', dg_sanitizeField dg sev)]"
proof -
  have "oput ''message'' f4 (oput ''identity'' f3 (oput ''category'' f1 (oput ''operation'' f5 (oput ''component'' f2
      (oput ''severity'' f6 []))))) = [(''category'', f1), (''component'', f2), (''identity'', f3),
      (''message'', f4), (''operation'', f5), (''severity'', f6)]" for f1 f2 f3 f4 f5 f6 :: string
    by simp
  then show "omap_ok issues \<Longrightarrow> ?thesis" by (auto simp: obs_reportIssue_def Let_def map_of_oput simp del: oput.simps)
qed

lemma other_issue:
  "omap_ok issues \<Longrightarrow> code \<noteq> code' \<Longrightarrow> map_of (fst (obs_reportIssue dg code' sev cpt opn cat ident msg issues)) code = map_of issues code"
  "code \<noteq> code' \<Longrightarrow> map_of (fst (obs_clearIssue code' issues)) code = map_of issues code"
  by (simp_all add: obs_reportIssue_def obs_clearIssue_def Let_def map_of_oput map_of_oerase del: oput.simps)

lemma stopped_issue:
  assumes "\<not> rh_running h" "omap_ok issues"
  shows "map_of (refreshRuntimeIssues dg h issues) ISSUE_CODE_RUNTIME_STOPPED = Some
    [(''category'', dg_sanitizeField dg ''runtime_stopped''), (''component'', dg_sanitizeField dg ''runtime''),
     (''identity'', dg_sanitizeField dg ''runtime''), (''message'', dg_sanitizeMessage dg ''runtime is not running''),
     (''operation'', dg_sanitizeField dg ''poll_health''), (''severity'', dg_sanitizeField dg ''error'')]"
proof -
  have "ISSUE_CODE_RUNTIME_STOPPED \<noteq> ISSUE_CODE_LLDP_UNAVAILABLE"
    by (simp add: ISSUE_CODE_RUNTIME_STOPPED_def ISSUE_CODE_LLDP_UNAVAILABLE_def)
  moreover have "omap_ok (fst (obs_reportIssue dg code sev cpt opn cat ident msg issues))" for code sev cpt opn cat ident msg
    using assms(2) by (simp add: obs_reportIssue_def Let_def omap_ok_oput del: oput.simps)
  ultimately show ?thesis using assms by (simp add: refreshRuntimeIssues_def Let_def other_issue reported_issue)
qed

text \<open>
  (C38) When the live Netlink loop ends other than by a stop request, an overrun of the socket included, the worker
  throws a system error with a code that is not zero. Given that the worker reports an exception as such,
  the monitor is then not running, no number of supervision ticks makes the runtime run
  again, and every later health poll puts the issue \<open>observation.runtime.stopped\<close> of severity
  error into the table.
\<close>

theorem netlink_loss_reported:
  assumes "runLiveLoop fd handler os (m, outs) = Some (Inr (Inl e, (m', outs'), os'))" "mo_resources m"
    and "reason = ReasonException"
    and "rt_monitor rt = Some (onWorkerExit reason phase m')"
    and "supervisionLoop Q rounds rt = Some (Inr rt')" "omap_ok issues"
  shows "(\<exists>error status. status \<noteq> LoopStopped \<and> error \<noteq> 0 \<and>
           e = WorkerSystemError error (''NetlinkEventLoop: '' @ loop_statusName status)) \<and>
    \<not> runtime_isRunning running rt' \<and>
    map_of (refreshRuntimeIssues dg (runtime_health_of running rt') issues) ISSUE_CODE_RUNTIME_STOPPED = Some
      [(''category'', dg_sanitizeField dg ''runtime_stopped''), (''component'', dg_sanitizeField dg ''runtime''),
       (''identity'', dg_sanitizeField dg ''runtime''), (''message'', dg_sanitizeMessage dg ''runtime is not running''),
       (''operation'', dg_sanitizeField dg ''poll_health''), (''severity'', dg_sanitizeField dg ''error'')]"
proof -
  have "netlink_lost rt" using assms(3,4) by (simp add: netlink_lost_def onWorkerExit_def)
  then have lost: "\<not> runtime_isRunning running rt'" using supervision_lost[OF assms(5)] lost_not_running by blast
  obtain status error where "status \<noteq> LoopStopped"
      "e = WorkerSystemError (if error \<noteq> 0 then error else errno_EIO) (''NetlinkEventLoop: '' @ loop_statusName status)"
    using runLiveLoop_failed[OF assms(1)] assms(2) by auto
  moreover have "(if error \<noteq> 0 then error else errno_EIO) \<noteq> 0" by (simp add: errno_EIO_def)
  ultimately show ?thesis using lost stopped_issue[of "runtime_health_of running rt'" issues] assms(6)
    by (auto simp: runtime_health_of_def)
qed

text \<open>A socket overrun: the kernel answers \<open>recvmsg\<close> with \<open>ENOBUFS\<close>.\<close>

definition overrun_script :: os_script where
  "overrun_script = \<lparr>os_polls = [PollRevents POLLIN 0], os_drains = [], os_recvs = [RecvError errno_ENOBUFS],
     os_sends = [], os_stops = [False]\<rparr>"

definition live_monitor :: monitor where
  "live_monitor = (new_monitor {})\<lparr>mo_resources := True, mo_workerRunning := True\<rparr>"

lemma overrun_run:
  "runLiveLoop 7 handler overrun_script (live_monitor, []) =
     Some (Inr (Inl (WorkerSystemError 105 ''NetlinkEventLoop: receive_failed''), (live_monitor, []),
       overrun_script\<lparr>os_polls := [], os_recvs := [], os_stops := []\<rparr>))"
  by (simp add: runLiveLoop_def event_loop_run.simps[of 7 handler] overrun_script_def live_monitor_def new_monitor_def
      waitForNetlinkDataOrStop_def receiveAndDispatch_def receiveNetlinkDatagram_def liveReceiveBufferSize_def
      POLLIN_def POLL_FAILURE_def errno_ENOBUFS_def errno_EINTR_def Let_def)

definition lost_runtime :: "(bool \<times> observation_item list) runtime" where
  "lost_runtime = watched_runtime\<lparr>rt_monitor := Some (onWorkerExit ReasonException PhaseRunning live_monitor)\<rparr>"

theorem netlink_loss_reported_witness:
  "\<exists>rt'. supervisionLoop (list_queue 4) [(False, dead_daemon, idle_redump, 31000000000), (False, dead_daemon, idle_redump, 62000000000)]
      lost_runtime = Some (Inr rt') \<and> \<not> runtime_isRunning True rt'"
proof -
  have "\<exists>rt'. supervisionLoop (list_queue 4) [(False, dead_daemon, idle_redump, 31000000000), (False, dead_daemon, idle_redump, 62000000000)]
      lost_runtime = Some (Inr rt')"
    by (simp add: tick_def performResync_def takeResyncMask_def superviseLldp_def reconnectLldp_def reassertLldpNeighbors_def
        push_lldp_def lldp_refreshAll_def supervisor_refresh_def isWatchAlive_def new_lldpd_source_def new_supervisor_def
        lost_runtime_def watched_runtime_def idle_runtime_def new_runtime_def dead_daemon_def kLldpReconnectFailureLimit_def
        kLldpRetryInterval_def nanos_per_sec_def lldp_reassertAll_def cache_snapshot_def new_neighbor_cache_def lldp_deliver_def
        deriveReassertInterval_def default_model_config_def Let_def)
  then obtain rt' where r: "supervisionLoop (list_queue 4) [(False, dead_daemon, idle_redump, 31000000000),
      (False, dead_daemon, idle_redump, 62000000000)] lost_runtime = Some (Inr rt')" by blast
  have "mo_resources live_monitor" by (simp add: live_monitor_def)
  moreover have "rt_monitor lost_runtime = Some (onWorkerExit ReasonException PhaseRunning live_monitor)"
    by (simp add: lost_runtime_def)
  ultimately show ?thesis
    using r netlink_loss_reported[OF overrun_run _ refl _ r, where issues = "[]" and running = True and phase = PhaseRunning]
    by auto
qed

end
