(* ===== verification/Lldp_Probe.thy ===== *)
theory Lldp_Probe
  imports Lldp_Connection Runtime_Properties
begin

text \<open>
  The part of \<open>inputs/lldp/lldpd/LldpdSource.cpp\<close> that talks to lldpd outside the watch: the liveness probe and the
  bounded walk over the interfaces, each on a short-lived connection of \<open>Lldp_Connection\<close>, with the test
  seam and the accessors. \<open>lldpctl_get_default_transport\<close> and the atoms are arguments.
\<close>

definition kProbeConnectTimeout :: int where "kProbeConnectTimeout = 1000"
definition kProbeIoTimeout :: int where "kProbeIoTimeout = 2000"

definition resolvedCtlPath :: "string \<Rightarrow> lldpd_source \<Rightarrow> string" where
  "resolvedCtlPath defaultTransport src =
     (if lc_ctlSocketPath (sr_config src) = [] then defaultTransport else lc_ctlSocketPath (sr_config src))"

definition probe_connection :: "string \<Rightarrow> setup_calls \<Rightarrow> lldpd_source \<Rightarrow> connection_error + lldp_connection" where
  "probe_connection defaultTransport su src =
     new_lldp_connection (resolvedCtlPath defaultTransport src) kProbeConnectTimeout kProbeIoTimeout BoundedMode su"

definition isBackendAlive :: "string \<Rightarrow> setup_calls \<Rightarrow> bool \<Rightarrow> lldpd_source \<Rightarrow> bool" where
  "isBackendAlive defaultTransport su interfaces src =
     (case probe_connection defaultTransport su src of Inl e \<Rightarrow> False | Inr c \<Rightarrow> QueryInterfacesOk interfaces)"

text \<open>
  The walk: \<open>lldpctl_get_interfaces\<close> returns no list, or the atoms the callback is invoked on, in order; an exception of
  the callback ends it.
\<close>

fun walk_atoms :: "('i \<Rightarrow> 's \<Rightarrow> 's \<times> bool) \<Rightarrow> 'i list \<Rightarrow> 's \<Rightarrow> 's \<times> bool" where
  "walk_atoms fn [] s = (s, True)"
| "walk_atoms fn (atom # atoms) s = (case fn atom s of (s', ok) \<Rightarrow> if ok then walk_atoms fn atoms s' else (s', False))"

definition forEachInterfaceBounded :: "'i list option \<Rightarrow> ('i \<Rightarrow> 's \<Rightarrow> 's \<times> bool) \<Rightarrow> 's \<Rightarrow> 's \<times> bool" where
  "forEachInterfaceBounded interfaces fn s = (case interfaces of None \<Rightarrow> (s, False) | Some atoms \<Rightarrow> walk_atoms fn atoms s)"

text \<open>What the enumeration gets to see: nothing without a connection or a list.\<close>

definition enumeration_input ::
  "string \<Rightarrow> setup_calls \<Rightarrow> enum_interface list option \<Rightarrow> lldpd_source \<Rightarrow> enum_interface list option" where
  "enumeration_input defaultTransport su interfaces src =
     (case probe_connection defaultTransport su src of Inl e \<Rightarrow> None | Inr c \<Rightarrow> interfaces)"

definition submitNeighborChange ::
  "bool \<Rightarrow> time_point \<Rightarrow> string \<Rightarrow> observation_event \<Rightarrow> cached_lldp_neighbor \<Rightarrow> lldpd_source
     \<Rightarrow> lldpd_source \<times> lldp_observation list" where
  "submitNeighborChange lease now ifname event entry src =
     (if \<not> lease then (src, []) else cacheAndForward (makeLldpObservation now ifname event entry False) src)"

definition refreshInterface :: "string \<Rightarrow> lldpd_source \<Rightarrow> lldpd_source" where
  "refreshInterface ifname src = src"

definition lastEventAt :: "lldpd_source \<Rightarrow> time_point option" where
  "lastEventAt src = sr_lastWatchEventAt src"

definition source_isWatchAlive :: "lldpd_source \<Rightarrow> bool" where
  "source_isWatchAlive src = isWatchAlive (sr_supervisor src)"


section \<open>The interface callback of the enumeration\<close>

text \<open>
  The lambda of \<open>enumerateInitialNeighbors\<close> keeps the flag \<open>aborted\<close> and skips the remaining atoms
  once it is set. The walk with it is the recursion \<open>enum_interfaces\<close>, which stops there.
\<close>

definition enum_callback ::
  "time_point \<Rightarrow> enum_interface \<Rightarrow> lldpd_source \<times> lldp_observation list \<times> bool
     \<Rightarrow> (lldpd_source \<times> lldp_observation list \<times> bool) \<times> bool" where
  "enum_callback now i s =
     (case s of (src, out, aborted) \<Rightarrow>
        if aborted then ((src, out, aborted), True)
        else if ei_cancelled i then ((src, out, True), True)
        else if ei_nameThrows i then ((src, out, False), False)
        else (case ei_name i of
                None \<Rightarrow> ((src, out, False), True)
              | Some ifname \<Rightarrow>
                  if \<not> lldp_watches src ifname then ((src, out, False), True)
                  else if ei_portThrows i then ((src, out, False), False)
                  else (case enum_neighbors now ifname (ei_neighbors i) src of
                          (src', out', stop) \<Rightarrow> ((src', out @ out', stop), True))))"

lemma enum_callback_aborted: "enum_callback now i (src, out, True) = ((src, out, True), True)"
  by (simp add: enum_callback_def)

lemma enum_callback_step:
  "enum_callback now i (src, out, False) =
     (if ei_cancelled i then ((src, out, True), True)
      else if ei_nameThrows i then ((src, out, False), False)
      else (case ei_name i of
              None \<Rightarrow> ((src, out, False), True)
            | Some ifname \<Rightarrow>
                if \<not> lldp_watches src ifname then ((src, out, False), True)
                else if ei_portThrows i then ((src, out, False), False)
                else (case enum_neighbors now ifname (ei_neighbors i) src of
                        (src', out', stop) \<Rightarrow> ((src', out @ out', stop), True))))"
  by (simp add: enum_callback_def)

lemma walk_aborted: "walk_atoms (enum_callback now) is (src, out, True) = ((src, out, True), True)"
  by (induction "is") (simp_all add: enum_callback_aborted)

lemma walk_is_enumeration:
  "walk_atoms (enum_callback now) is (src, out, False) =
     (case enum_interfaces now is src of (src', out', outcome) \<Rightarrow>
        ((src', out @ out', outcome = EnumAborted), outcome \<noteq> EnumThrew))"
proof (induction "is" arbitrary: src out)
  case (Cons i "is")
  show ?case
    by (auto simp: enum_callback_step Cons.IH walk_aborted split: option.splits prod.splits)
qed simp

text \<open>
  The enumeration is the bounded walk: it dispatches what the callback dispatched, and stamps the liveness exactly when
  the walk ended without an abort or an exception.
\<close>

lemma enumeration_is_bounded_walk:
  "enumerateInitialNeighbors now interfaces src =
     (case forEachInterfaceBounded interfaces (enum_callback now) (src, [], False) of
        ((src', out, aborted), ok) \<Rightarrow>
          (if ok \<and> \<not> aborted then src'\<lparr>sr_lastWatchEventAt := Some now\<rparr> else src', out))"
proof (cases interfaces)
  case (Some "is")
  obtain src' out outcome where e: "enum_interfaces now is src = (src', out, outcome)" by (cases "enum_interfaces now is src")
  show ?thesis using Some e walk_is_enumeration[of now "is" src "[]"]
    by (cases outcome) (simp_all add: enumerateInitialNeighbors_def forEachInterfaceBounded_def)
qed (simp add: enumerateInitialNeighbors_def forEachInterfaceBounded_def)


section \<open>Bounds of the probe\<close>

text \<open>
  The connection of the probe waits at most once in \<open>poll\<close>, for one second, and each later call on its socket for at
  most two. The timeouts are per call: a daemon that keeps sending is not bounded by them.
\<close>

lemma probe_bounded:
  "probe_connection d su src = Inr c \<Longrightarrow> bc_timeval c = (2, 0) \<and> bc_mode c = BoundedMode"
  "p 1000 = kc_poll (su_connect su) 1000 \<Longrightarrow>
     probe_connection d (su\<lparr>su_connect := (su_connect su)\<lparr>kc_poll := p\<rparr>\<rparr>) src = probe_connection d su src"
proof -
  show "probe_connection d su src = Inr c \<Longrightarrow> bc_timeval c = (2, 0) \<and> bc_mode c = BoundedMode"
    by (auto simp: probe_connection_def new_lldp_connection_def makeWakeupSignal_def setIoTimeouts_def io_timeval_def
        kProbeIoTimeout_def signed_divide_int_def Let_def split: sum.splits if_splits option.splits)
  assume p: "p 1000 = kc_poll (su_connect su) 1000"
  have "clamp_ms kProbeConnectTimeout = 1000"
    by (simp add: clamp_ms_def kProbeConnectTimeout_def int32_max_def)
  then have "connectBounded ((su_connect su)\<lparr>kc_poll := p\<rparr>) kProbeConnectTimeout = connectBounded (su_connect su) kProbeConnectTimeout"
    using p by (simp add: connectBounded_def await_connect_def split: sum.split)
  then show "probe_connection d (su\<lparr>su_connect := (su_connect su)\<lparr>kc_poll := p\<rparr>\<rparr>) src = probe_connection d su src"
    by (cases "su_socket su") (simp_all add: probe_connection_def new_lldp_connection_def makeWakeupSignal_def)
qed

text \<open>A control path that does not fit \<open>sun_path\<close> is never alive and never enumerated, whatever lldpd does.\<close>

lemma long_path_never_alive:
  assumes "sun_path_size \<le> length (resolvedCtlPath d src)"
  shows "\<not> isBackendAlive d su interfaces src" "enumeration_input d su atoms src = None"
proof -
  have "\<exists>e. probe_connection d su src = Inl e"
    using assms by (auto simp: probe_connection_def new_lldp_connection_def makeWakeupSignal_def split: sum.split)
  then show "\<not> isBackendAlive d su interfaces src" "enumeration_input d su atoms src = None"
    by (auto simp: isBackendAlive_def enumeration_input_def)
qed


section \<open>A dead daemon is noticed\<close>

text \<open>
  A daemon that cannot be reached is noticed and repaired in place: when the probe of a running observer with a live watch is
  due and its connection cannot be set up, the tick attempts the reconnect then and there, unless one was
  attempted in the last thirty seconds; it keeps the observer, its neighbours included when the reconnect
  fails, and counts the failure.
\<close>

theorem dead_daemon_noticed:
  assumes "probe_connection d su (ob_source ob) = Inl e" "ta_backendAlive a = isBackendAlive d su interfaces (ob_source ob)"
    and "rt_observer rt = Some ob" "ob_running ob" "isWatchAlive (sr_supervisor (ob_source ob))"
    and "kLldpProbeInterval \<le> now - rt_lastLldpProbe rt" "kLldpRetryInterval \<le> now - rt_lastLldpReconnect rt"
    and "rt' = superviseLldp Q a now rt"
  shows "rt_lastLldpProbe rt' = now \<and> rt_lastLldpReconnect rt' = now \<and> rt_monitor rt' = rt_monitor rt \<and>
    (\<exists>src. rt_observer rt' = Some (ob\<lparr>ob_source := src\<rparr>) \<and>
       (\<not> ta_built a \<longrightarrow> sr_cache src = sr_cache (ob_source ob) \<and>
          rt_lldpReconnectFailures rt' = rt_lldpReconnectFailures rt + 1))"
proof -
  have "\<not> ta_backendAlive a" using assms(1,2) by (simp add: isBackendAlive_def)
  then have r: "rt' = fst (reconnectLldp Q a ob now (rt\<lparr>rt_lastLldpProbe := now\<rparr>))"
    using assms(3-8) by (simp add: superviseLldp_def supervise_probe_def Let_def)
  define src where "src = fst (lldp_refreshAll (ob_running ob) (ta_built a) now (ta_connection a) (ta_lease a) (ob_source ob))"
  have "rt_observer rt' = Some (ob\<lparr>ob_source := src\<rparr>)" "rt_lastLldpProbe rt' = now" "rt_lastLldpReconnect rt' = now"
    "rt_monitor rt' = rt_monitor rt"
    using assms(7) unfolding r
    by (simp_all add: reconnectLldp_def Let_def case_prod_beta push_lldp_def src_def)
  moreover have "sr_cache src = sr_cache (ob_source ob) \<and> rt_lldpReconnectFailures rt' = rt_lldpReconnectFailures rt + 1"
    if "\<not> ta_built a"
    using that assms(7) unfolding r
    by (simp add: reconnectLldp_def Let_def case_prod_beta push_lldp_def src_def lldp_refreshAll_def supervisor_refresh_def)
  ultimately show ?thesis by blast
qed

definition refused_setup :: setup_calls where
  "refused_setup = \<lparr>su_socket = Inr (), su_eventfd = True,
     su_connect = \<lparr>kc_getfl = Inr 2, kc_setfl = (\<lambda>_. Inr ()), kc_connect = Inl 111, kc_poll = (\<lambda>_. Inr 1),
       kc_getsockopt = Inr 0, kc_restore = (\<lambda>_. Inr ())\<rparr>,
     su_rcv = (\<lambda>_. None), su_snd = (\<lambda>_. None), su_newName = True\<rparr>"

definition live_observer :: lldp_observer where
  "live_observer = \<lparr>ob_source = (new_lldpd_source default_lldp_config True)
     \<lparr>sr_supervisor := \<lparr>ws_watch = True, ws_stopped = False, ws_watchDied = False\<rparr>\<rparr>, ob_running = True\<rparr>"

definition watched_live :: "(bool \<times> observation_item list) runtime" where
  "watched_live = idle_runtime\<lparr>rt_observer := Some live_observer\<rparr>"

theorem dead_daemon_noticed_witness:
  "rt_lldpReconnectFailures (superviseLldp (list_queue 4) dead_daemon (60 * nanos_per_sec) watched_live) = 1"
proof -
  have p: "probe_connection ''/run/lldpd.socket'' refused_setup (ob_source live_observer) = Inl (ConnectFailed 111)"
    by (simp add: probe_connection_def resolvedCtlPath_def live_observer_def new_lldpd_source_def default_lldp_config_def
        new_lldp_connection_def refused_setup_def makeWakeupSignal_def sun_path_size_def connectBounded_def errno_EINPROGRESS_def)
  have b: "ta_backendAlive dead_daemon = isBackendAlive ''/run/lldpd.socket'' refused_setup False (ob_source live_observer)"
    using p by (simp add: dead_daemon_def isBackendAlive_def)
  have o: "rt_observer watched_live = Some live_observer" "ob_running live_observer"
    "isWatchAlive (sr_supervisor (ob_source live_observer))"
    "kLldpProbeInterval \<le> 60 * nanos_per_sec - rt_lastLldpProbe watched_live"
    "kLldpRetryInterval \<le> 60 * nanos_per_sec - rt_lastLldpReconnect watched_live"
    "\<not> ta_built dead_daemon" "rt_lldpReconnectFailures watched_live = 0"
    by (simp_all add: watched_live_def live_observer_def idle_runtime_def new_runtime_def isWatchAlive_def nanos_per_sec_def
        kLldpProbeInterval_def kLldpRetryInterval_def dead_daemon_def)
  from dead_daemon_noticed[OF p b o(1-5) refl, of "list_queue 4"] o(6,7) show ?thesis by auto
qed

end
