(* ===== verification/Wire_Types.thy ===== *)
theory Wire_Types
  imports Observation_Codec
begin

text \<open>
  A type system for the dictionaries of the observation interface: a schema gives each field its D-Bus
  type and says whether it must be present. The encoders produce typed dictionaries; the decoders raise no type
  error and miss no field on a typed one, and accept only typed ones.
\<close>

datatype wire_type = WireBool | WireInt32 | WireString | WireStrings

fun has_wire_type :: "'v variant_ops \<Rightarrow> wire_type \<Rightarrow> 'v \<Rightarrow> bool" where
  "has_wire_type V WireBool v \<longleftrightarrow> vo_type V v = TypeBool"
| "has_wire_type V WireInt32 v \<longleftrightarrow> vo_type V v = TypeInt32"
| "has_wire_type V WireString v \<longleftrightarrow> vo_type V v = TypeString"
| "has_wire_type V WireStrings v \<longleftrightarrow>
     (case vo_to_vector V v of None \<Rightarrow> False | Some vs \<Rightarrow> list_all (\<lambda>x. vo_type V x = TypeString) vs)"

text \<open>A field: its key, its type and whether it is required.\<close>

type_synonym wire_field = "string \<times> wire_type \<times> bool"

definition iface_schema :: "wire_field list" where
  "iface_schema =
     [(K_IFINDEX, WireInt32, True), (K_IFNAME, WireString, True), (K_MAC, WireString, True),
      (K_ADMINUP, WireBool, True), (K_RUNNING, WireBool, True), (K_OPERSTATE, WireString, True),
      (K_MASTER, WireString, False), (K_IPV4, WireStrings, True), (K_IPV6, WireStrings, True)]"

definition candidate_schema :: "wire_field list" where
  "candidate_schema =
     [(K_MAC, WireString, True), (K_CLASSIFICATION, WireString, True), (K_STATUS, WireString, True),
      (K_SEEN_IN_FDB, WireBool, True), (K_SEEN_IN_NEIGH, WireBool, True), (K_SEEN_IN_LLDP, WireBool, True),
      (K_BRIDGE_PORT, WireString, False), (K_REMOTE_CHASSIS_ID, WireString, False),
      (K_REMOTE_PORT_ID, WireString, False), (K_REMOTE_SYSTEM_NAME, WireString, False),
      (K_NEIGHBOR_IFACES, WireStrings, True), (K_IPV4, WireStrings, True), (K_IPV6, WireStrings, True)]"

definition field_typed :: "'v variant_ops \<Rightarrow> 'v omap \<Rightarrow> wire_field \<Rightarrow> bool" where
  "field_typed V m f =
     (case f of (key, t, required) \<Rightarrow>
        (case map_of m key of None \<Rightarrow> \<not> required | Some v \<Rightarrow> has_wire_type V t v))"

definition wire_typed :: "'v variant_ops \<Rightarrow> wire_field list \<Rightarrow> 'v omap \<Rightarrow> bool" where
  "wire_typed V schema m = list_all (field_typed V m) schema"

definition type_error :: "decode_error + 'a \<Rightarrow> bool" where
  "type_error r \<longleftrightarrow> r = Inl InvalidType \<or> r = Inl MissingRequiredField"


section \<open>Each access\<close>

lemma type_error_Inr [simp]: "\<not> type_error (Inr x)"
  by (simp add: type_error_def)

lemma type_error_limits [simp]: "\<not> type_error (Inl LimitExceeded)" "\<not> type_error (Inl InvalidValue)"
  by (simp_all add: type_error_def)

lemma type_error_rbind:
  "type_error (rbind r f) \<longleftrightarrow> type_error r \<or> (\<exists>x. r = Inr x \<and> type_error (f x))"
  by (cases r) (auto simp: type_error_def)

lemma no_type_error [simp]:
  "\<not> type_error (validateKey k)" "\<not> type_error (validateString s)" "\<not> type_error (validateMapLimit m n)"
  "\<not> type_error (parseClassification s)" "\<not> type_error (parseStatus s)"
  by (simp_all add: validateKey_def validateString_def validateMapLimit_def parseClassification_def parseStatus_def Let_def)

lemma type_error_requireField: "type_error (requireField m k) \<longleftrightarrow> map_of m k = None"
  by (cases "map_of m k") (simp_all add: requireField_def type_error_def)

lemma decode_strings_typed:
  "list_all (\<lambda>x. vo_type V x = TypeString) vs \<Longrightarrow> \<not> type_error (decode_strings V vs out)"
  "decode_strings V vs out = Inr S \<Longrightarrow> list_all (\<lambda>x. vo_type V x = TypeString) vs"
  by (induction vs arbitrary: out) (auto simp: type_error_rbind split: if_splits)

text \<open>A field of the schema's type is read without a type error, and only such a field is read.\<close>

lemma field_progress:
  "field_typed V m (k, WireString, True) \<Longrightarrow> \<not> type_error (obs_requireString V m k)"
  "field_typed V m (k, WireBool, True) \<Longrightarrow> \<not> type_error (obs_requireBool V m k)"
  "field_typed V m (k, WireInt32, True) \<Longrightarrow> \<not> type_error (requireInt32 V m k)"
  "field_typed V m (k, WireStrings, True) \<Longrightarrow> \<not> type_error (requireStringSet V m k)"
  "field_typed V m (k, WireString, False) \<Longrightarrow> \<not> type_error (optionalString V m k)"
  by (auto simp: field_typed_def obs_requireString_def obs_requireBool_def requireInt32_def requireStringSet_def
      optionalString_def type_error_rbind type_error_requireField requireField_def decode_strings_typed(1)
      split: option.splits)

lemma field_sound:
  "obs_requireString V m k = Inr s \<Longrightarrow> field_typed V m (k, WireString, True)"
  "obs_requireBool V m k = Inr b \<Longrightarrow> field_typed V m (k, WireBool, True)"
  "requireInt32 V m k = Inr i \<Longrightarrow> field_typed V m (k, WireInt32, True)"
  "requireStringSet V m k = Inr S \<Longrightarrow> field_typed V m (k, WireStrings, True)"
  "optionalString V m k = Inr v \<Longrightarrow> field_typed V m (k, WireString, False)"
  by (auto simp: field_typed_def obs_requireString_def obs_requireBool_def requireInt32_def requireStringSet_def
      optionalString_def requireField_def dest: decode_strings_typed(2) split: option.splits if_splits)

lemma string_vector_typed: "variant_ok V \<Longrightarrow> has_wire_type V WireStrings (string_vector V S)"
  by (simp add: string_vector_def variant_okD list_all_iff)


section \<open>Whole dictionaries\<close>

lemma iface_decoder_typed:
  "wire_typed V iface_schema m \<Longrightarrow> \<not> type_error (fromVariantMapIface V m)"
  "fromVariantMapIface V m = Inr i \<Longrightarrow> wire_typed V iface_schema m"
proof -
  assume "wire_typed V iface_schema m"
  then show "\<not> type_error (fromVariantMapIface V m)"
    by (simp add: wire_typed_def iface_schema_def fromVariantMapIface_def type_error_rbind field_progress)
next
  assume "fromVariantMapIface V m = Inr i"
  then show "wire_typed V iface_schema m"
    by (auto simp: wire_typed_def iface_schema_def fromVariantMapIface_def dest: field_sound)
qed

lemma candidate_decoder_typed:
  "wire_typed V candidate_schema m \<Longrightarrow> \<not> type_error (fromVariantMapCandidate V m)"
  "fromVariantMapCandidate V m = Inr c \<Longrightarrow> wire_typed V candidate_schema m"
proof -
  assume "wire_typed V candidate_schema m"
  then show "\<not> type_error (fromVariantMapCandidate V m)"
    by (simp add: wire_typed_def candidate_schema_def fromVariantMapCandidate_def type_error_rbind field_progress)
next
  assume "fromVariantMapCandidate V m = Inr c"
  then show "wire_typed V candidate_schema m"
    by (auto simp: wire_typed_def candidate_schema_def fromVariantMapCandidate_def dest: field_sound)
qed

text \<open>
  (C35) The wire types of the observation interface. Encoding an interface or a candidate within the limits yields a dictionary of its
  schema. A decoder given a dictionary of its schema reports neither a wrong type nor a missing field, whatever
  else is wrong with it, and a dictionary that decodes is one of the schema.
\<close>

theorem wire_types_sound:
  assumes "variant_ok V"
  shows "(iface_fits i \<longrightarrow> (\<exists>m. toVariantMap_iface V i = Inr m \<and> wire_typed V iface_schema m)) \<and>
    (candidate_fits c \<longrightarrow> (\<exists>m. toVariantMap_candidate V c = Inr m \<and> wire_typed V candidate_schema m)) \<and>
    (wire_typed V iface_schema d \<longrightarrow>
       fromVariantMapIface V d \<noteq> Inl InvalidType \<and> fromVariantMapIface V d \<noteq> Inl MissingRequiredField) \<and>
    (wire_typed V candidate_schema d \<longrightarrow>
       fromVariantMapCandidate V d \<noteq> Inl InvalidType \<and> fromVariantMapCandidate V d \<noteq> Inl MissingRequiredField) \<and>
    (fromVariantMapIface V d = Inr i' \<longrightarrow> wire_typed V iface_schema d) \<and>
    (fromVariantMapCandidate V d = Inr c' \<longrightarrow> wire_typed V candidate_schema d)"
proof (intro conjI impI)
  show "iface_fits i \<Longrightarrow> \<exists>m. toVariantMap_iface V i = Inr m \<and> wire_typed V iface_schema m"
    using iface_round_trip[OF assms] iface_decoder_typed(2) by blast
  show "candidate_fits c \<Longrightarrow> \<exists>m. toVariantMap_candidate V c = Inr m \<and> wire_typed V candidate_schema m"
    using candidate_round_trip[OF assms] candidate_decoder_typed(2) by blast
qed (use iface_decoder_typed candidate_decoder_typed in \<open>unfold type_error_def, blast+\<close>)

theorem wire_types_sound_witness:
  "(\<exists>m. toVariantMap_iface dvariant_ops empty_interface = Inr m \<and> wire_typed dvariant_ops iface_schema m) \<and>
   wire_typed dvariant_ops candidate_schema [] = False \<and>
   fromVariantMapIface dvariant_ops [] = Inl MissingRequiredField"
proof -
  have "iface_fits empty_interface"
    by (simp add: iface_fits_def empty_interface_def option_fits_def set_fits_def)
  moreover have "\<not> wire_typed dvariant_ops candidate_schema []"
    by (simp add: wire_typed_def candidate_schema_def field_typed_def)
  moreover have "fromVariantMapIface dvariant_ops [] = Inl MissingRequiredField"
    by (simp add: fromVariantMapIface_def validateMapLimit_def requireInt32_def requireField_def wire_key_fits)
  ultimately show ?thesis using wire_types_sound[OF dvariant_ok] by blast
qed

end
