(* ===== verification/Service_Wiring.thy ===== *)
theory Service_Wiring
  imports Observation_Runtime Observation_Service
begin

text \<open>
  How the service, the runtime and the model are wired: the calls \<open>ObservationService\<close> and
  \<open>NetlinkLldpObservationRuntime\<close> pass on to the model, the attachment of the event sink and of the
  query interface of the transports, and what a restart does to them. A registered transport is an
  observation transport or, for \<open>dynamic_pointer_cast\<close>, another one.
\<close>

section \<open>The runtime as a front of the model\<close>

definition runtime_setEventSink :: "bool \<Rightarrow> 'q runtime \<Rightarrow> 'q runtime" where
  "runtime_setEventSink sink rt = rt\<lparr>rt_model := setEventSink sink (rt_model rt)\<rparr>"

definition runtime_setInterfacePolicy :: "interface_policy \<Rightarrow> 'q runtime \<Rightarrow> 'q runtime" where
  "runtime_setInterfacePolicy policy rt = rt\<lparr>rt_model := setInterfacePolicy policy (rt_model rt)\<rparr>"

definition runtime_setClassifier :: "classifier \<Rightarrow> 'q runtime \<Rightarrow> 'q runtime" where
  "runtime_setClassifier c rt = rt\<lparr>rt_model := setClassifier c (rt_model rt)\<rparr>"

definition runtime_localSnapshot :: "'q runtime \<Rightarrow> local_network_snapshot" where
  "runtime_localSnapshot rt = localSnapshot (rt_model rt)"

definition runtime_remoteCandidates :: "'q runtime \<Rightarrow> remote_candidate list" where
  "runtime_remoteCandidates rt = remoteCandidates (rt_model rt)"

definition runtime_findCandidateByMac :: "string \<Rightarrow> 'q runtime \<Rightarrow> remote_candidate option" where
  "runtime_findCandidateByMac mac rt = findCandidateByMac mac (rt_model rt)"

definition runtime_age :: "time_point \<Rightarrow> time_point \<Rightarrow> 'q runtime \<Rightarrow> 'q runtime \<times> model_event list" where
  "runtime_age td now rt = (case engine_age td now (rt_model rt) of (e, evs) \<Rightarrow> (rt\<lparr>rt_model := e\<rparr>, evs))"

text \<open>The factory may only be replaced while the runtime is not running.\<close>

definition setLldpSourceFactory :: "bool \<Rightarrow> 'q runtime \<Rightarrow> service_error + 'q runtime" where
  "setLldpSourceFactory lifecycleRunning rt = (if runtime_isRunning lifecycleRunning rt then Inl RuntimeError else Inr rt)"


section \<open>The service\<close>

datatype registered_transport = ObservationTransport string | ForeignTransport string

definition observationTransports :: "registered_transport list \<Rightarrow> string list" where
  "observationTransports ts = List.map_filter (\<lambda>t. case t of ObservationTransport n \<Rightarrow> Some n | ForeignTransport _ \<Rightarrow> None) ts"

definition initializeComponents :: "registered_transport list \<Rightarrow> 'q runtime \<Rightarrow> 'q runtime \<times> string list \<times> bool" where
  "initializeComponents ts rt = (runtime_setEventSink True rt, observationTransports ts, True)"

definition service_localSnapshot :: "'q runtime \<Rightarrow> local_network_snapshot" where
  "service_localSnapshot rt = runtime_localSnapshot rt"

definition service_remoteCandidates :: "'q runtime \<Rightarrow> remote_candidate list" where
  "service_remoteCandidates rt = runtime_remoteCandidates rt"

definition service_getCandidateByMac :: "string \<Rightarrow> 'q runtime \<Rightarrow> remote_candidate option" where
  "service_getCandidateByMac mac rt = runtime_findCandidateByMac mac rt"

definition service_getIssues :: "observation_issues \<Rightarrow> observation_issues" where
  "service_getIssues issues = issues"


section \<open>Restart\<close>

lemma setEventSink_sink: "en_sink (setEventSink b e) = b"
  by (simp add: setEventSink_def)

lemma observationLoop_monitor: "rt_monitor (fst (observationLoop Q pton now n rt)) = rt_monitor rt"
  by (induction n arbitrary: rt) (auto simp: case_prod_beta Let_def split: option.split)

text \<open>
  A stopped runtime has no sink and delivers nothing; the next start attaches the service again before
  the runtime produces anything. The candidates survive in between.
\<close>

lemma restart_reattaches_sink:
  assumes "runtime_stop Q pton now rt = (rt1, evs)" "initializeComponents ts rt1 = (rt2, bound, ok)"
  shows "\<not> en_sink (rt_model rt1)" "en_sink (rt_model rt2)" "rt_monitor rt2 = None"
    "en_candidates (rt_model rt2) = en_candidates (rt_model rt1)" "bound = observationTransports ts"
  using assms
  by (auto simp: runtime_stop_def initializeComponents_def runtime_setEventSink_def setEventSink_def Let_def case_prod_beta
      observationLoop_monitor)

lemma observationTransports_in_order:
  "observationTransports (ts @ us) = observationTransports ts @ observationTransports us"
  "n \<in> set (observationTransports ts) \<longleftrightarrow> ObservationTransport n \<in> set ts"
  by (induction ts) (auto simp: observationTransports_def List.map_filter_simps split: registered_transport.splits)

end
