(* ===== verification/Cli_Output.thy ===== *)
theory Cli_Output
  imports Daemons
begin

text \<open>
  What the command line clients print: the JSON documents of \<open>net-observe\<close> and the lines of
  \<open>inventory-watch\<close>. \<open>Json::Value\<close> belongs to jsoncpp: it is the argument \<open>json_build\<close> of the operations the
  client uses, and \<open>json_build_ok\<close> states their documented behaviour. A default \<open>Json::Value\<close> is
  null; the first \<open>operator[]\<close> makes it an object, the first \<open>append\<close> an array.
\<close>

record 'j json_build =
  jb_null :: "'j"
  jb_bool :: "bool \<Rightarrow> 'j"
  jb_int :: "int \<Rightarrow> 'j"
  jb_string :: "string \<Rightarrow> 'j"
  jb_set :: "string \<Rightarrow> 'j \<Rightarrow> 'j \<Rightarrow> 'j"
  jb_append :: "'j \<Rightarrow> 'j \<Rightarrow> 'j"
  jb_isObject :: "'j \<Rightarrow> bool"
  jb_member :: "'j \<Rightarrow> string \<Rightarrow> 'j option"
  jb_elements :: "'j \<Rightarrow> 'j list option"
  jb_asBool :: "'j \<Rightarrow> bool option"
  jb_asInt :: "'j \<Rightarrow> int option"
  jb_asString :: "'j \<Rightarrow> string option"

definition json_build_ok :: "'j json_build \<Rightarrow> bool" where
  "json_build_ok J \<longleftrightarrow>
     jb_isObject J (jb_null J) \<and> (\<forall>k. jb_member J (jb_null J) k = None) \<and> jb_elements J (jb_null J) = None \<and>
     (\<forall>j k v. jb_isObject J j \<longrightarrow> jb_isObject J (jb_set J k v j) \<and>
        (\<forall>k'. jb_member J (jb_set J k v j) k' = (if k' = k then Some v else jb_member J j k'))) \<and>
     (\<forall>x. jb_elements J (jb_append J (jb_null J) x) = Some [x]) \<and>
     (\<forall>j x xs. jb_elements J j = Some xs \<longrightarrow> jb_elements J (jb_append J j x) = Some (xs @ [x])) \<and>
     (\<forall>b. jb_asBool J (jb_bool J b) = Some b) \<and> (\<forall>n. jb_asInt J (jb_int J n) = Some n) \<and>
     (\<forall>s. jb_asString J (jb_string J s) = Some s)"

lemma json_build_okD:
  assumes "json_build_ok J"
  shows "jb_isObject J (jb_null J)" "jb_member J (jb_null J) k = None" "jb_elements J (jb_null J) = None"
    "jb_isObject J j \<Longrightarrow> jb_isObject J (jb_set J k v j)"
    "jb_isObject J j \<Longrightarrow> jb_member J (jb_set J k v j) k' = (if k' = k then Some v else jb_member J j k')"
    "jb_elements J (jb_append J (jb_null J) x) = Some [x]"
    "jb_elements J j = Some xs \<Longrightarrow> jb_elements J (jb_append J j x) = Some (xs @ [x])"
    "jb_asBool J (jb_bool J b) = Some b" "jb_asInt J (jb_int J n) = Some n" "jb_asString J (jb_string J s) = Some s"
  using assms unfolding json_build_ok_def by blast+


section \<open>net-observe\<close>

definition json_array :: "'j json_build \<Rightarrow> 'j list \<Rightarrow> 'j" where
  "json_array J xs = fold (\<lambda>x arr. jb_append J arr x) xs (jb_null J)"

definition json_strings :: "'j json_build \<Rightarrow> string set \<Rightarrow> 'j" where
  "json_strings J S = json_array J (map (jb_string J) (sorted_list_of_set S))"

definition set_present :: "'j json_build \<Rightarrow> string \<Rightarrow> string option \<Rightarrow> 'j \<Rightarrow> 'j" where
  "set_present J key v j = (case v of None \<Rightarrow> j | Some s \<Rightarrow> jb_set J key (jb_string J s) j)"

definition ifaceToJson :: "'j json_build \<Rightarrow> local_interface_state \<Rightarrow> 'j" where
  "ifaceToJson J i =
     (let j = jb_set J ''ifindex'' (jb_int J (li_ifindex i)) (jb_null J);
          j = jb_set J ''ifname'' (jb_string J (li_ifname i)) j;
          j = jb_set J ''mac'' (jb_string J (li_mac i)) j;
          j = jb_set J ''adminUp'' (jb_bool J (li_adminUp i)) j;
          j = jb_set J ''running'' (jb_bool J (li_running i)) j;
          j = jb_set J ''operstate'' (jb_string J (li_operstate i)) j;
          j = set_present J ''master'' (li_masterIfname i) j;
          j = jb_set J ''ipv4'' (json_strings J (li_ipv4 i)) j
      in jb_set J ''ipv6'' (json_strings J (li_ipv6 i)) j)"

definition candidateToJson :: "'j json_build \<Rightarrow> wire_candidate \<Rightarrow> 'j" where
  "candidateToJson J c =
     (let j = jb_set J ''mac'' (jb_string J (wc_mac c)) (jb_null J);
          j = jb_set J ''classification'' (jb_string J (classificationToString (wc_classification c))) j;
          j = jb_set J ''status'' (jb_string J (statusToString (wc_status c))) j;
          j = jb_set J ''seenInFdb'' (jb_bool J (wc_seenInFdb c)) j;
          j = jb_set J ''seenInNeigh'' (jb_bool J (wc_seenInNeigh c)) j;
          j = jb_set J ''seenInLldp'' (jb_bool J (wc_seenInLldp c)) j;
          j = set_present J ''bridgePort'' (wc_bridgePort c) j;
          j = set_present J ''remoteChassisId'' (wc_remoteChassisId c) j;
          j = set_present J ''remotePortId'' (wc_remotePortId c) j;
          j = set_present J ''remoteSystemName'' (wc_remoteSystemName c) j;
          j = jb_set J ''ipv4'' (json_strings J (wc_ipv4 c)) j;
          j = jb_set J ''ipv6'' (json_strings J (wc_ipv6 c)) j
      in jb_set J ''neighborIfaces'' (json_strings J (wc_neighborIfaces c)) j)"

definition lldpEntryToJson :: "'j json_build \<Rightarrow> lldp_entry \<Rightarrow> 'j" where
  "lldpEntryToJson J x =
     set_present J ''systemName'' (le_systemName x)
       (set_present J ''portId'' (le_portId x) (set_present J ''chassisId'' (le_chassisId x) (jb_null J)))"

definition lldpNeighborsJson :: "'j json_build \<Rightarrow> string \<Rightarrow> wire_candidate list \<Rightarrow> 'j" where
  "lldpNeighborsJson J ifname candidates = json_array J (map (lldpEntryToJson J) (getLldpNeighbors ifname candidates))"

text \<open>A document given to the JSON writer, or the text \<open>{}\<close> printed without it.\<close>

datatype 'j printed = PrintedJson 'j | PrintedBraces

definition statusDocument ::
  "'j json_build \<Rightarrow> (string \<times> local_interface_state \<times> lldp_entry list option) list \<Rightarrow> 'j" where
  "statusDocument J rows =
     fold (\<lambda>(name, i, neighbors) root.
       jb_set J name (case neighbors of
           None \<Rightarrow> ifaceToJson J i
         | Some xs \<Rightarrow> jb_set J ''lldpNeighbors'' (json_array J (map (lldpEntryToJson J) xs)) (ifaceToJson J i)) root)
       rows (jb_null J)"

definition showStatus ::
  "'j json_build \<Rightarrow> string \<Rightarrow> bool \<Rightarrow> (string \<Rightarrow> local_interface_state option) \<Rightarrow> local_interface_state umap
     \<Rightarrow> wire_candidate list \<Rightarrow> 'j printed" where
  "showStatus J ifFlag lldp getInterface snapshot candidates =
     (let rows = printStatus ifFlag lldp getInterface snapshot candidates
      in if ifFlag \<noteq> [] \<and> rows = [] then PrintedBraces else PrintedJson (statusDocument J rows))"

definition showRemote ::
  "'j json_build \<Rightarrow> string \<Rightarrow> bool \<Rightarrow> string list \<Rightarrow> (string \<Rightarrow> wire_candidate option) \<Rightarrow> 'j printed" where
  "showRemote J macFlag lldpOnly macs byMac =
     (case printRemote macFlag lldpOnly macs byMac of
        None \<Rightarrow> PrintedBraces
      | Some cs \<Rightarrow>
          if macFlag \<noteq> [] then (case cs of c # _ \<Rightarrow> PrintedJson (candidateToJson J c) | [] \<Rightarrow> PrintedBraces)
          else PrintedJson (json_array J (map (candidateToJson J) cs)))"

text \<open>The line printed for a signal in \<open>watchEvents\<close>.\<close>

datatype cli_event =
    CliLocalStateChanged | CliInterfaceChanged string | CliInterfaceRemoved string
  | CliCandidateChanged string | CliCandidateRemoved string | CliReadyChanged bool

fun watchEventLine :: "cli_event \<Rightarrow> string" where
  "watchEventLine CliLocalStateChanged = ''[event] LocalStateChanged''"
| "watchEventLine (CliInterfaceChanged ifname) = ''[event] InterfaceChanged: '' @ ifname"
| "watchEventLine (CliInterfaceRemoved ifname) = ''[event] InterfaceRemoved: '' @ ifname"
| "watchEventLine (CliCandidateChanged mac) = ''[event] CandidateChanged: '' @ mac"
| "watchEventLine (CliCandidateRemoved mac) = ''[event] CandidateRemoved: '' @ mac"
| "watchEventLine (CliReadyChanged ready) = ''[event] ReadyChanged: '' @ (if ready then ''ready'' else ''not ready'')"


section \<open>inventory-watch\<close>

fun watch_fieldValueToString :: "field_value \<Rightarrow> string" where
  "watch_fieldValueToString (FBool b) = bool_text b"
| "watch_fieldValueToString (FString s) = [CHR 34] @ s @ [CHR 34]"
| "watch_fieldValueToString (FInt w) = int_text (sint w)"
| "watch_fieldValueToString (FUInt w) = nat_text (unat w)"

text \<open>The lines of each part, without their line ends.\<close>

definition printSnapshotUnlocked :: "inventory_snapshot \<Rightarrow> string list" where
  "printSnapshotUnlocked snap =
     [''--- Inventory Snapshot ---'',
      ''version:   '' @ nat_text (unat (is_version snap)),
      ''timestamp: '' @ int_text (sint (is_timestamp snap)),
      ''ready:     '' @ bool_text (is_ready snap),
      ''phase:     '' @ is_phase snap,
      ''fields ('' @ nat_text (length (is_fields snap)) @ ''):'']
     @ map (\<lambda>(key, value). ''  '' @ key @ '' = '' @ watch_fieldValueToString value) (is_fields snap)"

fun health_text :: "source_health \<Rightarrow> string" where
  "health_text HealthOk = ''ok''"
| "health_text HealthDegraded = ''degraded''"
| "health_text HealthFailed = ''failed''"

definition quoted_part :: "string \<Rightarrow> string option \<Rightarrow> string" where
  "quoted_part label v = (case v of None \<Rightarrow> [] | Some s \<Rightarrow> '' '' @ label @ ''='' @ [CHR 34] @ s @ [CHR 34])"

definition printSourceStatesUnlocked :: "source_state_map \<Rightarrow> string list" where
  "printSourceStatesUnlocked states =
     ''--- Source States ---'' #
     map (\<lambda>(name, state). ''  '' @ name @ '': health='' @ health_text (ss_health state)
            @ '' required='' @ bool_text (ss_required state) @ '' stale='' @ bool_text (ss_stale state)
            @ quoted_part ''error'' (ss_lastError state) @ quoted_part ''origin'' (ss_origin state)) states"

definition printIssuesUnlocked :: "inventory_issues \<Rightarrow> string list" where
  "printIssuesUnlocked issues =
     (if issues = [] then [''--- Issues: none ---'']
      else ''--- Issues ---'' #
        map (\<lambda>(name, flds). ''  '' @ name @ '':''
               @ concat (map (\<lambda>(k, v). '' '' @ k @ ''='' @ watch_fieldValueToString v) flds)) issues)"

text \<open>
  \<open>printAll\<close>: the values of \<open>g_shuttingDown\<close> at its loads and what the three queries return, or the text of
  the exception of the first that threw. The result is the lines on standard output and on standard error.
\<close>

definition printAll ::
  "bool \<Rightarrow> bool \<Rightarrow> string + inventory_snapshot \<times> source_state_map \<times> inventory_issues \<Rightarrow> string list \<times> string list" where
  "printAll downBefore downAfter queries =
     (if downBefore then ([], [])
      else (case queries of
              Inl what \<Rightarrow> ([], if \<not> downAfter then [''printAll failed: '' @ what] else [])
            | Inr (snap, states, issues) \<Rightarrow>
                if downAfter then ([], [])
                else (printSnapshotUnlocked snap @ printSourceStatesUnlocked states @ printIssuesUnlocked issues @ [[]], [])))"

fun watch_output_lines :: "(string list \<times> string list) \<Rightarrow> watch_output \<Rightarrow> string list \<times> string list" where
  "watch_output_lines all (ShowField f) = ([''[event] InventoryChanged: '' @ f], [])"
| "watch_output_lines all (ShowSource n) = ([''[event] SourceStateChanged: '' @ n], [])"
| "watch_output_lines all (ShowReady b) = ([''[event] ReadyChanged: '' @ bool_text b], [])"
| "watch_output_lines all ShowAll = all"

text \<open>
  \<open>main\<close>: an iteration of the loop is the state of the flags at its start, with what \<open>printAll\<close> prints
  in it. \<open>Inl\<close> is an exception that leaves the \<open>try\<close> block; the result is the exit code.
\<close>

definition inventory_watch_main ::
  "string + bool \<times> (string list \<times> string list) \<times> (watch_flags \<times> (string list \<times> string list)) list \<Rightarrow> int \<times> string list \<times> string list" where
  "inventory_watch_main session =
     (case session of
        Inl what \<Rightarrow> (1, [], [''inventory-watch failed: '' @ what])
      | Inr (ready, initial, iterations) \<Rightarrow>
          (let shown = concat (map (\<lambda>(w, all). map (watch_output_lines all) (snd (watch_pass w))) iterations)
           in (0, (if \<not> ready then [''Note: daemon is not ready yet (still initializing)''] else [])
                  @ [''=== Initial inventory ===''] @ fst initial
                  @ [''Monitoring inventory changes (Ctrl-C to exit)...''] @ concat (map fst shown)
                  @ [[], ''Shutting down...''],
                snd initial @ concat (map snd shown))))"

end
