(* ===== verification/Cli_Properties.thy ===== *)
theory Cli_Properties
  imports Cli_Output Daemon_Properties
begin

text \<open>
  What the output of the command line clients says: the JSON of \<open>net-observe\<close> can be read back to the
  candidates and interfaces it shows, and decimal numbers to the numbers.
\<close>

section \<open>Reading the JSON back\<close>

text \<open>A reader of the documents; null stands for no element.\<close>

definition read_strings :: "'j json_build \<Rightarrow> 'j option \<Rightarrow> string set" where
  "read_strings J v = (case v of None \<Rightarrow> {}
     | Some j \<Rightarrow> (case jb_elements J j of None \<Rightarrow> {} | Some xs \<Rightarrow> set (List.map_filter (jb_asString J) xs)))"

definition read_text :: "'j json_build \<Rightarrow> 'j option \<Rightarrow> string option" where
  "read_text J v = Option.bind v (jb_asString J)"

definition read_flag :: "'j json_build \<Rightarrow> 'j option \<Rightarrow> bool" where
  "read_flag J v \<longleftrightarrow> Option.bind v (jb_asBool J) = Some True"

definition read_candidate :: "'j json_build \<Rightarrow> 'j \<Rightarrow> wire_candidate option" where
  "read_candidate J j =
     (case (read_text J (jb_member J j ''mac''), read_text J (jb_member J j ''classification''), read_text J (jb_member J j ''status'')) of
        (Some mac, Some cls, Some st) \<Rightarrow>
          Some \<lparr>wc_mac = mac, wc_classification = classificationFromString cls, wc_status = statusFromString st,
            wc_seenInFdb = read_flag J (jb_member J j ''seenInFdb''), wc_seenInNeigh = read_flag J (jb_member J j ''seenInNeigh''),
            wc_seenInLldp = read_flag J (jb_member J j ''seenInLldp''), wc_bridgePort = read_text J (jb_member J j ''bridgePort''),
            wc_remoteChassisId = read_text J (jb_member J j ''remoteChassisId''),
            wc_remotePortId = read_text J (jb_member J j ''remotePortId''),
            wc_remoteSystemName = read_text J (jb_member J j ''remoteSystemName''),
            wc_neighborIfaces = read_strings J (jb_member J j ''neighborIfaces''),
            wc_ipv4 = read_strings J (jb_member J j ''ipv4''), wc_ipv6 = read_strings J (jb_member J j ''ipv6'')\<rparr>
      | _ \<Rightarrow> None)"

lemma json_array_elements:
  assumes "json_build_ok J"
  shows "jb_elements J (json_array J xs) = (if xs = [] then None else Some xs)"
proof -
  have grow: "jb_elements J j = Some ys \<Longrightarrow> jb_elements J (fold (\<lambda>x arr. jb_append J arr x) zs j) = Some (ys @ zs)" for j ys zs
    by (induction zs arbitrary: j ys) (simp_all add: json_build_okD(7)[OF assms])
  show ?thesis
    by (cases xs) (simp_all add: json_array_def json_build_okD[OF assms] grow[OF json_build_okD(6)[OF assms]])
qed

lemma read_json_strings:
  assumes "json_build_ok J" "finite S"
  shows "read_strings J (Some (json_strings J S)) = S"
proof -
  have "List.map_filter (jb_asString J) (map (jb_string J) xs) = xs" for xs
    by (induction xs) (simp_all add: List.map_filter_simps json_build_okD[OF assms(1)])
  then show ?thesis using assms(2)
    by (auto simp: read_strings_def json_strings_def json_array_elements[OF assms(1)])
qed

lemma set_present_facts:
  assumes "json_build_ok J" "jb_isObject J j"
  shows "jb_isObject J (set_present J k v j)"
    "jb_member J (set_present J k v j) k' = (if k' = k \<and> v \<noteq> None then map_option (jb_string J) v else jb_member J j k')"
  using json_build_okD[OF assms(1)] assms(2) by (cases v; simp add: set_present_def)+

lemma read_simps:
  assumes "json_build_ok J"
  shows "read_text J None = None" "read_text J (Some (jb_string J s)) = Some s"
    "read_text J (map_option (jb_string J) v) = v" "read_flag J (Some (jb_bool J b)) = b"
  by (simp_all add: read_text_def read_flag_def json_build_okD[OF assms] map_option_case option.case_eq_if split: option.split)

definition finite_candidate :: "wire_candidate \<Rightarrow> bool" where
  "finite_candidate c \<longleftrightarrow> finite (wc_ipv4 c) \<and> finite (wc_ipv6 c) \<and> finite (wc_neighborIfaces c)"

lemma candidate_members:
  assumes J: "json_build_ok J"
  shows "jb_member J (candidateToJson J c) ''neighborIfaces'' = Some (json_strings J (wc_neighborIfaces c))"
    "jb_member J (candidateToJson J c) ''ipv6'' = Some (json_strings J (wc_ipv6 c))"
    "jb_member J (candidateToJson J c) ''ipv4'' = Some (json_strings J (wc_ipv4 c))"
    "jb_member J (candidateToJson J c) ''remoteSystemName'' = map_option (jb_string J) (wc_remoteSystemName c)"
    "jb_member J (candidateToJson J c) ''remotePortId'' = map_option (jb_string J) (wc_remotePortId c)"
    "jb_member J (candidateToJson J c) ''remoteChassisId'' = map_option (jb_string J) (wc_remoteChassisId c)"
    "jb_member J (candidateToJson J c) ''bridgePort'' = map_option (jb_string J) (wc_bridgePort c)"
    "jb_member J (candidateToJson J c) ''seenInLldp'' = Some (jb_bool J (wc_seenInLldp c))"
    "jb_member J (candidateToJson J c) ''seenInNeigh'' = Some (jb_bool J (wc_seenInNeigh c))"
    "jb_member J (candidateToJson J c) ''seenInFdb'' = Some (jb_bool J (wc_seenInFdb c))"
    "jb_member J (candidateToJson J c) ''status'' = Some (jb_string J (statusToString (wc_status c)))"
    "jb_member J (candidateToJson J c) ''classification'' = Some (jb_string J (classificationToString (wc_classification c)))"
    "jb_member J (candidateToJson J c) ''mac'' = Some (jb_string J (wc_mac c))"
  by (simp_all add: candidateToJson_def Let_def json_build_okD[OF J] set_present_facts[OF J])

lemma read_candidate_json:
  assumes "json_build_ok J" "finite_candidate c"
  shows "read_candidate J (candidateToJson J c) = Some c"
  using assms(2)
  by (simp add: read_candidate_def candidate_members[OF assms(1)] read_simps[OF assms(1)] read_json_strings[OF assms(1)]
      finite_candidate_def)

text \<open>A concrete JSON value, for evaluation.\<close>

datatype jval = JNull | JBool bool | JInt int | JString string | JArray "jval list" | JObject "(string \<times> jval) list"

definition jval_build :: "jval json_build" where
  "jval_build = \<lparr>jb_null = JNull, jb_bool = JBool, jb_int = JInt, jb_string = JString,
     jb_set = (\<lambda>k v j. case j of JObject m \<Rightarrow> JObject ((k, v) # filter (\<lambda>e. fst e \<noteq> k) m) | JNull \<Rightarrow> JObject [(k, v)] | _ \<Rightarrow> j),
     jb_append = (\<lambda>j x. case j of JArray xs \<Rightarrow> JArray (xs @ [x]) | JNull \<Rightarrow> JArray [x] | _ \<Rightarrow> j),
     jb_isObject = (\<lambda>j. case j of JNull \<Rightarrow> True | JObject m \<Rightarrow> True | _ \<Rightarrow> False),
     jb_member = (\<lambda>j k. case j of JObject m \<Rightarrow> map_of m k | _ \<Rightarrow> None),
     jb_elements = (\<lambda>j. case j of JArray xs \<Rightarrow> Some xs | _ \<Rightarrow> None),
     jb_asBool = (\<lambda>j. case j of JBool b \<Rightarrow> Some b | _ \<Rightarrow> None),
     jb_asInt = (\<lambda>j. case j of JInt n \<Rightarrow> Some n | _ \<Rightarrow> None),
     jb_asString = (\<lambda>j. case j of JString t \<Rightarrow> Some t | _ \<Rightarrow> None)\<rparr>"

lemma jval_build_ok: "json_build_ok jval_build"
  by (auto simp: json_build_ok_def jval_build_def map_of_filter_key[where P = "\<lambda>x. x \<noteq> k" for k] split: jval.splits)

text \<open>
  (C40) \<open>net-observe remote\<close> shows the model: in any reachable state whose candidates fit the wire, with at most 1024 of them,
  the JSON document a connected client prints reads back to exactly the published candidates in the model's
  order, with \<open>--lldp\<close> exactly those with LLDP evidence, and it is null exactly when there is none.
\<close>

theorem net_observe_shows_model:
  assumes "json_build_ok J" "variant_ok V" "invoke_ok im" "invoke_ok ic" "oc_iface cl" "engine_reachable C pton cfg e"
    "length (remoteCandidates e) \<le> kMaxCandidates" "\<forall>c \<in> set (remoteCandidates e). candidate_fits (toWireCandidate c)"
    and "shown = filter (\<lambda>c. lldpOnly \<longrightarrow> rc_seenInLldp c) (remoteCandidates e)"
  shows "\<exists>j. showRemote J [] lldpOnly (client_macs im cl True e) (\<lambda>mac. client_candidate V ic cl True mac e) = PrintedJson j \<and>
    (case jb_elements J j of
       None \<Rightarrow> shown = []
     | Some xs \<Rightarrow> shown \<noteq> [] \<and> map (read_candidate J) xs = map (\<lambda>c. Some (toWireCandidate c)) shown)"
proof -
  have "showRemote J [] lldpOnly (client_macs im cl True e) (\<lambda>mac. client_candidate V ic cl True mac e)
      = PrintedJson (json_array J (map (candidateToJson J) (map toWireCandidate shown)))"
    using cli_lists_model[OF assms(2-8), of lldpOnly] assms(9) by (simp add: showRemote_def)
  moreover have "read_candidate J (candidateToJson J (toWireCandidate c)) = Some (toWireCandidate c)" if "c \<in> set shown" for c
    using that assms(8,9) read_candidate_json[OF assms(1), of "toWireCandidate c"]
    by (auto simp: finite_candidate_def candidate_fits_def set_fits_def)
  ultimately show ?thesis by (auto simp: json_array_elements[OF assms(1)])
qed

theorem net_observe_shows_model_witness:
  "\<exists>j. showRemote jval_build [] True (client_macs sample_invoke sample_obs_client True sample_live)
     (\<lambda>mac. client_candidate dvariant_ops sample_invoke sample_obs_client True mac sample_live) = PrintedJson j"
proof -
  have len: "length (remoteCandidates sample_live) = 1"
    using arg_cong[OF sample_live_macs, of length] by simp
  have "findCandidateByMac ''02:00:00:00:00:09'' sample_live = Some c" if "c \<in> set (remoteCandidates sample_live)" for c
  proof -
    have "rc_mac c \<in> set (map rc_mac (remoteCandidates sample_live))" using that by simp
    then show ?thesis using remote_candidate_found[OF sample_live_reachable that] by (simp add: sample_live_macs del: set_map)
  qed
  then have "\<forall>c \<in> set (remoteCandidates sample_live). candidate_fits (toWireCandidate c)"
    using sample_live_fits by auto
  from net_observe_shows_model[OF jval_build_ok dvariant_ok sample_invoke_ok sample_invoke_ok _ sample_live_reachable _ this refl,
      of sample_obs_client True]
  show ?thesis using len by (auto simp: sample_obs_client_def kMaxCandidates_def)
qed


section \<open>Numbers\<close>

definition undecimal :: "string \<Rightarrow> nat" where
  "undecimal s = foldl (\<lambda>n c. 10 * n + (of_char c - 48)) 0 s"

declare nat_text.simps [simp del]

lemma undecimal_nat_text: "undecimal (nat_text n) = n"
proof (induction n rule: nat_text.induct)
  case (1 n)
  have small: "of_char (char_of (d + 48) :: char) - (48 :: nat) = d" if "d < 10" for d :: nat
    using that by simp
  show ?case
  proof (cases "n < 10")
    case True
    then show ?thesis using small[of n] by (simp add: nat_text.simps[of n] undecimal_def)
  next
    case False
    then show ?thesis using 1 small[of "n mod 10"] by (simp add: nat_text.simps[of n] undecimal_def)
  qed
qed

text \<open>Values of one field type that print the same are equal.\<close>

lemma field_text_inj:
  "watch_fieldValueToString (FUInt v) = watch_fieldValueToString (FUInt w) \<longleftrightarrow> v = w"
  "watch_fieldValueToString (FString s) = watch_fieldValueToString (FString t) \<longleftrightarrow> s = t"
  "watch_fieldValueToString (FBool a) = watch_fieldValueToString (FBool b) \<longleftrightarrow> a = b"
proof -
  show "watch_fieldValueToString (FUInt v) = watch_fieldValueToString (FUInt w) \<longleftrightarrow> v = w"
    by (metis watch_fieldValueToString.simps(4) undecimal_nat_text word_unat_eq_iff)
qed (auto simp: bool_text_def)

end
