(* ===== verification/Spec2Isabelle.thy ===== *)
theory Spec2Isabelle
  imports Engine_Properties Inventory_Properties Codec_Properties Netlink_Properties Lldp_Properties
    Service_Properties Runtime_Properties Inventory_Service_Properties Client_Properties Daemon_Properties
    Lldp_Connection Netlink_Socket Monitor_Properties Supervision_Properties Lldp_Probe Wire_Types Service_Wiring
    Cli_Properties
begin

text \<open>
  Verification of the RMC fabric services: the network observation service
  (\<open>src/services/network-observation\<close>) and the inventory service (\<open>src/services/rmc-inventory\<close>), with
  their wire contracts (\<open>src/lib/interop_contract\<close>).

  \<^bold>\<open>The program.\<close> Kernel Netlink messages and lldpd announcements are turned into observations, queued, and
  applied to a model of local interfaces and remote candidates. The model emits events, which a
  service coalesces and publishes; clients are notified and query again. The inventory service
  reads identity fields from files on request, on file events and periodically, merges them per
  owner and publishes what changed. Both answer queries over D-Bus through a handler, a codec and a
  client library, which two command line programs use.

  \<^bold>\<open>Theories.\<close>
  \<^item> \<open>Prelude\<close>: association lists as maps, ordered maps, results as sums, reference counts.
  \<^item> \<open>Event_Sourcing\<close>: the locale \<open>event_sourced\<close>, a component whose events carry the view of its state, interpreted
    by the engine (\<open>Engine_View\<close>) and by the LLDP source (\<open>Lldp_Properties\<close>), and the locale \<open>announced_view\<close>, a
    component that announces keys which clients then read, interpreted by the inventory service.
  \<^item> \<open>Contract_Types\<close>, \<open>Observation_Types\<close>, \<open>Lldp_Identity\<close>: the data of \<open>core/public\<close> and \<open>core/LldpUtils.h\<close>.
  \<^item> \<open>Classifier\<close>, \<open>Hard_Filter\<close>, \<open>Local_State\<close>, \<open>Engine\<close>: \<open>core/classification\<close>, \<open>core/policy\<close>,
    \<open>core/state/LocalStateTracker\<close> and \<open>core/engine/ObservationModelEngine.cpp\<close>. The state is the record \<open>engine\<close>;
    each call of \<open>INetworkObservationModel\<close> is a definition that returns the new state and the
    events. \<open>Engine_Invariant\<close> has the well-formedness invariant, \<open>Engine_View\<close> the view of a client,
    \<open>Engine_Properties\<close> the properties.
  \<^item> \<open>Netlink_Utils\<close>, \<open>Netlink_State\<close>, \<open>Netlink_Parser\<close>, \<open>Netlink_Io\<close>, \<open>Netlink_Dump\<close>, \<open>Netlink_Mapper\<close>,
    \<open>Netlink_Monitor\<close>: \<open>inputs/netlink\<close> and \<open>service/NetlinkObservationMapper.cpp\<close>. Messages are lists of bytes and
    every read is checked; \<open>Netlink_Properties\<close> shows that no read faults and that deduplication loses nothing.
  \<^item> \<open>Netlink_Socket\<close>: the class \<open>NetlinkRouteSocket\<close> and the constructors that hold one, over a store of objects, with the
    ownership of descriptors. \<open>Monitor_Worker\<close>: the live worker of the monitor, its exit handler and its wake-ups, and the
    step relation \<open>monitor_epoch_step\<close> of \<open>stop\<close>, redumps and the worker; \<open>Monitor_Properties\<close> shows that stopping ends.
    \<open>Supervision_Properties\<close> follows the loss of the worker to the issue table.
  \<^item> \<open>Lldp_Source\<close>, \<open>Lldp_Properties\<close>: \<open>inputs/lldp\<close>, the cache, the watch supervisor and the source.
    \<open>Lldp_Connection\<close>: \<open>BoundedLldpConnection\<close> and \<open>BoundedLldpWatch\<close>, with their properties. \<open>Lldp_Probe\<close>: the
    liveness probe and the bounded walk over the interfaces, shown to be the enumeration of \<open>Lldp_Source\<close>.
  \<^item> \<open>Observation_Runtime\<close>, \<open>Runtime_Properties\<close>: \<open>service/NetlinkLldpObservationRuntime.cpp\<close> and the observation queue,
    composed of the models of the engine, the monitor and the LLDP source.
  \<^item> \<open>Publication\<close>, \<open>Observation_Service\<close>, \<open>Service_Properties\<close>, \<open>Service_Wiring\<close>: \<open>service/PublicationQueue.h\<close> and
    \<open>service/ObservationService.cpp\<close>, and the calls service and runtime pass on to the model.
  \<^item> \<open>Dbus_Variant\<close>, \<open>Observation_Codec\<close>, \<open>Inventory_Codec\<close>, \<open>Codec_Properties\<close>: the D-Bus codecs of both services.
    \<open>Wire_Types\<close> is a type system for the dictionaries of the observation interface.
  \<^item> \<open>Inventory_Contract\<close>, \<open>Inventory_Source\<close>, \<open>Inventory_Manager\<close>, \<open>Inventory_Properties\<close>: the inventory's
    fields, file sources, manager and issues.
  \<^item> \<open>Inventory_Service\<close>, \<open>Inventory_Service_Properties\<close>: \<open>service/InventoryService.cpp\<close>. The state is the record
    \<open>inv_service\<close>; \<open>doRefreshCycle\<close>, the rounds of \<open>runLoop\<close>, \<open>start\<close> and \<open>stop\<close> return the new state and the calls made.
    A call of \<open>refresh\<close> from another thread is a flag at each place where the loop takes the mutex.
  \<^item> \<open>Query_Path\<close>, \<open>Inventory_Client\<close>, \<open>Client_Properties\<close>: the query handlers of both services, \<open>DbusClient.cpp\<close> and
    \<open>InventoryClient.cpp\<close>. The locale \<open>wire_codec\<close> is the contract of a query that travels through a codec.
  \<^item> \<open>Transports\<close>: the D-Bus and standard-output transports, adapters and factories of both services.
  \<^item> \<open>Daemons\<close>, \<open>Daemon_Properties\<close>: \<open>inventory-agentd\<close>, \<open>network-observationd\<close>, \<open>net-observe\<close>, \<open>inventory-watch\<close>.
    \<open>Cli_Output\<close>, \<open>Cli_Properties\<close>: the JSON documents and the lines the two clients print, and a reader for them.

  \<^bold>\<open>Conventions.\<close> \<open>std::unordered_map\<close> is an association list in an arbitrary order, \<open>std::map\<close> one sorted by key.
  A C++ exception is the left side of a sum. Fixed-width counters are words. A lock makes its
  critical section one step; threads interleave at that granularity. Clock readings are arguments.
  System calls and libraries answer from scripts or arguments: a loop that reads a script returns
  \<open>None\<close> when the script ends, so each round uses up at least one answer and no fuel is chosen. The
  one loop bounded only by the clock, \<open>tryWaitReady\<close>, is a partial function that is shown to return.
  Code outside the repository (\<open>thread_safe\<close>, \<open>service_runtime\<close>, \<open>dbus-cxx\<close>, \<open>lldpctl\<close>) is an argument; where a proof
  relies on it, its documented behaviour is a named predicate (\<open>variant_ok\<close>, \<open>queue_ok\<close>, \<open>dirty_ok\<close>,
  \<open>invoke_ok\<close>, \<open>unique_fd_ok\<close>, \<open>json_build_ok\<close>) that the witnesses establish for a concrete instance.

  \<^bold>\<open>What the properties show.\<close> For the model: its events tell a client exactly what it may look up, its invariant
  holds in every reachable state, local MACs and addresses are hidden, nothing is published before
  the model is live, aging, restart and promotion do what they say. For the inputs: parsing is
  memory safe and exact, dumps are taken in order and completely, the LLDP cache is what the client
  was told. For the runtime: the queue is transparent, drops are remembered until repaired, the
  LLDP observer is repaired before it is replaced, keepalives outrun aging, the loss of the Netlink
  worker is reported and never repaired. For the monitor: stopping ends in every interleaving, descriptors
  have one owner. For publication: a client
  that queries again ends with the model's view. For the inventory: ownership, exactness of a
  refresh, versions, bounded file reads; requests are never lost, refreshes are spaced, clients that
  follow the announcements hold the snapshot, a dead loop is reported. For the wire: types, round trips and
  limits, what a client receives is what the service has, end to end from the state of the model to
  the JSON of \<open>net-observe\<close>, and waiting for readiness ends. For the daemons: the sources
  \<open>inventory-agentd\<close> registers and what makes it ready.

  \<^bold>\<open>Not modelled.\<close> Threads, condition variables and memory orderings themselves: what they decide is an argument or an
  interleaving of steps. Destructors and delegating wrappers that only call a modelled function. Log
  lines, hash functions, the JSON writer, flag parsing and what lies in other repositories
  (\<open>ServiceBase\<close>, \<open>LifecycleCoordinator\<close>, \<open>ManagedWorker\<close>, \<open>EventFdSignal\<close>, \<open>UniqueFd\<close>, \<open>DaemonRunner\<close>). Tests, packaging and
  build files.
\<close>

end
